theory Spec2Isabelle
  imports Complex_Main
begin

section \<open>Python errors\<close>

text \<open>
  Every exception the modelled code can raise is a value; a function that can
  raise returns \<open>py_error + 'a\<close>, with \<open>Inl\<close> for the exception.
\<close>

datatype py_error =
    AAFAdapterError string
  | AAFValidationError string
  | NotSupportedError
  | CannotComputeAvailableRangeError
  | CannotTrimTransitionsError
  | TypeError
  | ValueError
  | ZeroDivisionError
  | AttributeError
  | IndexError
  | KeyError
  | AssertionError
  | RecursionError

section \<open>Hook extension points (aaf\_adapter/hooks.py)\<close>

text \<open>
  The adapter names four hooks.  The hook registry itself belongs to the
  OpenTimelineIO library: \<open>otio.hooks.names()\<close> lists the registered hook names
  and \<open>otio.hooks.run(name, tl, extra_args)\<close> runs the callbacks registered
  under a name, returning the timeline they produce or raising their error.
  Both are taken as parameters, bundled in a record.
\<close>

definition HOOK_PRE_READ_TRANSCRIBE :: string where
  "HOOK_PRE_READ_TRANSCRIBE = ''otio_aaf_pre_read_transcribe''"

definition HOOK_POST_READ_TRANSCRIBE :: string where
  "HOOK_POST_READ_TRANSCRIBE = ''otio_aaf_post_read_transcribe''"

definition HOOK_PRE_WRITE_TRANSCRIBE :: string where
  "HOOK_PRE_WRITE_TRANSCRIBE = ''otio_aaf_pre_write_transcribe''"

definition HOOK_POST_WRITE_TRANSCRIBE :: string where
  "HOOK_POST_WRITE_TRANSCRIBE = ''otio_aaf_post_write_transcribe''"

datatype hook_arg = ArgPath string | ArgHandle nat | ArgFlag bool

type_synonym hook_kwargs = "string \<rightharpoonup> hook_arg"

record ('tl, 'e) otio_hooks =
  hook_names :: "string list"
  hook_run :: "string \<Rightarrow> 'tl \<Rightarrow> hook_kwargs \<Rightarrow> 'e + 'tl"

definition run_pre_write_transcribe_hook ::
  "('tl, 'e) otio_hooks \<Rightarrow> 'tl \<Rightarrow> string \<Rightarrow> nat \<Rightarrow> bool \<Rightarrow> hook_kwargs \<Rightarrow> 'e + 'tl" where
  "run_pre_write_transcribe_hook reg timeline write_filepath aaf_handle embed_essence extra_kwargs =
     (if HOOK_PRE_WRITE_TRANSCRIBE \<in> set (hook_names reg) then
        hook_run reg HOOK_PRE_WRITE_TRANSCRIBE timeline
          (extra_kwargs(''write_filepath'' \<mapsto> ArgPath write_filepath,
                        ''aaf_handle'' \<mapsto> ArgHandle aaf_handle,
                        ''embed_essence'' \<mapsto> ArgFlag embed_essence))
      else Inr timeline)"

definition run_post_write_transcribe_hook ::
  "('tl, 'e) otio_hooks \<Rightarrow> 'tl \<Rightarrow> string \<Rightarrow> nat \<Rightarrow> bool \<Rightarrow> hook_kwargs \<Rightarrow> 'e + 'tl" where
  "run_post_write_transcribe_hook reg timeline write_filepath aaf_handle embed_essence extra_kwargs =
     (if HOOK_POST_WRITE_TRANSCRIBE \<in> set (hook_names reg) then
        hook_run reg HOOK_POST_WRITE_TRANSCRIBE timeline
          (extra_kwargs(''write_filepath'' \<mapsto> ArgPath write_filepath,
                        ''aaf_handle'' \<mapsto> ArgHandle aaf_handle,
                        ''embed_essence'' \<mapsto> ArgFlag embed_essence))
      else Inr timeline)"

text \<open>
  \<open>run_post_read_transcribe_hook\<close> as written in the source: both the membership
  test and the dispatch use \<open>HOOK_POST_WRITE_TRANSCRIBE\<close>.
\<close>

definition run_post_read_transcribe_hook ::
  "('tl, 'e) otio_hooks \<Rightarrow> 'tl \<Rightarrow> string \<Rightarrow> nat \<Rightarrow> hook_kwargs \<Rightarrow> 'e + 'tl" where
  "run_post_read_transcribe_hook reg timeline read_filepath aaf_handle extra_kwargs =
     (if HOOK_POST_WRITE_TRANSCRIBE \<in> set (hook_names reg) then
        hook_run reg HOOK_POST_WRITE_TRANSCRIBE timeline
          (extra_kwargs(''read_filepath'' \<mapsto> ArgPath read_filepath,
                        ''aaf_handle'' \<mapsto> ArgHandle aaf_handle))
      else Inr timeline)"

text \<open>
  A registry in which exactly one callback is registered, under the post-read
  name; the callback rejects every timeline, so any invocation is observable.
\<close>

definition only_post_read_registered :: "(nat, string) otio_hooks" where
  "only_post_read_registered =
     \<lparr> hook_names = [HOOK_POST_READ_TRANSCRIBE],
       hook_run = (\<lambda>name tl kw. Inl ''AAFAdapterError'') \<rparr>"

text \<open>
  A registry in which a callback is registered under the post-write name only.
\<close>

definition only_post_write_registered :: "(nat, string) otio_hooks" where
  "only_post_write_registered =
     \<lparr> hook_names = [HOOK_POST_WRITE_TRANSCRIBE],
       hook_run = (\<lambda>name tl kw.
          if name = HOOK_POST_WRITE_TRANSCRIBE then Inr (Suc tl) else Inl ''KeyError'') \<rparr>"

section \<open>Time effects (advanced\_authoring\_format.py)\<close>

text \<open>
  Python floats are modelled as exact rationals.  The built-in \<open>float(s)\<close>
  on a string is a parameter \<open>py_float\<close> (\<open>None\<close> when it raises ValueError);
  \<open>str(n)\<close> on an integer is the decimal rendering \<open>str_int\<close>.
\<close>

fun str_nat :: "nat \<Rightarrow> string" where
  "str_nat n =
     (if n < 10 then [''0123456789'' ! n]
      else str_nat (n div 10) @ [''0123456789'' ! (n mod 10)])"

declare str_nat.simps [simp del]

definition str_int :: "int \<Rightarrow> string" where
  "str_int i = (if i < 0 then CHR ''-'' # str_nat (nat (- i)) else str_nat (nat i))"

text \<open>\<open>s.split(c)\<close> for a one-character separator.\<close>

fun py_split :: "char \<Rightarrow> string \<Rightarrow> string list" where
  "py_split c [] = [[]]"
| "py_split c (x # xs) =
     (if x = c then [] # py_split c xs
      else (case py_split c xs of
              [] \<Rightarrow> [[x]]
            | p # ps \<Rightarrow> (x # p) # ps))"

record control_point =
  cp_time :: rat
  cp_value :: rat

text \<open>
  A parameter of an OperationGroup: a ConstantValue, or a VaryingValue with its
  \<open>PointList\<close> property (\<open>None\<close> when the property is absent).
\<close>

datatype parameter = ConstantValue | VaryingValue "control_point list option"

record operation_group =
  og_length :: int
  og_name :: "string option"
  og_parameters :: "(string \<times> parameter) list"

datatype effect_schema = LinearTimeWarp rat | FreezeFrame | TimeEffect | Effect

record effect =
  eff_schema :: effect_schema
  eff_effect_name :: string
  eff_name :: string
  eff_is_time_warp :: bool

text \<open>
  The library's constructors with their defaults; \<open>eff_is_time_warp\<close> is the
  truth value of \<open>metadata["AAF"]["Operation"]["IsTimeWarp"]\<close>, False while
  the metadata is empty.
\<close>

definition new_LinearTimeWarp :: effect where
  "new_LinearTimeWarp =
     \<lparr> eff_schema = LinearTimeWarp 1, eff_effect_name = ''LinearTimeWarp'',
       eff_name = [], eff_is_time_warp = False \<rparr>"

definition new_FreezeFrame :: effect where
  "new_FreezeFrame =
     \<lparr> eff_schema = FreezeFrame, eff_effect_name = ''FreezeFrame'',
       eff_name = [], eff_is_time_warp = False \<rparr>"

definition new_TimeEffect :: effect where
  "new_TimeEffect =
     \<lparr> eff_schema = TimeEffect, eff_effect_name = [],
       eff_name = [], eff_is_time_warp = False \<rparr>"

definition new_Effect :: effect where
  "new_Effect =
     \<lparr> eff_schema = Effect, eff_effect_name = [],
       eff_name = [], eff_is_time_warp = False \<rparr>"

text \<open>
  \<open>effect.time_scalar\<close>: the stored scalar of a LinearTimeWarp, 0 for a
  FreezeFrame, no such attribute on the other schemas.
\<close>

definition time_scalar :: "effect \<Rightarrow> rat option" where
  "time_scalar e =
     (case eff_schema e of
        LinearTimeWarp s \<Rightarrow> Some s
      | FreezeFrame \<Rightarrow> Some 0
      | _ \<Rightarrow> None)"


text \<open>
  \<open>_get_parameter\<close>: a dict is built from the parameters by name (a later
  parameter of the same name replaces an earlier one) and looked up.
\<close>

definition get_parameter :: "operation_group \<Rightarrow> string \<Rightarrow> parameter option" where
  "get_parameter item parameter_name = map_of (rev (og_parameters item)) parameter_name"

text \<open>\<open>speed_offset_map.get("PointList")\<close>.\<close>

definition get_PointList :: "parameter \<Rightarrow> control_point list option" where
  "get_PointList p = (case p of ConstantValue \<Rightarrow> None | VaryingValue pl \<Rightarrow> pl)"

definition transcribe_fancy_timewarp :: "operation_group \<Rightarrow> (string \<rightharpoonup> string) \<Rightarrow> effect" where
  "transcribe_fancy_timewarp item parameters =
     new_TimeEffect \<lparr> eff_effect_name := ''Unknown Time Warp Effect'',
                      eff_name := (case og_name item of None \<Rightarrow> [] | Some n \<Rightarrow> n) \<rparr>"

text \<open>The closing test of \<open>_transcribe_linear_timewarp\<close>: a zero scalar becomes a FreezeFrame.\<close>

definition freeze_if_zero :: "effect \<Rightarrow> effect" where
  "freeze_if_zero e = (if time_scalar e = Some 0 then new_FreezeFrame else e)"

definition set_time_scalar :: "effect \<Rightarrow> rat \<Rightarrow> effect" where
  "set_time_scalar e s = e \<lparr> eff_schema := LinearTimeWarp s \<rparr>"

definition transcribe_linear_timewarp ::
  "(string \<Rightarrow> rat option) \<Rightarrow> operation_group \<Rightarrow> (string \<rightharpoonup> string) \<Rightarrow> py_error + effect" where
  "transcribe_linear_timewarp py_float item parameters =
     (let effect = new_LinearTimeWarp;
          speed_offset_map = get_parameter item ''PARAM_SPEED_OFFSET_MAP_U'';
          points = (case speed_offset_map of None \<Rightarrow> Some [] | Some m \<Rightarrow> get_PointList m)
      in case points of
           None \<Rightarrow> Inl TypeError
         | Some points \<Rightarrow>
             if length points > 2 then Inr (transcribe_fancy_timewarp item parameters)
             else if length points = 2 then
               (let dv = cp_value (points ! 1) - cp_value (points ! 0);
                    dt = cp_time (points ! 1) - cp_time (points ! 0)
                in if dt = 0 then Inl ZeroDivisionError
                   else Inr (freeze_if_zero (set_time_scalar effect (dv / dt))))
             else
               (case parameters ''SpeedRatio'' of
                  None \<Rightarrow> Inl TypeError
                | Some ratio \<Rightarrow>
                    if ratio = str_int (og_length item) then
                      Inr (freeze_if_zero (set_time_scalar effect 0))
                    else if CHR ''/'' \<in> set ratio then
                      (case map py_float (py_split CHR ''/'' ratio) of
                         [Some numerator, Some denominator] \<Rightarrow>
                           if numerator = 0 then Inl ZeroDivisionError
                           else Inr (freeze_if_zero (set_time_scalar effect (denominator / numerator)))
                       | _ \<Rightarrow> Inl ValueError)
                    else
                      (case py_float ratio of
                         None \<Rightarrow> Inl ValueError
                       | Some r \<Rightarrow>
                           if r = 0 then Inl ZeroDivisionError
                           else Inr (freeze_if_zero (set_time_scalar effect (1 / r))))))"

text \<open>A \<open>float\<close> for the witnesses: plain decimal digit strings.\<close>

definition digit_float :: "string \<Rightarrow> rat option" where
  "digit_float s =
     (if s \<noteq> [] \<and> list_all (\<lambda>c. (48::nat) \<le> of_char c \<and> of_char c \<le> (57::nat)) s
      then Some (of_nat (foldl (\<lambda>a c. 10 * a + (of_char c - 48)) (0::nat) s))
      else None)"

text \<open>Example inputs: a speed ramp with two control points, and a still with none.\<close>

definition speed_ramp_example :: operation_group where
  "speed_ramp_example =
     \<lparr> og_length = 100, og_name = Some ''Motion Control'',
       og_parameters =
         [(''SpeedRatio'', ConstantValue),
          (''PARAM_SPEED_OFFSET_MAP_U'',
             VaryingValue (Some [\<lparr>cp_time = 0, cp_value = 0\<rparr>,
                                 \<lparr>cp_time = 99 / 100, cp_value = 1\<rparr>]))] \<rparr>"


section \<open>The composition tree (OpenTimelineIO schema objects)\<close>

text \<open>
  The tree the reader produces.  Only the attributes the adapter reads or
  writes are kept.  \<open>aaf_metadata\<close> is the part of \<open>metadata["AAF"]\<close> the
  adapter consults after transcription (an absent key is \<open>None\<close>, an absent
  or empty \<open>UserComments\<close> dictionary is \<open>[]\<close>).  Clip, Gap, Track and Stack are
  Items (they have source range, effects, markers and the enabled flag); a
  Transition is not.
\<close>

record rational_time =
  rt_value :: rat
  rt_rate :: rat

record time_range =
  start_time :: rational_time
  duration :: rational_time

record aaf_metadata =
  md_Name :: "string option"
  md_ClassName :: "string option"
  md_UserComments :: "(string \<times> string) list"
  md_MediaKind :: "string option"
  md_SlotID :: "int option"
  md_PhysicalTrackNumber :: "int option"
  md_AttachedSlotID :: "int option"
  md_AttachedPhysicalTrackNumber :: "int option"
  md_Length :: "int option"
  md_CutPoint :: "int option"

record marker =
  mk_name :: string
  mk_marked_range :: time_range
  mk_metadata :: "aaf_metadata option"

record item_attrs =
  name :: string
  metadata :: "aaf_metadata option"
  source_range :: "time_range option"
  effects :: "effect list"
  markers :: "marker list"
  enabled :: bool

record transition_attrs =
  tr_name :: string
  tr_metadata :: "aaf_metadata option"
  in_offset :: rational_time
  out_offset :: rational_time

record timeline_attrs =
  tl_name :: string
  tl_metadata :: "aaf_metadata option"
  global_start_time :: "rational_time option"

datatype thing =
    Clip item_attrs
  | Gap item_attrs
  | Transition transition_attrs
  | Track item_attrs string "thing list"
  | Stack item_attrs "thing list"
  | Timeline timeline_attrs thing
  | SerializableCollection "thing list"

text \<open>Accessors and \<open>isinstance\<close> tests.\<close>

fun children :: "thing \<Rightarrow> thing list" where
  "children (Track a k cs) = cs"
| "children (Stack a cs) = cs"
| "children (SerializableCollection cs) = cs"
| "children _ = []"

fun is_Item :: "thing \<Rightarrow> bool" where
  "is_Item (Clip a) = True"
| "is_Item (Gap a) = True"
| "is_Item (Track a k cs) = True"
| "is_Item (Stack a cs) = True"
| "is_Item _ = False"

fun is_Composition :: "thing \<Rightarrow> bool" where
  "is_Composition (Track a k cs) = True"
| "is_Composition (Stack a cs) = True"
| "is_Composition _ = False"

fun is_Track :: "thing \<Rightarrow> bool" where
  "is_Track (Track a k cs) = True"
| "is_Track _ = False"

fun is_Stack :: "thing \<Rightarrow> bool" where
  "is_Stack (Stack a cs) = True"
| "is_Stack _ = False"

fun is_Transition :: "thing \<Rightarrow> bool" where
  "is_Transition (Transition t) = True"
| "is_Transition _ = False"

fun is_Gap :: "thing \<Rightarrow> bool" where
  "is_Gap (Gap a) = True"
| "is_Gap _ = False"

text \<open>The attributes of an Item; \<open>None\<close> where Python has no such attribute.\<close>

fun item_attrs_of :: "thing \<Rightarrow> item_attrs option" where
  "item_attrs_of (Clip a) = Some a"
| "item_attrs_of (Gap a) = Some a"
| "item_attrs_of (Track a k cs) = Some a"
| "item_attrs_of (Stack a cs) = Some a"
| "item_attrs_of _ = None"

fun map_item_attrs :: "(item_attrs \<Rightarrow> item_attrs) \<Rightarrow> thing \<Rightarrow> thing" where
  "map_item_attrs f (Clip a) = Clip (f a)"
| "map_item_attrs f (Gap a) = Gap (f a)"
| "map_item_attrs f (Track a k cs) = Track (f a) k cs"
| "map_item_attrs f (Stack a cs) = Stack (f a) cs"
| "map_item_attrs f t = t"

text \<open>\<open>thing.metadata.get("AAF")\<close>: \<open>None\<close> when the key is absent.\<close>

fun metadata_of :: "thing \<Rightarrow> aaf_metadata option" where
  "metadata_of (Clip a) = metadata a"
| "metadata_of (Gap a) = metadata a"
| "metadata_of (Track a k cs) = metadata a"
| "metadata_of (Stack a cs) = metadata a"
| "metadata_of (Transition t) = tr_metadata t"
| "metadata_of (Timeline t s) = tl_metadata t"
| "metadata_of (SerializableCollection cs) = None"

fun name_of :: "thing \<Rightarrow> string" where
  "name_of (Clip a) = name a"
| "name_of (Gap a) = name a"
| "name_of (Track a k cs) = name a"
| "name_of (Stack a cs) = name a"
| "name_of (Transition t) = tr_name t"
| "name_of (Timeline t s) = tl_name t"
| "name_of (SerializableCollection cs) = []"

fun nodes :: "thing \<Rightarrow> nat" where
  "nodes (Track a k cs) = Suc (sum_list (map nodes cs))"
| "nodes (Stack a cs) = Suc (sum_list (map nodes cs))"
| "nodes (SerializableCollection cs) = Suc (sum_list (map nodes cs))"
| "nodes (Timeline t s) = Suc (nodes s)"
| "nodes _ = Suc 0"

section \<open>Library operations taken as parameters\<close>

text \<open>
  The simplifier calls into OpenTimelineIO for time arithmetic and trimming.
  These operations are parameters: \<open>range.contains(time)\<close>, the sum of two
  RationalTimes, \<open>item.trimmed_range()\<close> (which may raise), and the decisions
  of \<open>otio.algorithms.track_trimmed_to_range\<close>.  That function copies the
  track and then, child by child, discards the child, keeps it, or replaces its
  source range (or raises); the per-child decisions are the parameter
  \<open>lib_trim_plan\<close>, and \<open>apply_trim\<close> carries them out.  \<open>deepcopy\<close> and
  \<open>copy.copy\<close> are the identity on values.
\<close>

datatype trim_action = Discard | Keep | Cut time_range

record otio_lib =
  lib_trim_plan :: "thing \<Rightarrow> time_range \<Rightarrow> py_error + trim_action list"
  lib_trimmed_range :: "thing \<Rightarrow> py_error + time_range"
  lib_contains :: "time_range \<Rightarrow> rational_time \<Rightarrow> bool"
  lib_add :: "rational_time \<Rightarrow> rational_time \<Rightarrow> rational_time"

fun apply_trim :: "trim_action list \<Rightarrow> thing list \<Rightarrow> thing list" where
  "apply_trim (Discard # acts) (c # cs) = apply_trim acts cs"
| "apply_trim (Keep # acts) (c # cs) = c # apply_trim acts cs"
| "apply_trim (Cut r # acts) (c # cs) =
     map_item_attrs (\<lambda>a. a\<lparr>source_range := Some r\<rparr>) c # apply_trim acts cs"
| "apply_trim [] cs = cs"
| "apply_trim acts [] = []"

definition track_trimmed_to_range :: "otio_lib \<Rightarrow> thing \<Rightarrow> time_range \<Rightarrow> py_error + thing" where
  "track_trimmed_to_range L in_track trim_range =
     (case in_track of
        Track a k cs \<Rightarrow>
          (case lib_trim_plan L in_track trim_range of
             Inl e \<Rightarrow> Inl e
           | Inr plan \<Rightarrow> Inr (Track a k (apply_trim plan cs)))
      | _ \<Rightarrow> Inl TypeError)"

definition TimeRange_duration :: "rational_time \<Rightarrow> time_range" where
  "TimeRange_duration d = \<lparr> start_time = \<lparr> rt_value = 0, rt_rate = rt_rate d \<rparr>, duration = d \<rparr>"

section \<open>Simplification (\_simplify and its helpers)\<close>

text \<open>
  \<open>thing.parent()\<close> is read only by \<open>_is_redundant_container\<close> and at the
  end of \<open>_simplify\<close>; it is modelled by passing down the kinds of the
  ancestors (nearest first).  The root stack of a Timeline and the members of a
  SerializableCollection have no parent.
\<close>

definition empty_metadata :: aaf_metadata where
  "empty_metadata =
     \<lparr> md_Name = None, md_ClassName = None, md_UserComments = [], md_MediaKind = None,
       md_SlotID = None, md_PhysicalTrackNumber = None, md_AttachedSlotID = None,
       md_AttachedPhysicalTrackNumber = None, md_Length = None, md_CutPoint = None \<rparr>"

definition new_item :: item_attrs where
  "new_item =
     \<lparr> name = [], metadata = None, source_range = None, effects = [],
       markers = [], enabled = True \<rparr>"

definition transcribe_media_kind :: "string \<Rightarrow> string" where
  "transcribe_media_kind media_kind =
     (if media_kind = ''Picture'' then ''Video''
      else if media_kind = ''SoundMasterTrack'' \<or> media_kind = ''Sound'' then ''Audio''
      else ''AAF_'' @ media_kind)"

definition wrap_in_track :: "thing \<Rightarrow> thing" where
  "wrap_in_track child =
     (let media_kind = (case metadata_of child of None \<Rightarrow> None | Some m \<Rightarrow> md_MediaKind m);
          kind = (case media_kind of
                    None \<Rightarrow> ''Video''
                  | Some mk \<Rightarrow> if mk = [] then ''Video'' else transcribe_media_kind mk)
      in Track (new_item \<lparr> name := name_of child \<rparr>) kind [child])"

definition ensure_stack_tracks :: "thing list \<Rightarrow> thing list" where
  "ensure_stack_tracks cs = map (\<lambda>child. if is_Track child then child else wrap_in_track child) cs"

definition valuable_metadata :: "thing \<Rightarrow> bool" where
  "valuable_metadata thing =
     (case metadata_of thing of
        None \<Rightarrow> False
      | Some m \<Rightarrow> md_ClassName m = Some ''CompositionMob'' \<and> md_UserComments m \<noteq> [])"

definition has_effects :: "thing \<Rightarrow> bool" where
  "has_effects thing =
     (case item_attrs_of thing of None \<Rightarrow> False | Some a \<Rightarrow> length (effects a) > 0)"

definition has_time_effect :: "item_attrs \<Rightarrow> bool" where
  "has_time_effect a = list_ex eff_is_time_warp (effects a)"

definition has_transitions :: "thing list \<Rightarrow> bool" where
  "has_transitions things = list_ex (\<lambda>child. list_ex is_Transition (children child)) things"

definition track_item_can_flatten :: "thing \<Rightarrow> bool" where
  "track_item_can_flatten thing =
     (if \<not> is_Track thing then False
      else if valuable_metadata thing then False
      else if length (children thing) = 1 then True
      else if has_effects thing then False
      else if has_transitions [thing] then False
      else True)"

definition stack_item_can_be_flatten :: "thing \<Rightarrow> bool" where
  "stack_item_can_be_flatten thing =
     (if has_effects thing \<or> valuable_metadata thing then False
      else if is_Stack thing then True
      else if is_Track thing then
        (if length (children thing) \<noteq> 1 then False
         else let child_stack = children thing ! 0 in
           if \<not> is_Stack child_stack then False
           else if has_effects child_stack \<or> valuable_metadata child_stack then False
           else True)
      else False)"

definition trim_markers :: "otio_lib \<Rightarrow> thing \<Rightarrow> py_error + thing" where
  "trim_markers L thing =
     (case item_attrs_of thing of
        None \<Rightarrow> Inl AttributeError
      | Some a \<Rightarrow>
          if markers a = [] then Inr thing
          else (case source_range a of
                  None \<Rightarrow> Inl AttributeError
                | Some r \<Rightarrow>
                    Inr (map_item_attrs
                          (\<lambda>a. a\<lparr>markers :=
                                filter (\<lambda>m. lib_contains L r (start_time (mk_marked_range m)))
                                  (markers a)\<rparr>) thing)))"

definition fix_time_effect_duration :: "thing \<Rightarrow> time_range option \<Rightarrow> py_error + thing" where
  "fix_time_effect_duration thing src_range =
     (case src_range of
        None \<Rightarrow> Inr thing
      | Some sr \<Rightarrow>
          (case item_attrs_of thing of
             None \<Rightarrow> Inl AttributeError
           | Some a \<Rightarrow>
               (case source_range a of
                  None \<Rightarrow> Inl AttributeError
                | Some r \<Rightarrow>
                    Inr (map_item_attrs
                          (\<lambda>a. a\<lparr>source_range :=
                                Some \<lparr>start_time = start_time r, duration = duration sr\<rparr>\<rparr>)
                          thing))))"

fun contains_something_valuable :: "thing \<Rightarrow> bool" where
  "contains_something_valuable (Track a k cs) =
     (if length (effects a) > 0 \<or> length (markers a) > 0 then True
      else if valuable_metadata (Track a k cs) then True
      else if length cs = 0 then False
      else list_ex contains_something_valuable cs)"
| "contains_something_valuable (Stack a cs) =
     (if length (effects a) > 0 \<or> length (markers a) > 0 then True
      else if valuable_metadata (Stack a cs) then True
      else if length cs = 0 then False
      else list_ex contains_something_valuable cs)"
| "contains_something_valuable (Clip a) = True"
| "contains_something_valuable (Gap a) =
     (if length (effects a) > 0 \<or> length (markers a) > 0 then True
      else if valuable_metadata (Gap a) then True
      else False)"
| "contains_something_valuable t = True"

datatype container_kind = KTrack | KStack

definition is_redundant_container :: "container_kind list \<Rightarrow> thing \<Rightarrow> bool" where
  "is_redundant_container parents thing =
     (if \<not> is_Composition thing then False
      else if length (children thing) \<noteq> 1 then False
      else if valuable_metadata thing then False
      else let am_top_level_track = (is_Track thing \<and> parents = [KStack])
           in \<not> am_top_level_track
              \<or> (is_Track thing \<and> is_Track (children thing ! 0)))"

definition absorb_effects :: "thing \<Rightarrow> effect list \<Rightarrow> time_range option \<Rightarrow> py_error + thing" where
  "absorb_effects first_item effs child_source_range =
     (case item_attrs_of first_item of
        None \<Rightarrow> Inl AttributeError
      | Some fa \<Rightarrow>
          if has_time_effect (fa\<lparr>effects := effects fa @ effs\<rparr>)
          then fix_time_effect_duration
                 (map_item_attrs (\<lambda>a. a\<lparr>effects := effects a @ effs\<rparr>) first_item)
                 child_source_range
          else Inr (map_item_attrs (\<lambda>a. a\<lparr>effects := effects a @ effs\<rparr>) first_item))"

lemma nodes_pos: "0 < nodes t"
  by (cases t) simp_all

lemma nodes_map_item_attrs: "nodes (map_item_attrs f t) = nodes t"
  by (cases t) simp_all

lemma sum_nodes_apply_trim:
  "sum_list (map nodes (apply_trim plan cs)) \<le> sum_list (map nodes cs)"
  by (induction plan cs rule: apply_trim.induct) (simp_all add: nodes_map_item_attrs)

lemma track_trimmed_nodes:
  assumes "track_trimmed_to_range L (Track a k cs) r = Inr (Track a' k' cs')"
  shows "sum_list (map nodes cs') \<le> sum_list (map nodes cs)"
  using assms sum_nodes_apply_trim [of _ cs]
  by (auto simp: track_trimmed_to_range_def split: sum.splits)

lemma absorb_effects_nodes:
  assumes "absorb_effects t effs sr = Inr t'"
  shows "nodes t' = nodes t"
  using assms
  by (auto simp: absorb_effects_def fix_time_effect_duration_def nodes_map_item_attrs
      split: option.splits if_splits)

definition trim_to_own_range :: "otio_lib \<Rightarrow> thing \<Rightarrow> py_error + thing" where
  "trim_to_own_range L child =
     (case item_attrs_of child of
        None \<Rightarrow> Inl AttributeError
      | Some ca \<Rightarrow>
          (case source_range ca of
             None \<Rightarrow> Inr child
           | Some r \<Rightarrow> track_trimmed_to_range L child r))"

definition merge_into_single_child ::
  "item_attrs \<Rightarrow> thing list \<Rightarrow> py_error + thing list" where
  "merge_into_single_child ca children_of_child =
     (case children_of_child of
        [first_item] \<Rightarrow>
          (case absorb_effects first_item (effects ca) (source_range ca) of
             Inl e \<Rightarrow> Inl e
           | Inr first_item' \<Rightarrow> Inr [first_item'])
      | _ \<Rightarrow> Inr children_of_child)"

lemma trim_to_own_range_nodes:
  assumes "trim_to_own_range L (Track a k cs) = Inr (Track a' k' cs')"
  shows "sum_list (map nodes cs') \<le> sum_list (map nodes cs)"
  using assms track_trimmed_nodes [of L a k cs _ a' k' cs']
  by (auto simp: trim_to_own_range_def split: option.splits)

lemma merge_into_single_child_nodes:
  assumes "merge_into_single_child ca cs = Inr cs'"
  shows "length cs' = length cs \<and> sum_list (map nodes cs') = sum_list (map nodes cs)"
  using assms
  by (auto simp: merge_into_single_child_def absorb_effects_nodes split: list.splits sum.splits)

lemma take_Suc_sum_nodes:
  "n < length cs \<Longrightarrow>
     sum_list (map nodes (take (Suc n) cs)) = sum_list (map nodes (take n cs)) + nodes (cs ! n)"
  by (simp add: take_Suc_conv_app_nth)

function track_flatten_loop ::
  "otio_lib \<Rightarrow> item_attrs \<Rightarrow> thing list \<Rightarrow> int \<Rightarrow> py_error + item_attrs \<times> thing list" where
  "track_flatten_loop L a cs c =
     (if c < 0 then Inr (a, cs)
      else if length cs \<le> nat c then Inl IndexError
      else if \<not> track_item_can_flatten (cs ! nat c) then track_flatten_loop L a cs (c - 1)
      else
        (case trim_to_own_range L (cs ! nat c) of
           Inl e \<Rightarrow> Inl e
         | Inr (Track ca k children_of_child) \<Rightarrow>
             (case merge_into_single_child ca children_of_child of
                Inl e \<Rightarrow> Inl e
              | Inr children_of_child' \<Rightarrow>
                  track_flatten_loop L
                    (a\<lparr>markers := markers a @ markers ca,
                       enabled := enabled a \<and> enabled ca\<rparr>)
                    (take (nat c) cs @ children_of_child' @ drop (Suc (nat c)) cs)
                    (c + int (length children_of_child) - 1))
         | Inr _ \<Rightarrow> Inl TypeError))"
  by pat_completeness auto

lemma can_flatten_is_Track: "track_item_can_flatten t \<Longrightarrow> \<exists>a k cs. t = Track a k cs"
  by (cases t) (simp_all add: track_item_can_flatten_def)

termination track_flatten_loop
proof (relation "measure (\<lambda>(L, a, cs, c). sum_list (map nodes (take (nat (c + 1)) cs)))", goal_cases)
  case 1
  show ?case by simp
next
  case (2 L a cs c)
  then show ?case
    by (simp add: nat_add_distrib take_Suc_sum_nodes nodes_pos)
next
  case (3 L a cs c t ca k coc coc')
  from 3(3) obtain a0 k0 cs0 where t0: "cs ! nat c = Track a0 k0 cs0"
    using can_flatten_is_Track by blast
  from 3(4,5) t0 have le: "sum_list (map nodes coc) \<le> sum_list (map nodes cs0)"
    using trim_to_own_range_nodes by simp
  from 3(6) have eq: "length coc' = length coc" "sum_list (map nodes coc') = sum_list (map nodes coc)"
    using merge_into_single_child_nodes by blast+
  from 3(1,2) have c: "nat c < length cs" "0 \<le> c" by simp_all
  have "nat (c + int (length coc) - 1 + 1) = nat c + length coc'"
    using c eq by (simp add: nat_add_distrib)
  moreover have "take (nat c + length coc') (take (nat c) cs @ coc' @ drop (Suc (nat c)) cs)
        = take (nat c) cs @ coc'"
    using c by simp
  moreover have "nat (c + 1) = Suc (nat c)" using c by simp
  ultimately show ?case
    using c t0 le eq by (simp add: take_Suc_sum_nodes)
qed


declare track_flatten_loop.simps [simp del]

lemma stack_flatten_is_container:
  assumes "stack_item_can_be_flatten t"
  shows "(\<exists>a cs. t = Stack a cs) \<or> (\<exists>a k b cs. t = Track a k [Stack b cs])"
proof (cases t)
  case (Track a k cs)
  with assms have len: "length cs = 1" and st: "is_Stack (cs ! 0)"
    by (auto simp: stack_item_can_be_flatten_def Let_def split: if_splits)
  from len obtain x where cs: "cs = [x]" by (cases cs) auto
  with st obtain b ds where "x = Stack b ds" by (cases x) auto
  with Track cs show ?thesis by simp
qed (use assms in \<open>auto simp: stack_item_can_be_flatten_def split: if_splits\<close>)

text \<open>The Stack whose children are pulled up: the child itself, or the only child of a Track.\<close>

definition flattened_stack :: "thing \<Rightarrow> thing" where
  "flattened_stack child = (if is_Track child then children child ! 0 else child)"

lemma flattened_stack_nodes:
  assumes "stack_item_can_be_flatten t" and "flattened_stack t = Stack b ds"
  shows "sum_list (map nodes ds) < nodes t"
  using stack_flatten_is_container [OF assms(1)] assms(2)
  by (auto simp: flattened_stack_def)

function stack_flatten_loop ::
  "item_attrs \<Rightarrow> thing list \<Rightarrow> int \<Rightarrow> py_error + item_attrs \<times> thing list" where
  "stack_flatten_loop a cs c =
     (if c < 0 then Inr (a, cs)
      else if length cs \<le> nat c then Inl IndexError
      else if stack_item_can_be_flatten (cs ! nat c) then
        (case flattened_stack (cs ! nat c) of
           Stack ca children_of_child \<Rightarrow>
             stack_flatten_loop
               (a\<lparr>markers := markers a @ markers ca,
                  enabled := enabled a \<and> enabled ca\<rparr>)
               (take (nat c) cs @ children_of_child @ drop (Suc (nat c)) cs)
               (c + int (length children_of_child) - 1)
         | _ \<Rightarrow> Inl TypeError)
      else stack_flatten_loop a cs (c - 1))"
  by pat_completeness auto

termination stack_flatten_loop
proof (relation "measure (\<lambda>(a, cs, c). sum_list (map nodes (take (nat (c + 1)) cs)))", goal_cases)
  case 1
  show ?case by simp
next
  case (2 a cs c ca coc)
  from 2(1,2) have c: "nat c < length cs" "0 \<le> c" by simp_all
  have lt: "sum_list (map nodes coc) < nodes (cs ! nat c)"
    using flattened_stack_nodes [OF 2(3) 2(4)] .
  have "nat (c + int (length coc) - 1 + 1) = nat c + length coc"
    using c by (simp add: nat_add_distrib)
  moreover have "take (nat c + length coc) (take (nat c) cs @ coc @ drop (Suc (nat c)) cs)
        = take (nat c) cs @ coc"
    using c by simp
  moreover have "nat (c + 1) = Suc (nat c)" using c by simp
  ultimately show ?case
    using c lt by (simp add: take_Suc_sum_nodes)
next
  case (3 a cs c)
  then show ?case
    by (simp add: nat_add_distrib take_Suc_sum_nodes nodes_pos)
qed

declare stack_flatten_loop.simps [simp del]

definition collapse_redundant :: "otio_lib \<Rightarrow> thing \<Rightarrow> py_error + thing" where
  "collapse_redundant L thing =
     (case (item_attrs_of thing, item_attrs_of (children thing ! 0)) of
        (Some ta, Some ca) \<Rightarrow>
          (let result =
                 map_item_attrs
                   (\<lambda>ra. ra\<lparr>enabled := (if \<not> enabled ta then False else enabled ra),
                             markers := markers ra @ markers ta,
                             effects := effects ra @ effects ta\<rparr>)
                   (children thing ! 0)
           in case source_range ta of
                None \<Rightarrow> Inr result
              | Some tsr \<Rightarrow>
                  (case (case source_range ca of
                           Some rsr \<Rightarrow> Inr rsr
                         | None \<Rightarrow> lib_trimmed_range L result) of
                     Inr rsr \<Rightarrow>
                       Inr (map_item_attrs
                             (\<lambda>ra. ra\<lparr>source_range :=
                                   Some \<lparr>start_time = lib_add L (start_time rsr) (start_time tsr),
                                         duration = duration tsr\<rparr>\<rparr>) result)
                   | Inl CannotComputeAvailableRangeError \<Rightarrow>
                       Inr (map_item_attrs (\<lambda>ra. ra\<lparr>source_range := Some tsr\<rparr>) result)
                   | Inl e \<Rightarrow> Inl e))
      | _ \<Rightarrow> Inl AttributeError)"

fun trim_markers_all :: "otio_lib \<Rightarrow> thing list \<Rightarrow> py_error + thing list" where
  "trim_markers_all L [] = Inr []"
| "trim_markers_all L (child # rest) =
     (case trim_markers L child of
        Inl e \<Rightarrow> Inl e
      | Inr child' \<Rightarrow>
          (case trim_markers_all L rest of
             Inl e \<Rightarrow> Inl e
           | Inr rest' \<Rightarrow> Inr (child' # rest')))"

fun trim_stack_tracks :: "otio_lib \<Rightarrow> time_range \<Rightarrow> thing list \<Rightarrow> py_error + thing list" where
  "trim_stack_tracks L r [] = Inr []"
| "trim_stack_tracks L r (child_track # rest) =
     (case track_trimmed_to_range L child_track r of
        Inl e \<Rightarrow> Inl e
      | Inr (Track ta k tcs) \<Rightarrow>
          (case trim_markers_all L tcs of
             Inl e \<Rightarrow> Inl e
           | Inr tcs' \<Rightarrow>
               (case trim_stack_tracks L r rest of
                  Inl e \<Rightarrow> Inl e
                | Inr rest' \<Rightarrow> Inr (Track ta k tcs' # rest')))
      | Inr _ \<Rightarrow> Inl TypeError)"

text \<open>
  The end of \<open>_simplify\<close> for a Composition whose children have been rewritten:
  the value returned, paired with the state in which the object itself is left.
\<close>

definition finish_composition ::
  "otio_lib \<Rightarrow> container_kind list \<Rightarrow> thing \<Rightarrow> py_error + thing \<times> thing" where
  "finish_composition L parents thing =
     (if is_redundant_container parents thing then
        (case collapse_redundant L thing of
           Inl e \<Rightarrow> Inl e
         | Inr result \<Rightarrow> Inr (result, thing))
      else
        (case thing of
           Stack a cs \<Rightarrow>
             if parents = [] then Inr (Stack a (ensure_stack_tracks cs), Stack a (ensure_stack_tracks cs))
             else Inr (thing, thing)
         | _ \<Rightarrow> Inr (thing, thing)))"

definition simplify_track ::
  "otio_lib \<Rightarrow> container_kind list \<Rightarrow> item_attrs \<Rightarrow> string \<Rightarrow> thing list
     \<Rightarrow> py_error + thing \<times> thing" where
  "simplify_track L parents a k cs =
     (case track_flatten_loop L a cs (int (length cs) - 1) of
        Inl e \<Rightarrow> Inl e
      | Inr (a', cs') \<Rightarrow> finish_composition L parents (Track a' k cs'))"

definition simplify_stack ::
  "otio_lib \<Rightarrow> container_kind list \<Rightarrow> item_attrs \<Rightarrow> thing list \<Rightarrow> py_error + thing \<times> thing" where
  "simplify_stack L parents a cs =
     (let kept = filter contains_something_valuable cs in
      case stack_flatten_loop a kept (int (length kept) - 1) of
        Inl e \<Rightarrow> Inl e
      | Inr (a', flat) \<Rightarrow>
          (let tracks = ensure_stack_tracks flat in
           case (case source_range a' of
                   None \<Rightarrow> Inr (a', tracks)
                 | Some r \<Rightarrow>
                     if has_transitions tracks then Inr (a', tracks)
                     else (case trim_stack_tracks L r tracks of
                             Inl e \<Rightarrow> Inl e
                           | Inr trimmed \<Rightarrow>
                               Inr (a'\<lparr>source_range := Some (TimeRange_duration (duration r))\<rparr>,
                                    trimmed))) of
             Inl e \<Rightarrow> Inl e
           | Inr (a'', cs'') \<Rightarrow> finish_composition L parents (Stack a'' cs'')))"

fun simplify2 :: "otio_lib \<Rightarrow> container_kind list \<Rightarrow> thing \<Rightarrow> py_error + thing \<times> thing"
  and simplify_children :: "otio_lib \<Rightarrow> container_kind list \<Rightarrow> thing list \<Rightarrow> py_error + thing list"
  where
  "simplify2 L parents (SerializableCollection []) =
     Inr (SerializableCollection [], SerializableCollection [])"
| "simplify2 L parents (SerializableCollection [c]) =
     (case simplify2 L [] c of
        Inl e \<Rightarrow> Inl e
      | Inr (result, c') \<Rightarrow> Inr (result, SerializableCollection [c']))"
| "simplify2 L parents (SerializableCollection (c # d # cs)) =
     (case simplify_children L [] (c # d # cs) of
        Inl e \<Rightarrow> Inl e
      | Inr cs' \<Rightarrow> Inr (SerializableCollection cs', SerializableCollection cs'))"
| "simplify2 L parents (Timeline ta tracks) =
     (case simplify2 L [] tracks of
        Inl e \<Rightarrow> Inl e
      | Inr (result, tracks') \<Rightarrow>
          if is_Stack result then Inr (Timeline ta result, Timeline ta result)
          else Inr (Timeline ta tracks', Timeline ta tracks'))"
| "simplify2 L parents (Track a k cs) =
     (if cs = [] then Inr (Track a k cs, Track a k cs)
      else (case simplify_children L (KTrack # parents) cs of
              Inl e \<Rightarrow> Inl e
            | Inr cs' \<Rightarrow> simplify_track L parents a k cs'))"
| "simplify2 L parents (Stack a cs) =
     (if cs = [] then Inr (Stack a cs, Stack a cs)
      else (case simplify_children L (KStack # parents) cs of
              Inl e \<Rightarrow> Inl e
            | Inr cs' \<Rightarrow> simplify_stack L parents a cs'))"
| "simplify2 L parents thing = Inr (thing, thing)"
| "simplify_children L parents [] = Inr []"
| "simplify_children L parents (child # rest) =
     (case simplify2 L parents child of
        Inl e \<Rightarrow> Inl e
      | Inr (child', _) \<Rightarrow>
          (case simplify_children L parents rest of
             Inl e \<Rightarrow> Inl e
           | Inr rest' \<Rightarrow> Inr (child' # rest')))"

definition simplify :: "otio_lib \<Rightarrow> thing \<Rightarrow> py_error + thing" where
  "simplify L thing =
     (case simplify2 L [] thing of Inl e \<Rightarrow> Inl e | Inr (result, _) \<Rightarrow> Inr result)"

subsection \<open>Example trees\<close>

text \<open>
  A library instance for the examples: nothing is trimmed, every range
  contains every time, no available range can be computed, and times of one
  rate add up.
\<close>

definition keep_all_lib :: otio_lib where
  "keep_all_lib =
     \<lparr> lib_trim_plan = (\<lambda>t r. Inr []),
       lib_trimmed_range = (\<lambda>t. Inl CannotComputeAvailableRangeError),
       lib_contains = (\<lambda>r t. True),
       lib_add = (\<lambda>a b. \<lparr> rt_value = rt_value a + rt_value b, rt_rate = rt_rate a \<rparr>) \<rparr>"

definition new_timeline :: timeline_attrs where
  "new_timeline = \<lparr> tl_name = [], tl_metadata = None, global_start_time = None \<rparr>"

definition a_timeline :: "thing list \<Rightarrow> thing" where
  "a_timeline top_level = Timeline new_timeline (Stack new_item top_level)"

definition a_track :: "thing list \<Rightarrow> thing" where
  "a_track cs = Track new_item ''Video'' cs"

definition a_stack :: "thing list \<Rightarrow> thing" where
  "a_stack cs = Stack new_item cs"

definition a_clip :: thing where
  "a_clip = Clip new_item"

definition clip_named :: "string \<Rightarrow> thing" where
  "clip_named n = Clip (new_item \<lparr> name := n \<rparr>)"

definition blur :: effect where
  "blur = new_Effect \<lparr> eff_name := ''Blur'' \<rparr>"

text \<open>
  A track holding a clip and a nested stack; one layer of the nested stack is
  a stack with an effect over a single clip.  \<open>effect_on_track\<close> and
  \<open>effect_on_clip\<close> are the same timeline with the effect moved to a synthetic
  track, and from there to the clip.
\<close>

definition effect_on_stack :: thing where
  "effect_on_stack =
     a_timeline [a_track [a_clip,
        a_stack [Stack (new_item \<lparr> effects := [blur] \<rparr>) [a_clip], a_clip]]]"

definition effect_on_track :: thing where
  "effect_on_track =
     a_timeline [a_track [a_clip,
        a_stack [Track (new_item \<lparr> effects := [blur] \<rparr>) ''Video'' [a_clip], a_track [a_clip]]]]"

definition effect_on_clip :: thing where
  "effect_on_clip =
     a_timeline [a_track [a_clip,
        a_stack [a_track [Clip (new_item \<lparr> effects := [blur] \<rparr>)], a_track [a_clip]]]]"


subsection \<open>Flat timelines\<close>

text \<open>
  A timeline is flat when its root stack has no source range and holds only
  tracks of clips, gaps and transitions.
\<close>

fun is_leaf :: "thing \<Rightarrow> bool" where
  "is_leaf (Clip a) = True"
| "is_leaf (Gap a) = True"
| "is_leaf (Transition t) = True"
| "is_leaf _ = False"

fun flat_track :: "thing \<Rightarrow> bool" where
  "flat_track (Track a k cs) = list_all is_leaf cs"
| "flat_track _ = False"

fun flat_timeline :: "thing \<Rightarrow> bool" where
  "flat_timeline (Timeline ta (Stack a tracks)) =
     (source_range a = None \<and> list_all flat_track tracks)"
| "flat_timeline _ = False"

text \<open>The flat timeline without the tracks that contain nothing valuable.\<close>

fun without_worthless_tracks :: "thing \<Rightarrow> thing" where
  "without_worthless_tracks (Timeline ta (Stack a tracks)) =
     Timeline ta (Stack a (filter contains_something_valuable tracks))"
| "without_worthless_tracks t = t"

definition gap_track :: thing where
  "gap_track = Track new_item ''Video'' [Gap new_item]"

definition flat_example :: thing where
  "flat_example =
     a_timeline [a_track [clip_named ''a'', Gap new_item, clip_named ''b''], gap_track,
                 Track (new_item \<lparr> effects := [blur] \<rparr>) ''Video'' []]"


subsection \<open>Timelines with plain containers\<close>

text \<open>
  A container is plain when it has no effect, no marker, no source range and
  no valuable metadata, and is enabled.  A timeline is plain when all its
  tracks and stacks are plain and hold only clips, gaps, tracks and stacks.
\<close>

definition plain :: "item_attrs \<Rightarrow> bool" where
  "plain a =
     (effects a = [] \<and> markers a = [] \<and> source_range a = None \<and> enabled a
      \<and> (case metadata a of
            None \<Rightarrow> True
          | Some m \<Rightarrow> \<not> (md_ClassName m = Some ''CompositionMob'' \<and> md_UserComments m \<noteq> [])))"

fun is_clip_or_gap :: "thing \<Rightarrow> bool" where
  "is_clip_or_gap (Clip a) = True"
| "is_clip_or_gap (Gap a) = True"
| "is_clip_or_gap _ = False"

fun plain_tree :: "thing \<Rightarrow> bool" where
  "plain_tree (Clip a) = True"
| "plain_tree (Gap a) = True"
| "plain_tree (Track a k cs) = (plain a \<and> list_all plain_tree cs)"
| "plain_tree (Stack a cs) = (plain a \<and> list_all plain_tree cs)"
| "plain_tree (Transition t) = False"
| "plain_tree (Timeline t s) = False"
| "plain_tree (SerializableCollection cs) = False"

fun plain_timeline :: "thing \<Rightarrow> bool" where
  "plain_timeline (Timeline ta (Stack a cs)) = plain_tree (Stack a cs)"
| "plain_timeline _ = False"

text \<open>
  What the two loops of the simplifier compute when the children pulled up
  need no flattening themselves: each child that can be flattened is replaced
  by its children.
\<close>

definition flattened_tracks :: "thing list \<Rightarrow> thing list" where
  "flattened_tracks cs =
     concat (map (\<lambda>c. if track_item_can_flatten c then children c else [c]) cs)"

definition flattened_stacks :: "thing list \<Rightarrow> thing list" where
  "flattened_stacks cs =
     concat (map (\<lambda>c. if stack_item_can_be_flatten c then children (flattened_stack c)
                        else [c]) cs)"

text \<open>
  The shape of a simplified plain tree below the top level: a clip or gap; a
  track that holds no track and, if it has a single child, is the synthetic
  track around a clip or gap; a stack of no or several tracks, each
  containing something valuable.  A simplified top-level track holds no track
  and is not a track around a single stack.
\<close>

fun simplified :: "thing \<Rightarrow> bool" where
  "simplified (Clip a) = True"
| "simplified (Gap a) = True"
| "simplified (Track a k cs) =
     (plain a \<and> list_all (\<lambda>c. simplified c \<and> \<not> is_Track c) cs
      \<and> (length cs = 1 \<longrightarrow> is_clip_or_gap (cs ! 0) \<and> Track a k cs = wrap_in_track (cs ! 0)))"
| "simplified (Stack a cs) =
     (plain a \<and> length cs \<noteq> 1
      \<and> list_all (\<lambda>t. simplified t \<and> is_Track t \<and> contains_something_valuable t) cs)"
| "simplified (Transition t) = False"
| "simplified (Timeline t s) = False"
| "simplified (SerializableCollection cs) = False"

fun simplified_top_track :: "thing \<Rightarrow> bool" where
  "simplified_top_track (Track a k cs) =
     (plain a \<and> list_all (\<lambda>c. simplified c \<and> \<not> is_Track c) cs
      \<and> \<not> (length cs = 1 \<and> is_Stack (cs ! 0)))"
| "simplified_top_track _ = False"

text \<open>The child of a synthetic track, or the thing itself.\<close>

definition unwrapped :: "thing \<Rightarrow> thing" where
  "unwrapped t = (if is_Track t \<and> length (children t) = 1 then children t ! 0 else t)"

text \<open>The timeline \<open>effect_on_stack\<close> without its effect, and its simplification.\<close>

definition plain_example :: thing where
  "plain_example = a_timeline [a_track [a_clip, a_stack [a_stack [a_clip], a_clip]]]"

definition plain_example_simplified :: thing where
  "plain_example_simplified =
     a_timeline [a_track [a_clip, a_stack [a_track [a_clip], a_track [a_clip]]]]"

section \<open>Precheck validator (aaf\_writer.py)\<close>

text \<open>
  The validator reads schema objects through attribute paths.  A Python value
  is \<open>None\<close>, a number, a string, a dictionary or an object with attributes
  and zero-argument methods; a method either returns a value or raises (the
  text of its exception is kept).
\<close>

datatype pyval =
    PyNone
  | PyFloat rat
  | PyStr string
  | PyDict "(string \<times> pyval) list"
  | PyObject "(string \<times> pyval) list" "(string \<times> (string + pyval)) list"

text \<open>\<open>getattr(v, name)\<close>, \<open>getattr(v, name)()\<close> and \<open>v[key]\<close>; \<open>Inl\<close> carries the exception text.\<close>

definition py_getattr :: "pyval \<Rightarrow> string \<Rightarrow> string + pyval" where
  "py_getattr v attr =
     (case v of
        PyObject attrs methods \<Rightarrow>
          (case map_of attrs attr of
             Some x \<Rightarrow> Inr x
           | None \<Rightarrow> Inl (''object has no attribute '' @ attr))
      | _ \<Rightarrow> Inl (''object has no attribute '' @ attr))"

definition py_call_method :: "pyval \<Rightarrow> string \<Rightarrow> string + pyval" where
  "py_call_method v meth =
     (case v of
        PyObject attrs methods \<Rightarrow>
          (case map_of methods meth of
             Some r \<Rightarrow> r
           | None \<Rightarrow> Inl (''object has no attribute '' @ meth))
      | _ \<Rightarrow> Inl (''object has no attribute '' @ meth))"

definition py_getitem :: "pyval \<Rightarrow> string \<Rightarrow> string + pyval" where
  "py_getitem v key =
     (case v of
        PyDict items \<Rightarrow>
          (case map_of items key of
             Some x \<Rightarrow> Inr x
           | None \<Rightarrow> Inl key)
      | _ \<Rightarrow> Inl ''object is not subscriptable'')"

text \<open>String helpers: \<open>re.split\<close> on a character class, \<open>endswith\<close>, \<open>replace(s, "")\<close>, \<open>strip\<close>, \<open>join\<close>.\<close>

fun split_any :: "char list \<Rightarrow> string \<Rightarrow> string list" where
  "split_any seps [] = [[]]"
| "split_any seps (x # xs) =
     (if x \<in> set seps then [] # split_any seps xs
      else (case split_any seps xs of
              [] \<Rightarrow> [[x]]
            | p # ps \<Rightarrow> (x # p) # ps))"

definition endswith :: "string \<Rightarrow> string \<Rightarrow> bool" where
  "endswith s suffix = (length suffix \<le> length s \<and> drop (length s - length suffix) s = suffix)"

fun remove_all :: "string \<Rightarrow> string \<Rightarrow> string" where
  "remove_all pat [] = []"
| "remove_all pat (x # xs) =
     (if pat \<noteq> [] \<and> take (length pat) (x # xs) = pat
      then remove_all pat (drop (length pat) (x # xs))
      else x # remove_all pat xs)"

definition strip :: "char list \<Rightarrow> string \<Rightarrow> string" where
  "strip cs s = rev (dropWhile (\<lambda>c. c \<in> set cs) (rev (dropWhile (\<lambda>c. c \<in> set cs) s)))"

fun join :: "string \<Rightarrow> string list \<Rightarrow> string" where
  "join sep [] = []"
| "join sep [x] = x"
| "join sep (x # y # ys) = x @ sep @ join sep (y # ys)"

text \<open>
  A schema object as the validator sees it: what \<open>isinstance\<close> answers (for
  a Clip, also the \<open>generator_kind\<close> when its media reference is a
  GeneratorReference), its name if it has one, its type as printed, and its
  attributes.
\<close>

datatype schema = IsGap | IsClip "string option" | IsTransition | IsOther

record orig_object =
  o_schema :: schema
  o_name :: "string option"
  o_type :: string
  o_type_name :: string
  o_value :: pyval

definition is_considered_gap :: "orig_object \<Rightarrow> py_error + bool" where
  "is_considered_gap thing =
     (case o_schema thing of
        IsGap \<Rightarrow> Inr True
      | IsClip (Some generator_kind) \<Rightarrow>
          if generator_kind = ''Slug'' then Inr True else Inl NotSupportedError
      | _ \<Rightarrow> Inr False)"

text \<open>The helper class \<open>__check\<close>: constructor and \<open>equals\<close>.\<close>

record check =
  c_orig :: orig_object
  c_value :: pyval
  c_errors :: "string list"
  c_tokenpath :: string

fun walk_tokens :: "pyval \<Rightarrow> string list \<Rightarrow> string + pyval" where
  "walk_tokens v [] = Inr v"
| "walk_tokens v (token # rest) =
     (case (if endswith token ''()'' then py_call_method v (remove_all ''()'' token)
            else if CHR '']'' \<in> set token
              then py_getitem v (strip [CHR ''['', CHR '']'', CHR 0x27, CHR 0x22] token)
            else py_getattr v token) of
        Inl e \<Rightarrow> Inl e
      | Inr v' \<Rightarrow> walk_tokens v' rest)"

definition name_prefix :: "orig_object \<Rightarrow> string" where
  "name_prefix orig = (case o_name orig of None \<Rightarrow> [] | Some n \<Rightarrow> n)"

definition check :: "orig_object \<Rightarrow> string \<Rightarrow> check" where
  "check obj tokenpath =
     (case walk_tokens (o_value obj) (split_any ''.['' tokenpath) of
        Inr v \<Rightarrow> \<lparr> c_orig = obj, c_value = v, c_errors = [], c_tokenpath = tokenpath \<rparr>
      | Inl e \<Rightarrow>
          \<lparr> c_orig = obj, c_value = PyNone,
            c_errors = [name_prefix obj @ o_type obj @ '' '' @ o_type_name obj @ ''.''
                          @ tokenpath @ '' does not exist, '' @ e],
            c_tokenpath = tokenpath \<rparr>)"

definition equals :: "(pyval \<Rightarrow> string) \<Rightarrow> check \<Rightarrow> pyval \<Rightarrow> check" where
  "equals py_str self val =
     (if c_value self \<noteq> PyNone \<and> c_value self \<noteq> val then
        self \<lparr> c_errors := c_errors self @
                 [name_prefix (c_orig self) @ o_type (c_orig self) @ '' ''
                    @ o_type_name (c_orig self) @ ''.'' @ c_tokenpath self
                    @ '' not equal to '' @ py_str val @ '' (expected) != ''
                    @ py_str (c_value self) @ '' (actual)''] \<rparr>
      else self)"

text \<open>The checks of one child, as the three \<open>if\<close> statements of the loop body assign them.\<close>

definition is_Clip_object :: "orig_object \<Rightarrow> bool" where
  "is_Clip_object child = (case o_schema child of IsClip g \<Rightarrow> True | _ \<Rightarrow> False)"

definition child_checks :: "(pyval \<Rightarrow> string) \<Rightarrow> pyval \<Rightarrow> orig_object \<Rightarrow> py_error + check list" where
  "child_checks py_str edit_rate child =
     (case is_considered_gap child of
        Inl e \<Rightarrow> Inl e
      | Inr considered_gap \<Rightarrow>
          (let checks0 = [];
               checks1 = (if considered_gap
                          then [equals py_str (check child ''duration().rate'') edit_rate]
                          else checks0);
               checks2 = (if is_Clip_object child
                          then [equals py_str (check child ''duration().rate'') edit_rate,
                                equals py_str
                                  (check child ''media_reference.available_range.duration.rate'')
                                  edit_rate,
                                equals py_str
                                  (check child ''media_reference.available_range.start_time.rate'')
                                  edit_rate]
                          else checks1);
               checks3 = (if o_schema child = IsTransition
                          then [equals py_str (check child ''duration().rate'') edit_rate,
                                check child ''metadata['AAF']['PointList']'',
                                check child
                                  ''metadata['AAF']['OperationGroup']['Operation']['DataDefinition']['Name']'',
                                check child
                                  ''metadata['AAF']['OperationGroup']['Operation']['Description']'',
                                check child
                                  ''metadata['AAF']['OperationGroup']['Operation']['Name']'',
                                check child ''metadata['AAF']['CutPoint']'']
                          else checks2)
           in Inr checks3))"

text \<open>The loop over \<open>timeline.find_children()\<close>, whose result is the list \<open>descendants\<close>.\<close>

fun extend_checks ::
  "(pyval \<Rightarrow> string) \<Rightarrow> pyval \<Rightarrow> check list \<Rightarrow> orig_object list \<Rightarrow> py_error + check list" where
  "extend_checks py_str edit_rate all_checks [] = Inr all_checks"
| "extend_checks py_str edit_rate all_checks (child # rest) =
     (case child_checks py_str edit_rate child of
        Inl e \<Rightarrow> Inl e
      | Inr checks \<Rightarrow> extend_checks py_str edit_rate (all_checks @ checks) rest)"

definition validate_metadata ::
  "(pyval \<Rightarrow> string) \<Rightarrow> orig_object \<Rightarrow> orig_object list \<Rightarrow> py_error + unit" where
  "validate_metadata py_str timeline descendants =
     (let all_checks = [check timeline ''duration().rate''];
          edit_rate = c_value (check timeline ''duration().rate'')
      in case extend_checks py_str edit_rate all_checks descendants of
           Inl e \<Rightarrow> Inl e
         | Inr all_checks \<Rightarrow>
             if list_ex (\<lambda>c. c_errors c \<noteq> []) all_checks then
               Inl (AAFValidationError
                     ([CHR 0x0A] @ join [CHR 0x0A] (concat (map c_errors all_checks))))
             else Inr ())"


text \<open>
  What the claim speaks of: the violations of one child and of the whole
  timeline, in traversal order; the non-empty lines of a message; and a child
  that \<open>_is_considered_gap\<close> does not reject as an unsupported generator.
\<close>

definition supported :: "orig_object \<Rightarrow> bool" where
  "supported child = (is_considered_gap child \<noteq> Inl NotSupportedError)"

definition child_violations :: "(pyval \<Rightarrow> string) \<Rightarrow> pyval \<Rightarrow> orig_object \<Rightarrow> string list" where
  "child_violations py_str edit_rate child =
     (case child_checks py_str edit_rate child of
        Inl e \<Rightarrow> []
      | Inr checks \<Rightarrow> concat (map c_errors checks))"

definition all_violations :: "(pyval \<Rightarrow> string) \<Rightarrow> orig_object \<Rightarrow> orig_object list \<Rightarrow> string list" where
  "all_violations py_str timeline descendants =
     c_errors (check timeline ''duration().rate'')
       @ concat (map (child_violations py_str (c_value (check timeline ''duration().rate'')))
                   descendants)"

definition message_lines :: "string \<Rightarrow> string list" where
  "message_lines msg = filter (\<lambda>l. l \<noteq> []) (split_any [CHR 0x0A] msg)"

definition one_line :: "string \<Rightarrow> bool" where
  "one_line e = (e \<noteq> [] \<and> CHR 0x0A \<notin> set e)"

subsection \<open>A timeline with four defects\<close>

definition show_pyval :: "pyval \<Rightarrow> string" where
  "show_pyval v =
     (case v of
        PyNone \<Rightarrow> ''None''
      | PyFloat r \<Rightarrow> str_int (floor r) @ ''.0''
      | PyStr s \<Rightarrow> s
      | _ \<Rightarrow> ''<object>'')"

definition with_rate :: "rat \<Rightarrow> pyval" where
  "with_rate r = PyObject [(''rate'', PyFloat r)] []"

definition range_at :: "rat \<Rightarrow> pyval" where
  "range_at r = PyObject [(''start_time'', with_rate r), (''duration'', with_rate r)] []"

definition timeline_24 :: orig_object where
  "timeline_24 =
     \<lparr> o_schema = IsOther, o_name = Some ''cut'', o_type = ''<class Timeline>'',
       o_type_name = ''Timeline'',
       o_value = PyObject [] [(''duration'', Inr (with_rate 24))] \<rparr>"

definition video_track :: orig_object where
  "video_track =
     \<lparr> o_schema = IsOther, o_name = Some ''V1'', o_type = ''<class Track>'',
       o_type_name = ''Track'',
       o_value = PyObject [] [(''duration'', Inr (with_rate 24))] \<rparr>"

definition good_gap :: orig_object where
  "good_gap =
     \<lparr> o_schema = IsGap, o_name = Some ''gap'', o_type = ''<class Gap>'',
       o_type_name = ''Gap'',
       o_value = PyObject [] [(''duration'', Inr (with_rate 24))] \<rparr>"

text \<open>A clip whose media reference has no available range: two failing paths.\<close>

definition clip_without_range :: orig_object where
  "clip_without_range =
     \<lparr> o_schema = IsClip None, o_name = Some ''A'', o_type = ''<class Clip>'',
       o_type_name = ''Clip'',
       o_value = PyObject [(''media_reference'', PyObject [(''available_range'', PyNone)] [])]
                          [(''duration'', Inr (with_rate 24))] \<rparr>"

text \<open>A clip at another rate: one mismatch.\<close>

definition clip_at_30 :: orig_object where
  "clip_at_30 =
     \<lparr> o_schema = IsClip None, o_name = Some ''B'', o_type = ''<class Clip>'',
       o_type_name = ''Clip'',
       o_value = PyObject [(''media_reference'', PyObject [(''available_range'', range_at 24)] [])]
                          [(''duration'', Inr (with_rate 30))] \<rparr>"

text \<open>A transition whose metadata lacks the CutPoint: one missing path.\<close>

definition transition_without_cutpoint :: orig_object where
  "transition_without_cutpoint =
     \<lparr> o_schema = IsTransition, o_name = Some ''X'', o_type = ''<class Transition>'',
       o_type_name = ''Transition'',
       o_value =
         PyObject
           [(''metadata'',
             PyDict [(''AAF'',
               PyDict [(''PointList'', PyDict []),
                       (''OperationGroup'',
                        PyDict [(''Operation'',
                          PyDict [(''DataDefinition'', PyDict [(''Name'', PyStr ''Picture'')]),
                                  (''Description'', PyStr []),
                                  (''Name'', PyStr ''VideoDissolve'')])])])])]
           [(''duration'', Inr (with_rate 24))] \<rparr>"

definition four_defects :: "orig_object list" where
  "four_defects =
     [video_track, clip_without_range, good_gap, clip_at_30, transition_without_cutpoint]"


text \<open>
  A clip without defect whose media reference is a generator of a kind other
  than Slug.
\<close>

definition generator_clip :: orig_object where
  "generator_clip =
     \<lparr> o_schema = IsClip (Some ''SMPTEBars''), o_name = Some ''bars'', o_type = ''<class Clip>'',
       o_type_name = ''Clip'',
       o_value = PyObject [(''media_reference'', PyObject [(''available_range'', range_at 24)] [])]
                          [(''duration'', Inr (with_rate 24))] \<rparr>"

section \<open>The AAF object graph\<close>

text \<open>
  The container library's objects, reduced to what \<open>_transcribe\<close> reads.
  Mobs are identified by their mob ID; a SourceClip holds the ID of the mob
  it refers to (or nothing), and the reference is resolved in the file's mob
  table, so that reference cycles can be written down.  \<open>aaf_props\<close> holds
  the properties common to several classes; a property an object does not
  have is \<open>None\<close>.
\<close>

type_synonym mob_id = string

record aaf_props =
  p_name :: "string option"
  p_class_name :: string
  p_length :: "int option"
  p_media_kind :: "string option"
  p_edit_rate :: "rat option"
  p_SlotID :: "int option"
  p_PhysicalTrackNumber :: "int option"
  p_UserComments :: "(string \<times> string) list"
  p_CutPoint :: "int option"

text \<open>The \<open>Operation\<close> and \<open>Parameters\<close> entries of an OperationGroup's transcribed properties.\<close>

record operation_metadata =
  op_Name :: "string option"
  op_IsTimeWarp :: bool
  op_Parameters :: "(string \<times> string) list"

record descriptive_marker =
  dm_Comment :: "string option"
  dm_DescribedSlots :: "int list option"
  dm_Position :: "int option"

datatype aaf =
    ContentStorage aaf_props "aaf list"
  | SourceMob aaf_props mob_id
  | MasterMob aaf_props mob_id "aaf list"
  | CompositionMob aaf_props mob_id "aaf list"
  | SourceClip aaf_props "mob_id option" int "int option"
  | AAFTransition aaf_props "aaf option"
  | Filler aaf_props
  | NestedScope aaf_props "aaf list"
  | Sequence aaf_props "aaf list"
  | OperationGroup aaf_props operation_group operation_metadata "aaf list"
  | TimelineMobSlot aaf_props aaf
  | EventMobSlot aaf_props aaf
  | StaticMobSlot aaf_props aaf
  | Timecode aaf_props "int option"
  | Pulldown aaf_props
  | EdgeCode aaf_props
  | ScopeReference aaf_props
  | DescriptiveMarker aaf_props descriptive_marker
  | Selector aaf_props aaf "aaf list option"
  | Iterable "aaf list"
  | Unknown

fun props_of :: "aaf \<Rightarrow> aaf_props option" where
  "props_of (ContentStorage p ms) = Some p"
| "props_of (SourceMob p i) = Some p"
| "props_of (MasterMob p i ss) = Some p"
| "props_of (CompositionMob p i ss) = Some p"
| "props_of (SourceClip p m s st) = Some p"
| "props_of (AAFTransition p g) = Some p"
| "props_of (Filler p) = Some p"
| "props_of (NestedScope p ss) = Some p"
| "props_of (Sequence p cs) = Some p"
| "props_of (OperationGroup p g m ss) = Some p"
| "props_of (TimelineMobSlot p s) = Some p"
| "props_of (EventMobSlot p s) = Some p"
| "props_of (StaticMobSlot p s) = Some p"
| "props_of (Timecode p st) = Some p"
| "props_of (Pulldown p) = Some p"
| "props_of (EdgeCode p) = Some p"
| "props_of (ScopeReference p) = Some p"
| "props_of (DescriptiveMarker p d) = Some p"
| "props_of (Selector p s a) = Some p"
| "props_of (Iterable xs) = None"
| "props_of Unknown = None"

text \<open>\<open>isinstance(item, aaf2.components.Component)\<close>.\<close>

fun is_Component :: "aaf \<Rightarrow> bool" where
  "is_Component (SourceClip p m s st) = True"
| "is_Component (AAFTransition p g) = True"
| "is_Component (Filler p) = True"
| "is_Component (NestedScope p ss) = True"
| "is_Component (Sequence p cs) = True"
| "is_Component (OperationGroup p g m ss) = True"
| "is_Component (Timecode p st) = True"
| "is_Component (Pulldown p) = True"
| "is_Component (EdgeCode p) = True"
| "is_Component (ScopeReference p) = True"
| "is_Component (DescriptiveMarker p d) = True"
| "is_Component (Selector p s a) = True"
| "is_Component _ = False"

fun is_TimelineMobSlot :: "aaf \<Rightarrow> bool" where
  "is_TimelineMobSlot (TimelineMobSlot p s) = True"
| "is_TimelineMobSlot _ = False"

fun is_EventMobSlot :: "aaf \<Rightarrow> bool" where
  "is_EventMobSlot (EventMobSlot p s) = True"
| "is_EventMobSlot _ = False"

fun is_Timecode :: "aaf \<Rightarrow> bool" where
  "is_Timecode (Timecode p st) = True"
| "is_Timecode _ = False"

fun mob_name :: "aaf \<Rightarrow> string option" where
  "mob_name (SourceMob p i) = p_name p"
| "mob_name (MasterMob p i ss) = p_name p"
| "mob_name (CompositionMob p i ss) = p_name p"
| "mob_name _ = None"

fun class_name_of :: "aaf \<Rightarrow> string" where
  "class_name_of (Iterable xs) = ''list''"
| "class_name_of Unknown = ''object''"
| "class_name_of item = (case props_of item of Some p \<Rightarrow> p_class_name p | None \<Rightarrow> [])"

section \<open>The reader (\_transcribe)\<close>

text \<open>
  What the reader takes from outside this model: the file's mob table; the
  built-in \<open>float\<close> on strings; and three parts of the source that read
  essence descriptors and time ranges through the libraries and call
  \<open>_transcribe\<close> no further: the track built for one TimelineMobSlot of a
  master mob (the body of the slot loop of \<open>_transcribe_master_mob\<close>), the
  marker pass run on a finished master-mob timeline, and the marker track copied
  next to the referenced slot of a composition mob.
\<close>

record reader_env =
  env_mobs :: "(mob_id \<times> aaf) list"
  env_float :: "string \<Rightarrow> rat option"
  env_master_slot_track :: "aaf \<Rightarrow> aaf \<Rightarrow> aaf_metadata \<Rightarrow> py_error + thing"
  env_attach_markers :: "thing \<Rightarrow> py_error + thing"
  env_marker_track :: "thing \<Rightarrow> int \<Rightarrow> thing \<Rightarrow> py_error + thing option"

text \<open>The cache \<open>_MOB_TIMELINE_CACHE\<close>.\<close>

type_synonym mob_cache = "mob_id \<rightharpoonup> thing"

text \<open>What \<open>_transcribe\<close> returns: \<open>None\<close>, a Marker, or a schema object.\<close>

datatype transcribed = ResNone | ResMarker marker | ResThing thing

text \<open>\<open>RationalTime(value, rate)\<close>; a \<open>None\<close> argument is a TypeError.\<close>

definition RationalTime :: "int option \<Rightarrow> rat option \<Rightarrow> py_error + rational_time" where
  "RationalTime v r =
     (case (v, r) of
        (Some v, Some r) \<Rightarrow> Inr \<lparr> rt_value = of_int v, rt_rate = r \<rparr>
      | _ \<Rightarrow> Inl TypeError)"

definition TimeRange :: "int option \<Rightarrow> int option \<Rightarrow> rat option \<Rightarrow> py_error + time_range" where
  "TimeRange start len r =
     (case RationalTime start r of
        Inl e \<Rightarrow> Inl e
      | Inr s \<Rightarrow>
          (case RationalTime len r of
             Inl e \<Rightarrow> Inl e
           | Inr d \<Rightarrow> Inr \<lparr> start_time = s, duration = d \<rparr>))"

definition get_name :: "reader_env \<Rightarrow> aaf \<Rightarrow> string" where
  "get_name env item =
     (case item of
        SourceClip p mob slot start \<Rightarrow>
          (case mob of
             None \<Rightarrow> ''SourceClip Missing Mob''
           | Some i \<Rightarrow>
               (case map_of (env_mobs env) i of
                  None \<Rightarrow> ''SourceClip Missing Mob''
                | Some m \<Rightarrow>
                    (case mob_name m of
                       None \<Rightarrow> ''Untitled SourceClip''
                     | Some n \<Rightarrow> if n = [] then ''Untitled SourceClip'' else n)))
      | _ \<Rightarrow>
          (case props_of item of
             None \<Rightarrow> class_name_of item
           | Some p \<Rightarrow>
               (case p_name p of
                  None \<Rightarrow> class_name_of item
                | Some n \<Rightarrow> if n = [] then class_name_of item else n)))"

text \<open>The metadata dictionary as the head of \<open>_transcribe\<close> fills it.\<close>

definition initial_metadata :: "reader_env \<Rightarrow> aaf \<Rightarrow> aaf_metadata" where
  "initial_metadata env item =
     (case props_of item of
        None \<Rightarrow> empty_metadata \<lparr> md_Name := Some (get_name env item) \<rparr>
      | Some p \<Rightarrow>
          \<lparr> md_Name = Some (get_name env item),
            md_ClassName = Some (p_class_name p),
            md_UserComments = p_UserComments p,
            md_MediaKind = p_media_kind p,
            md_SlotID = p_SlotID p,
            md_PhysicalTrackNumber = p_PhysicalTrackNumber p,
            md_AttachedSlotID = None,
            md_AttachedPhysicalTrackNumber = None,
            md_Length = (if is_Component item then p_length p else None),
            md_CutPoint = p_CutPoint p \<rparr>)"

definition inherited_edit_rate :: "aaf \<Rightarrow> rat option \<Rightarrow> rat option" where
  "inherited_edit_rate item edit_rate =
     (case props_of item of
        None \<Rightarrow> edit_rate
      | Some p \<Rightarrow> (case p_edit_rate p of None \<Rightarrow> edit_rate | Some r \<Rightarrow> Some r))"

text \<open>\<open>_add_child\<close>; \<open>append\<close> accepts composable objects only.\<close>

fun is_Composable :: "thing \<Rightarrow> bool" where
  "is_Composable (Timeline t s) = False"
| "is_Composable (SerializableCollection cs) = False"
| "is_Composable _ = True"

definition append_child :: "thing \<Rightarrow> thing \<Rightarrow> py_error + thing" where
  "append_child parent child =
     (case parent of
        Track a k cs \<Rightarrow> if is_Composable child then Inr (Track a k (cs @ [child])) else Inl TypeError
      | Stack a cs \<Rightarrow> if is_Composable child then Inr (Stack a (cs @ [child])) else Inl TypeError
      | SerializableCollection cs \<Rightarrow> Inr (SerializableCollection (cs @ [child]))
      | _ \<Rightarrow> Inl AttributeError)"

definition add_child :: "thing \<Rightarrow> transcribed \<Rightarrow> py_error + thing" where
  "add_child parent child =
     (case child of
        ResNone \<Rightarrow> Inr parent
      | ResMarker m \<Rightarrow>
          (case item_attrs_of parent of
             None \<Rightarrow> Inl AttributeError
           | Some a \<Rightarrow> Inr (map_item_attrs (\<lambda>a. a\<lparr>markers := markers a @ [m]\<rparr>) parent))
      | ResThing t \<Rightarrow> append_child parent t)"

text \<open>
  A loop \<open>for x in xs: child = _transcribe(x, ...); _add_child(result, child, x)\<close>,
  with the cache passed along; \<open>add\<close> is what the loop does with the child.
\<close>

fun transcribe_into ::
  "(mob_cache \<Rightarrow> aaf \<Rightarrow> py_error + transcribed \<times> mob_cache)
     \<Rightarrow> (thing \<Rightarrow> transcribed \<Rightarrow> py_error + thing) \<Rightarrow> thing \<Rightarrow> mob_cache \<Rightarrow> aaf list
     \<Rightarrow> py_error + thing \<times> mob_cache" where
  "transcribe_into tr add parent cache [] = Inr (parent, cache)"
| "transcribe_into tr add parent cache (x # xs) =
     (case tr cache x of
        Inl e \<Rightarrow> Inl e
      | Inr (child, cache') \<Rightarrow>
          (case add parent child of
             Inl e \<Rightarrow> Inl e
           | Inr parent' \<Rightarrow> transcribe_into tr add parent' cache' xs))"

text \<open>A list comprehension \<open>[_transcribe(x, ...) for x in xs]\<close>.\<close>

fun transcribe_each ::
  "(mob_cache \<Rightarrow> aaf \<Rightarrow> py_error + transcribed \<times> mob_cache) \<Rightarrow> mob_cache \<Rightarrow> aaf list
     \<Rightarrow> py_error + transcribed list \<times> mob_cache" where
  "transcribe_each tr cache [] = Inr ([], cache)"
| "transcribe_each tr cache (x # xs) =
     (case tr cache x of
        Inl e \<Rightarrow> Inl e
      | Inr (r, cache') \<Rightarrow>
          (case transcribe_each tr cache' xs of
             Inl e \<Rightarrow> Inl e
           | Inr (rs, cache'') \<Rightarrow> Inr (r # rs, cache'')))"

text \<open>\<open>_get_mob_start_tc\<close> with \<open>_resolve_slot_components\<close> and \<open>_resolve_single_slot_component\<close>.\<close>

fun slots_of :: "aaf \<Rightarrow> aaf list" where
  "slots_of (MasterMob p i ss) = ss"
| "slots_of (CompositionMob p i ss) = ss"
| "slots_of (NestedScope p ss) = ss"
| "slots_of _ = []"

fun segment_of :: "aaf \<Rightarrow> aaf option" where
  "segment_of (TimelineMobSlot p s) = Some s"
| "segment_of (EventMobSlot p s) = Some s"
| "segment_of (StaticMobSlot p s) = Some s"
| "segment_of _ = None"

definition resolve_slot_components :: "aaf \<Rightarrow> aaf list" where
  "resolve_slot_components slot =
     (case segment_of slot of
        None \<Rightarrow> []
      | Some (Sequence p cs) \<Rightarrow> cs
      | Some segment \<Rightarrow> [segment])"

definition resolve_single_slot_component :: "aaf \<Rightarrow> (aaf \<Rightarrow> bool) \<Rightarrow> aaf option" where
  "resolve_single_slot_component slot component_type =
     find component_type (resolve_slot_components slot)"

definition physical_track_number :: "aaf \<Rightarrow> int option" where
  "physical_track_number slot =
     (case props_of slot of None \<Rightarrow> None | Some p \<Rightarrow> p_PhysicalTrackNumber p)"

definition get_mob_start_tc :: "aaf \<Rightarrow> py_error + time_range option" where
  "get_mob_start_tc mob =
     (case find (\<lambda>slot. resolve_single_slot_component slot is_Timecode \<noteq> None
                        \<and> physical_track_number slot = Some 1) (slots_of mob) of
        None \<Rightarrow> Inr None
      | Some tc_slot \<Rightarrow>
          (case resolve_single_slot_component tc_slot is_Timecode of
             Some (Timecode p start) \<Rightarrow>
               (case TimeRange start (p_length p) (inherited_edit_rate tc_slot None) of
                  Inl e \<Rightarrow> Inl e
                | Inr r \<Rightarrow> Inr (Some r))
           | _ \<Rightarrow> Inr None))"

definition or_empty :: "string option \<Rightarrow> string" where
  "or_empty s = (case s of None \<Rightarrow> [] | Some n \<Rightarrow> n)"

text \<open>Setters on schema objects.\<close>

fun set_name :: "string \<Rightarrow> thing \<Rightarrow> thing" where
  "set_name n (Transition t) = Transition (t\<lparr>tr_name := n\<rparr>)"
| "set_name n (Timeline t s) = Timeline (t\<lparr>tl_name := n\<rparr>) s"
| "set_name n (SerializableCollection cs) = SerializableCollection cs"
| "set_name n t = map_item_attrs (\<lambda>a. a\<lparr>name := n\<rparr>) t"

fun set_metadata :: "aaf_metadata \<Rightarrow> thing \<Rightarrow> thing" where
  "set_metadata m (Transition t) = Transition (t\<lparr>tr_metadata := Some m\<rparr>)"
| "set_metadata m (Timeline t s) = Timeline (t\<lparr>tl_metadata := Some m\<rparr>) s"
| "set_metadata m (SerializableCollection cs) = SerializableCollection cs"
| "set_metadata m t = map_item_attrs (\<lambda>a. a\<lparr>metadata := Some m\<rparr>) t"

definition set_source_range :: "time_range \<Rightarrow> thing \<Rightarrow> py_error + thing" where
  "set_source_range r t =
     (if is_Item t then Inr (map_item_attrs (\<lambda>a. a\<lparr>source_range := Some r\<rparr>) t)
      else Inl AttributeError)"

definition set_enabled :: "bool \<Rightarrow> transcribed \<Rightarrow> py_error + transcribed" where
  "set_enabled b result =
     (case result of
        ResThing t \<Rightarrow>
          if is_Item t then Inr (ResThing (map_item_attrs (\<lambda>a. a\<lparr>enabled := b\<rparr>) t))
          else Inl AttributeError
      | _ \<Rightarrow> Inl AttributeError)"

text \<open>
  The end of \<open>_transcribe\<close>: the name is filled in from the metadata, the
  metadata are attached under the key \<open>AAF\<close> unless the key is there, the
  duration of an Item is compared with the declared length, and a Track takes
  its kind from the item's media kind.
\<close>

definition wrong_duration :: "aaf_metadata \<Rightarrow> thing \<Rightarrow> bool" where
  "wrong_duration meta t =
     (case (md_Length meta, item_attrs_of t) of
        (Some len, Some a) \<Rightarrow>
          (case source_range a of
             None \<Rightarrow> False
           | Some r \<Rightarrow> len \<noteq> 0 \<and> rt_value (duration r) \<noteq> of_int len)
      | _ \<Rightarrow> False)"

definition set_track_kind :: "aaf \<Rightarrow> thing \<Rightarrow> thing" where
  "set_track_kind item t =
     (case t of
        Track a k cs \<Rightarrow>
          (case props_of item of
             None \<Rightarrow> t
           | Some p \<Rightarrow>
               (case p_media_kind p of
                  None \<Rightarrow> t
                | Some mk \<Rightarrow> Track a (transcribe_media_kind mk) cs))
      | _ \<Rightarrow> t)"

definition finish :: "aaf \<Rightarrow> aaf_metadata \<Rightarrow> transcribed \<Rightarrow> py_error + transcribed" where
  "finish item meta result =
     (case result of
        ResNone \<Rightarrow> Inr ResNone
      | ResMarker m \<Rightarrow>
          Inr (ResMarker
                (m\<lparr>mk_name := (if mk_name m = [] then or_empty (md_Name meta)
                                else mk_name m),
                   mk_metadata := (case mk_metadata m of
                                     None \<Rightarrow> Some meta
                                   | Some x \<Rightarrow> Some x)\<rparr>))
      | ResThing t \<Rightarrow>
          (let named = (if name_of t = [] then set_name (or_empty (md_Name meta)) t
                        else t);
               tagged = (if metadata_of named = None then set_metadata meta named else named)
           in if wrong_duration meta tagged
              then Inl (AAFAdapterError ''Wrong duration?'')
              else Inr (ResThing (set_track_kind item tagged))))"

text \<open>
  \<open>_transcribe_operation_group\<close>: a Stack named after the operation, as long
  as the AAF says, with one effect; a child that is an empty composition is
  not added (\<open>if child:\<close>).
\<close>

definition operation_effect ::
  "reader_env \<Rightarrow> operation_group \<Rightarrow> operation_metadata \<Rightarrow> py_error + effect" where
  "operation_effect env item operation =
     (case (if op_IsTimeWarp operation then
              (if op_Name operation = Some ''Motion Control'' then
                 (if get_parameter item ''SpeedRatio'' \<noteq> None
                  then transcribe_linear_timewarp (env_float env) item (map_of (op_Parameters operation))
                  else Inr (transcribe_fancy_timewarp item (map_of (op_Parameters operation))))
               else Inr (new_TimeEffect \<lparr> eff_name := or_empty (op_Name operation) \<rparr>))
            else Inr (new_Effect \<lparr> eff_name := or_empty (op_Name operation) \<rparr>)) of
        Inl e \<Rightarrow> Inl e
      | Inr effect \<Rightarrow> Inr (effect \<lparr> eff_is_time_warp := op_IsTimeWarp operation \<rparr>))"

definition is_truthy :: "transcribed \<Rightarrow> bool" where
  "is_truthy child =
     (case child of
        ResNone \<Rightarrow> False
      | ResMarker m \<Rightarrow> True
      | ResThing t \<Rightarrow> \<not> ((is_Composition t \<or> (case t of SerializableCollection cs \<Rightarrow> True | _ \<Rightarrow> False))
                          \<and> children t = []))"

definition add_truthy_child :: "thing \<Rightarrow> transcribed \<Rightarrow> py_error + thing" where
  "add_truthy_child parent child = (if is_truthy child then add_child parent child else Inr parent)"

definition transcribe_operation_group ::
  "reader_env \<Rightarrow> (mob_cache \<Rightarrow> aaf \<Rightarrow> py_error + transcribed \<times> mob_cache) \<Rightarrow> mob_cache
     \<Rightarrow> operation_group \<Rightarrow> operation_metadata \<Rightarrow> aaf list \<Rightarrow> aaf_metadata \<Rightarrow> rat option
     \<Rightarrow> py_error + thing \<times> mob_cache" where
  "transcribe_operation_group env tr cache item operation input_segments meta edit_rate =
     (case TimeRange (Some 0) (md_Length meta) edit_rate of
        Inl e \<Rightarrow> Inl e
      | Inr r \<Rightarrow>
          (case operation_effect env item operation of
             Inl e \<Rightarrow> Inl e
           | Inr effect \<Rightarrow>
               transcribe_into tr add_truthy_child
                 (Stack (new_item \<lparr> name := or_empty (op_Name operation),
                                    source_range := Some r,
                                    effects := [effect] \<rparr>) [])
                 cache input_segments))"

text \<open>The slot loop of \<open>_transcribe_master_mob\<close>.\<close>

fun master_mob_slots ::
  "reader_env \<Rightarrow> (mob_cache \<Rightarrow> aaf \<Rightarrow> rat option \<Rightarrow> py_error + transcribed \<times> mob_cache)
     \<Rightarrow> aaf \<Rightarrow> aaf_metadata \<Rightarrow> thing list \<Rightarrow> mob_cache \<Rightarrow> aaf list
     \<Rightarrow> py_error + thing list \<times> mob_cache" where
  "master_mob_slots env tr mob meta tracks cache [] = Inr (tracks, cache)"
| "master_mob_slots env tr mob meta tracks cache (slot # rest) =
     (case inherited_edit_rate slot None of
        None \<Rightarrow> Inl AttributeError
      | Some edit_rate \<Rightarrow>
          if is_EventMobSlot slot then
            (case tr cache slot (Some edit_rate) of
               Inl e \<Rightarrow> Inl e
             | Inr (ResThing slot_track, cache') \<Rightarrow>
                 if is_Composable slot_track
                 then master_mob_slots env tr mob meta (tracks @ [slot_track]) cache' rest
                 else Inl TypeError
             | Inr _ \<Rightarrow> Inl TypeError)
          else if \<not> is_TimelineMobSlot slot then
            master_mob_slots env tr mob meta tracks cache rest
          else
            (case env_master_slot_track env mob slot meta of
               Inl e \<Rightarrow> Inl e
             | Inr slot_track \<Rightarrow>
                 master_mob_slots env tr mob meta (tracks @ [slot_track]) cache rest))"

definition transcribe_master_mob ::
  "reader_env \<Rightarrow> (mob_cache \<Rightarrow> aaf \<Rightarrow> rat option \<Rightarrow> py_error + transcribed \<times> mob_cache)
     \<Rightarrow> mob_cache \<Rightarrow> aaf \<Rightarrow> aaf_metadata \<Rightarrow> py_error + thing \<times> mob_cache" where
  "transcribe_master_mob env tr cache mob meta =
     (case master_mob_slots env tr mob meta [] cache (slots_of mob) of
        Inl e \<Rightarrow> Inl e
      | Inr (tracks, cache') \<Rightarrow>
          (case env_attach_markers env
                  (Timeline \<lparr> tl_name = or_empty (mob_name mob), tl_metadata = None,
                              global_start_time = None \<rparr>
                            (Stack new_item tracks)) of
             Inl e \<Rightarrow> Inl e
           | Inr mob_timeline \<Rightarrow> Inr (mob_timeline, cache')))"

text \<open>
  The SourceClip branch once the referenced mob has been transcribed:
  \<open>mob_timeline\<close> is the timeline of a Master or Composition mob, if the
  reference resolved to one.
\<close>

fun timeline_tracks :: "thing \<Rightarrow> py_error + thing list" where
  "timeline_tracks (Timeline ta (Stack sa tracks)) = Inr tracks"
| "timeline_tracks (Timeline ta t) = Inr (children t)"
| "timeline_tracks _ = Inl AttributeError"

definition slot_id_of :: "thing \<Rightarrow> int option" where
  "slot_id_of track = (case metadata_of track of None \<Rightarrow> None | Some m \<Rightarrow> md_SlotID m)"

fun is_CompositionMob :: "aaf \<Rightarrow> bool" where
  "is_CompositionMob (CompositionMob p i ss) = True"
| "is_CompositionMob _ = False"

fun is_MasterMob :: "aaf \<Rightarrow> bool" where
  "is_MasterMob (MasterMob p i ss) = True"
| "is_MasterMob _ = False"

definition source_clip_result ::
  "reader_env \<Rightarrow> aaf_props \<Rightarrow> int \<Rightarrow> aaf option \<Rightarrow> thing option \<Rightarrow> time_range \<Rightarrow> time_range
     \<Rightarrow> py_error + thing" where
  "source_clip_result env p slot_id mob mob_timeline src_range gap_range =
     (case (case mob_timeline of
              None \<Rightarrow> Inr None
            | Some mtl \<Rightarrow>
                (case timeline_tracks mtl of
                   Inl e \<Rightarrow> Inl e
                 | Inr tracks \<Rightarrow> Inr (find (\<lambda>track. slot_id_of track = Some slot_id) tracks))) of
        Inl e \<Rightarrow> Inl e
      | Inr slot_track \<Rightarrow>
          (case (mob, mob_timeline, slot_track) of
             (Some m, Some mtl, Some st) \<Rightarrow>
               if is_CompositionMob m then
                 (if \<not> is_Track st then Inl AssertionError
                  else
                    (case metadata_of mtl of
                       None \<Rightarrow> Inl KeyError
                     | Some tm \<Rightarrow>
                         (case env_marker_track env mtl slot_id st of
                            Inl e \<Rightarrow> Inl e
                          | Inr marker_track \<Rightarrow>
                              Inr (Stack (new_item
                                     \<lparr> name := name_of mtl,
                                       metadata := Some (tm \<lparr> md_MediaKind := p_media_kind p \<rparr>),
                                       source_range := Some src_range \<rparr>)
                                    (st # (case marker_track of None \<Rightarrow> [] | Some mt \<Rightarrow> [mt]))))))
               else set_source_range src_range st
           | _ \<Rightarrow> Inr (Gap (new_item \<lparr> source_range := Some gap_range \<rparr>))))"

text \<open>The Transition branch after its OperationGroup has been transcribed.\<close>

fun is_VaryingValue :: "parameter \<Rightarrow> bool" where
  "is_VaryingValue (VaryingValue points) = True"
| "is_VaryingValue ConstantValue = False"

definition transition_point_list :: "aaf option \<Rightarrow> py_error + control_point list" where
  "transition_point_list op_group_item =
     (case op_group_item of
        Some (OperationGroup p g m ss) \<Rightarrow>
          (case find is_VaryingValue (map snd (og_parameters g)) of
             Some (VaryingValue None) \<Rightarrow> Inl TypeError
           | Some (VaryingValue (Some points)) \<Rightarrow> Inr points
           | _ \<Rightarrow> Inr [])
      | _ \<Rightarrow> Inl AttributeError)"

definition transition_result ::
  "aaf_props \<Rightarrow> aaf option \<Rightarrow> aaf_metadata \<Rightarrow> rat option \<Rightarrow> py_error + thing" where
  "transition_result p op_group_item meta edit_rate =
     (case transition_point_list op_group_item of
        Inl e \<Rightarrow> Inl e
      | Inr points \<Rightarrow>
          (let in_offset = (case md_CutPoint meta of None \<Rightarrow> 0 | Some c \<Rightarrow> c)
           in case p_length p of
                None \<Rightarrow> Inl TypeError
              | Some len \<Rightarrow>
                  (let out_offset = len - in_offset
                   in case RationalTime (Some in_offset) edit_rate of
                        Inl e \<Rightarrow> Inl e
                      | Inr i \<Rightarrow>
                          (case RationalTime (Some out_offset) edit_rate of
                             Inl e \<Rightarrow> Inl e
                           | Inr out \<Rightarrow>
                               Inr (Transition \<lparr> tr_name = [], tr_metadata = None,
                                                 in_offset = i, out_offset = out \<rparr>)))))"

definition has_effects_attribute :: "transcribed \<Rightarrow> bool" where
  "has_effects_attribute r = (case r of ResThing t \<Rightarrow> is_Item t | _ \<Rightarrow> False)"

text \<open>The DescriptiveMarker branch.\<close>

definition marker_result ::
  "descriptive_marker \<Rightarrow> aaf list \<Rightarrow> aaf_metadata \<Rightarrow> rat option
     \<Rightarrow> py_error + transcribed \<times> aaf_metadata" where
  "marker_result d parents meta edit_rate =
     (case filter is_EventMobSlot parents of
        [] \<Rightarrow> Inr (ResNone, meta)
      | e # es \<Rightarrow>
          (case dm_Comment d of
             None \<Rightarrow> Inl KeyError
           | Some comment \<Rightarrow>
               (case dm_DescribedSlots d of
                  None \<Rightarrow> Inl KeyError
                | Some [] \<Rightarrow> Inl IndexError
                | Some (slot # slots) \<Rightarrow>
                    (case physical_track_number (last (e # es)) of
                       None \<Rightarrow> Inl TypeError
                     | Some track_number \<Rightarrow>
                         (case TimeRange (dm_Position d)
                                 (case md_Length meta of None \<Rightarrow> Some 1 | Some l \<Rightarrow> Some l)
                                 edit_rate of
                            Inl e \<Rightarrow> Inl e
                          | Inr r \<Rightarrow>
                              Inr (ResMarker \<lparr> mk_name = comment, mk_marked_range = r,
                                               mk_metadata = None \<rparr>,
                                   meta \<lparr> md_AttachedSlotID := Some slot,
                                              md_AttachedPhysicalTrackNumber := Some track_number \<rparr>))))))"

text \<open>The Sequence branch: the keys added to the metadata of a nested Sequence.\<close>

fun is_Sequence_or_NestedScope :: "aaf \<Rightarrow> bool" where
  "is_Sequence_or_NestedScope (Sequence p cs) = True"
| "is_Sequence_or_NestedScope (NestedScope p ss) = True"
| "is_Sequence_or_NestedScope _ = False"

fun index_of :: "'a \<Rightarrow> 'a list \<Rightarrow> nat option" where
  "index_of x [] = None"
| "index_of x (y # ys) = (if x = y then Some 0 else map_option Suc (index_of x ys))"

definition sequence_metadata :: "aaf \<Rightarrow> aaf list \<Rightarrow> aaf_metadata \<Rightarrow> py_error + aaf_metadata" where
  "sequence_metadata item parents meta =
     (if parents = [] then Inl IndexError
      else if \<not> is_Sequence_or_NestedScope (last parents) then Inr meta
      else
        (case filter is_TimelineMobSlot parents of
           [] \<Rightarrow> Inl IndexError
         | s # ss \<Rightarrow>
             (case (case last parents of
                      NestedScope p slots \<Rightarrow>
                        (case index_of item slots of
                           None \<Rightarrow> Inl ValueError
                         | Some i \<Rightarrow> Inr (meta \<lparr> md_PhysicalTrackNumber := Some (int i + 1) \<rparr>))
                    | _ \<Rightarrow> Inr meta) of
                Inl e \<Rightarrow> Inl e
              | Inr meta' \<Rightarrow>
                  (case props_of (last (s # ss)) of
                     None \<Rightarrow> Inl KeyError
                   | Some tp \<Rightarrow>
                       (case p_SlotID tp of
                          None \<Rightarrow> Inl KeyError
                        | Some i \<Rightarrow> Inr (meta' \<lparr> md_SlotID := Some i \<rparr>))))))"

text \<open>The Iterable branch appends whatever \<open>_transcribe\<close> returned.\<close>

definition append_result :: "thing \<Rightarrow> transcribed \<Rightarrow> py_error + thing" where
  "append_result parent child =
     (case child of ResThing t \<Rightarrow> append_child parent t | _ \<Rightarrow> Inl TypeError)"

fun is_Filler_or_ScopeReference :: "aaf \<Rightarrow> bool" where
  "is_Filler_or_ScopeReference (Filler p) = True"
| "is_Filler_or_ScopeReference (ScopeReference p) = True"
| "is_Filler_or_ScopeReference _ = False"

definition is_Gap_result :: "transcribed \<Rightarrow> bool" where
  "is_Gap_result r = (case r of ResThing t \<Rightarrow> is_Gap t | _ \<Rightarrow> False)"

text \<open>
  The cached object and the object returned are one: what the end of
  \<open>_transcribe\<close> writes on the result of a mob (name, metadata) is seen
  through the cache as well.
\<close>

definition cache_sees :: "aaf \<Rightarrow> transcribed \<Rightarrow> mob_cache \<Rightarrow> mob_cache" where
  "cache_sees item finished cache =
     (case (item, finished) of
        (MasterMob p mob_id slots, ResThing t) \<Rightarrow> cache(mob_id \<mapsto> t)
      | (CompositionMob p mob_id slots, ResThing t) \<Rightarrow> cache(mob_id \<mapsto> t)
      | _ \<Rightarrow> cache)"

text \<open>
  \<open>_transcribe\<close>.  The first argument bounds the depth of the recursion, as
  the interpreter's recursion limit does: beyond it the call raises
  RecursionError.
\<close>

fun transcribe ::
  "nat \<Rightarrow> reader_env \<Rightarrow> mob_cache \<Rightarrow> aaf \<Rightarrow> aaf list \<Rightarrow> rat option
     \<Rightarrow> py_error + transcribed \<times> mob_cache" where
  "transcribe 0 env cache item parents edit_rate = Inl RecursionError"
| "transcribe (Suc depth) env cache item parents edit_rate =
     (let metadata = initial_metadata env item;
          edit_rate = inherited_edit_rate item edit_rate;
          below = (\<lambda>c x. transcribe depth env c x (parents @ [item]) edit_rate)
      in case
        (case item of
           ContentStorage p mobs \<Rightarrow>
             (case transcribe_into below add_child (SerializableCollection []) cache mobs of
                Inl e \<Rightarrow> Inl e
              | Inr (result, cache') \<Rightarrow> Inr (ResThing result, metadata, cache'))
         | SourceMob p mob_id \<Rightarrow>
             Inl (AAFAdapterError ''AAF parsing error: unexpected SourceMob'')
         | MasterMob p mob_id slots \<Rightarrow>
             (case cache mob_id of
                Some result \<Rightarrow> Inr (ResThing result, metadata, cache)
              | None \<Rightarrow>
                  (case transcribe_master_mob env
                          (\<lambda>c x r. transcribe depth env c x (parents @ [item]) r)
                          cache item metadata of
                     Inl e \<Rightarrow> Inl e
                   | Inr (result, cache') \<Rightarrow>
                       Inr (ResThing result, metadata, cache'(mob_id \<mapsto> result))))
         | CompositionMob p mob_id slots \<Rightarrow>
             (case cache mob_id of
                Some result \<Rightarrow> Inr (ResThing result, metadata, cache)
              | None \<Rightarrow>
                  (case transcribe_into below add_child (Stack new_item []) cache slots of
                     Inl e \<Rightarrow> Inl e
                   | Inr (tracks, cache') \<Rightarrow>
                       (case get_mob_start_tc item of
                          Inl e \<Rightarrow> Inl e
                        | Inr timecode \<Rightarrow>
                            (let result =
                                   Timeline \<lparr> tl_name = [], tl_metadata = None,
                                              global_start_time = map_option start_time timecode \<rparr>
                                            tracks
                             in Inr (ResThing result, metadata, cache'(mob_id \<mapsto> result))))))
         | SourceClip p mob_ref slot_id start \<Rightarrow>
             (case TimeRange start (p_length p) edit_rate of
                Inl e \<Rightarrow> Inl e
              | Inr src_range \<Rightarrow>
                  (case TimeRange (Some 0) (p_length p) edit_rate of
                     Inl e \<Rightarrow> Inl e
                   | Inr gap_range \<Rightarrow>
                       (let mob = (case mob_ref of
                                     None \<Rightarrow> None
                                   | Some i \<Rightarrow> map_of (env_mobs env) i)
                        in case (case mob of
                                   None \<Rightarrow> Inr (None, cache)
                                 | Some m \<Rightarrow>
                                     if is_MasterMob m \<or> is_CompositionMob m then
                                       (case transcribe depth env cache m [] edit_rate of
                                          Inl e \<Rightarrow> Inl e
                                        | Inr (ResThing mtl, cache') \<Rightarrow> Inr (Some mtl, cache')
                                        | Inr (_, cache') \<Rightarrow> Inl AttributeError)
                                     else Inr (None, cache)) of
                             Inl e \<Rightarrow> Inl e
                           | Inr (mob_timeline, cache') \<Rightarrow>
                               (case source_clip_result env p slot_id mob mob_timeline
                                       src_range gap_range of
                                  Inl e \<Rightarrow> Inl e
                                | Inr result \<Rightarrow> Inr (ResThing result, metadata, cache')))))
         | AAFTransition p op_group_item \<Rightarrow>
             (case (case op_group_item of
                      None \<Rightarrow> Inr cache
                    | Some g \<Rightarrow>
                        (case below cache g of
                           Inl e \<Rightarrow> Inl e
                         | Inr (op_group, cache') \<Rightarrow>
                             if has_effects_attribute op_group then Inr cache'
                             else Inl AttributeError)) of
                Inl e \<Rightarrow> Inl e
              | Inr cache' \<Rightarrow>
                  (case transition_result p op_group_item metadata edit_rate of
                     Inl e \<Rightarrow> Inl e
                   | Inr result \<Rightarrow> Inr (ResThing result, metadata, cache')))
         | Filler p \<Rightarrow>
             (case TimeRange (Some 0) (p_length p) edit_rate of
                Inl e \<Rightarrow> Inl e
              | Inr r \<Rightarrow>
                  Inr (ResThing (Gap (new_item \<lparr> source_range := Some r \<rparr>)), metadata, cache))
         | NestedScope p slots \<Rightarrow>
             (case transcribe_into below add_child (Stack new_item []) cache slots of
                Inl e \<Rightarrow> Inl e
              | Inr (result, cache') \<Rightarrow> Inr (ResThing result, metadata, cache'))
         | Sequence p components \<Rightarrow>
             (case sequence_metadata item parents metadata of
                Inl e \<Rightarrow> Inl e
              | Inr metadata' \<Rightarrow>
                  (case transcribe_into below add_child (Track new_item ''Video'' []) cache
                          components of
                     Inl e \<Rightarrow> Inl e
                   | Inr (result, cache') \<Rightarrow> Inr (ResThing result, metadata', cache')))
         | OperationGroup p g operation input_segments \<Rightarrow>
             (case transcribe_operation_group env below cache g operation input_segments
                     metadata edit_rate of
                Inl e \<Rightarrow> Inl e
              | Inr (result, cache') \<Rightarrow> Inr (ResThing result, metadata, cache'))
         | TimelineMobSlot p segment \<Rightarrow>
             (case transcribe_into below add_child (Track new_item ''Video'' []) cache [segment] of
                Inl e \<Rightarrow> Inl e
              | Inr (result, cache') \<Rightarrow> Inr (ResThing result, metadata, cache'))
         | EventMobSlot p segment \<Rightarrow>
             (case transcribe_into below add_child (Track new_item ''Video'' []) cache [segment] of
                Inl e \<Rightarrow> Inl e
              | Inr (result, cache') \<Rightarrow> Inr (ResThing result, metadata, cache'))
         | StaticMobSlot p segment \<Rightarrow>
             (case transcribe_into below add_child (Track new_item ''Video'' []) cache [segment] of
                Inl e \<Rightarrow> Inl e
              | Inr (result, cache') \<Rightarrow> Inr (ResThing result, metadata, cache'))
         | Timecode p start \<Rightarrow> Inr (ResNone, metadata, cache)
         | Pulldown p \<Rightarrow> Inr (ResNone, metadata, cache)
         | EdgeCode p \<Rightarrow> Inr (ResNone, metadata, cache)
         | ScopeReference p \<Rightarrow>
             (case TimeRange (Some 0) (p_length p) edit_rate of
                Inl e \<Rightarrow> Inl e
              | Inr r \<Rightarrow>
                  Inr (ResThing (Gap (new_item \<lparr> source_range := Some r \<rparr>)), metadata, cache))
         | DescriptiveMarker p d \<Rightarrow>
             (case marker_result d parents metadata edit_rate of
                Inl e \<Rightarrow> Inl e
              | Inr (result, metadata') \<Rightarrow> Inr (result, metadata', cache))
         | Selector p selected alternates \<Rightarrow>
             if is_Filler_or_ScopeReference selected then
               (case alternates of
                  None \<Rightarrow> Inl TypeError
                | Some alts \<Rightarrow>
                    if length alts \<noteq> 1 then
                      Inl (AAFAdapterError
                            (''AAF Selector parsing error: object has unexpected number of ''
                               @ ''alternates - '' @ str_int (int (length alts))))
                    else
                      (case below cache (alts ! 0) of
                         Inl e \<Rightarrow> Inl e
                       | Inr (result, cache') \<Rightarrow>
                           (case set_enabled False result of
                              Inl e \<Rightarrow> Inl e
                            | Inr disabled \<Rightarrow> Inr (disabled, metadata, cache'))))
             else
               (case below cache selected of
                  Inl e \<Rightarrow> Inl e
                | Inr (result, cache') \<Rightarrow>
                    if is_Gap_result result then
                      Inl (AAFAdapterError ''AAF Selector parsing error'')
                    else
                      (case alternates of
                         None \<Rightarrow> Inr (result, metadata, cache')
                       | Some alts \<Rightarrow>
                           (case transcribe_each below cache' alts of
                              Inl e \<Rightarrow> Inl e
                            | Inr (transcribed_alts, cache'') \<Rightarrow> Inr (result, metadata, cache''))))
         | Iterable members \<Rightarrow>
             (case transcribe_into below append_result (SerializableCollection []) cache members of
                Inl e \<Rightarrow> Inl e
              | Inr (result, cache') \<Rightarrow> Inr (ResThing result, metadata, cache'))
         | Unknown \<Rightarrow> Inr (ResNone, metadata, cache))
      of
        Inl e \<Rightarrow> Inl e
      | Inr (result, metadata', cache') \<Rightarrow>
          (case finish item metadata' result of
             Inl e \<Rightarrow> Inl e
           | Inr finished \<Rightarrow> Inr (finished, cache_sees item finished cache')))"

subsection \<open>Example graphs\<close>

definition no_props :: "string \<Rightarrow> aaf_props" where
  "no_props class_name =
     \<lparr> p_name = None, p_class_name = class_name, p_length = None, p_media_kind = None,
       p_edit_rate = None, p_SlotID = None, p_PhysicalTrackNumber = None,
       p_UserComments = [], p_CutPoint = None \<rparr>"

definition component_props :: "string \<Rightarrow> int \<Rightarrow> aaf_props" where
  "component_props class_name len =
     (no_props class_name) \<lparr> p_length := Some len, p_media_kind := Some ''Picture'' \<rparr>"

definition slot_props :: "int \<Rightarrow> aaf_props" where
  "slot_props slot_id =
     (no_props ''TimelineMobSlot'')
       \<lparr> p_edit_rate := Some 24, p_SlotID := Some slot_id, p_PhysicalTrackNumber := Some 1 \<rparr>"

text \<open>
  An environment for the examples: the track of a master-mob slot is a track
  with the slot's ID holding one clip; markers are left where they are.
\<close>

definition example_env :: "(mob_id \<times> aaf) list \<Rightarrow> reader_env" where
  "example_env mobs =
     \<lparr> env_mobs = mobs,
       env_float = digit_float,
       env_master_slot_track =
         (\<lambda>mob slot meta.
            Inr (Track (new_item \<lparr> metadata :=
                          Some (empty_metadata \<lparr> md_SlotID := (case props_of slot of
                                                                   None \<Rightarrow> None
                                                                 | Some p \<Rightarrow> p_SlotID p) \<rparr>) \<rparr>)
                       ''Video'' [Clip new_item])),
       env_attach_markers = (\<lambda>t. Inr t),
       env_marker_track = (\<lambda>t slot_id track. Inr None) \<rparr>"

text \<open>A 24-frame dissolve cut at frame 10, with the two control points of its level.\<close>

definition dissolve :: aaf where
  "dissolve =
     AAFTransition ((component_props ''Transition'' 24) \<lparr> p_CutPoint := Some 10 \<rparr>)
       (Some (OperationGroup (component_props ''OperationGroup'' 24)
                \<lparr> og_length = 24, og_name = None,
                  og_parameters =
                    [(''Level'', VaryingValue (Some [\<lparr>cp_time = 0, cp_value = 0\<rparr>,
                                                      \<lparr>cp_time = 1, cp_value = 1\<rparr>]))] \<rparr>
                \<lparr> op_Name = Some ''VideoDissolve'', op_IsTimeWarp = False, op_Parameters = [] \<rparr>
                []))"

text \<open>A muted selector (a Filler is selected) that has no \<open>Alternates\<close> property.\<close>

definition muted_selector_without_alternates :: aaf where
  "muted_selector_without_alternates =
     Selector (component_props ''Selector'' 24) (Filler (component_props ''Filler'' 24)) None"

definition muted_selector :: aaf where
  "muted_selector =
     Selector (component_props ''Selector'' 24) (Filler (component_props ''Filler'' 24))
       (Some [Filler (component_props ''Filler'' 24)])"

text \<open>
  A composition mob whose only slot holds a SourceClip that refers back to
  the composition itself.
\<close>

definition self_reference :: aaf where
  "self_reference =
     CompositionMob (no_props ''CompositionMob'') ''mob-1''
       [TimelineMobSlot (slot_props 1)
          (SourceClip (component_props ''SourceClip'' 24) (Some ''mob-1'') 1 (Some 0))]"

text \<open>
  A composition mob with two slots, each holding a SourceClip that refers to
  slot 1 of the same master mob.
\<close>

definition shared_master :: aaf where
  "shared_master =
     MasterMob ((no_props ''MasterMob'') \<lparr> p_name := Some ''shot'' \<rparr>) ''mob-2''
       [TimelineMobSlot (slot_props 1) (SourceClip (component_props ''SourceClip'' 24) None 1 (Some 0))]"

definition two_references :: aaf where
  "two_references =
     CompositionMob ((no_props ''CompositionMob'') \<lparr> p_name := Some ''cut'' \<rparr>) ''mob-3''
       [TimelineMobSlot (slot_props 1)
          (SourceClip (component_props ''SourceClip'' 24) (Some ''mob-2'') 1 (Some 0)),
        TimelineMobSlot (slot_props 2)
          (SourceClip (component_props ''SourceClip'' 24) (Some ''mob-2'') 1 (Some 0))]"

text \<open>
  The operation metadata of a \<open>Motion Control\<close> time warp with a given
  Parameters dictionary, and of a time warp of another name; the speed ramp
  without a SpeedRatio parameter.
\<close>

definition motion_control :: "(string \<times> string) list \<Rightarrow> operation_metadata" where
  "motion_control parameters =
     \<lparr> op_Name = Some ''Motion Control'', op_IsTimeWarp = True, op_Parameters = parameters \<rparr>"

definition other_time_warp :: operation_metadata where
  "other_time_warp =
     \<lparr> op_Name = Some ''Timewarp'', op_IsTimeWarp = True,
       op_Parameters = [(''SpeedRatio'', ''2'')] \<rparr>"

definition speed_ramp_without_ratio :: operation_group where
  "speed_ramp_without_ratio =
     \<lparr> og_length = 100, og_name = Some ''Motion Control'',
       og_parameters =
         [(''PARAM_SPEED_OFFSET_MAP_U'',
             VaryingValue (Some [\<lparr>cp_time = 0, cp_value = 0\<rparr>,
                                 \<lparr>cp_time = 99 / 100, cp_value = 1\<rparr>]))] \<rparr>"


text \<open>
  What the end of \<open>_transcribe\<close> writes on a timeline taken from the
  cache: the name and the metadata of the mob, where the timeline has none.
\<close>

definition filled_in :: "reader_env \<Rightarrow> aaf \<Rightarrow> timeline_attrs \<Rightarrow> timeline_attrs" where
  "filled_in env item ta =
     ta \<lparr> tl_name := (if tl_name ta = [] then get_name env item else tl_name ta),
          tl_metadata := (case tl_metadata ta of
                            None \<Rightarrow> Some (initial_metadata env item)
                          | Some m \<Rightarrow> Some m) \<rparr>"


section \<open>Reading: attaching markers (\<open>_attach_markers\<close>)\<close>

text \<open>
  Markers are transcribed onto the track of their event slot; this pass moves
  each of them to the item it points at.  Objects of the tree are identified
  by their position under \<open>timeline.tracks\<close> (the list of child indices
  leading to them); the pass changes marker lists only, so positions are
  stable.  The OpenTimelineIO queries are parameters, each taking the tree and
  positions in it: \<open>track.child_at_time(time)\<close> (the position found, or
  \<open>None\<close>), \<open>item.transformed_time(time, to_item)\<close>,
  \<open>item.range_in_parent()\<close> (all three may raise) and
  \<open>range.contains(time)\<close>.
\<close>

type_synonym path = "nat list"

record marker_lib =
  mlib_child_at_time :: "thing \<Rightarrow> path \<Rightarrow> rational_time \<Rightarrow> py_error + path option"
  mlib_transformed_time :: "thing \<Rightarrow> path \<Rightarrow> rational_time \<Rightarrow> path \<Rightarrow> py_error + rational_time"
  mlib_range_in_parent :: "thing \<Rightarrow> path \<Rightarrow> py_error + time_range"
  mlib_contains :: "time_range \<Rightarrow> rational_time \<Rightarrow> bool"

fun thing_at :: "thing \<Rightarrow> path \<Rightarrow> thing option" where
  "thing_at t [] = Some t"
| "thing_at t (i # p) = (if i < length (children t) then thing_at (children t ! i) p else None)"

fun map_child :: "nat \<Rightarrow> (thing \<Rightarrow> thing) \<Rightarrow> thing \<Rightarrow> thing" where
  "map_child i f (Track a k cs) = Track a k (if i < length cs then cs[i := f (cs ! i)] else cs)"
| "map_child i f (Stack a cs) = Stack a (if i < length cs then cs[i := f (cs ! i)] else cs)"
| "map_child i f (SerializableCollection cs) =
     SerializableCollection (if i < length cs then cs[i := f (cs ! i)] else cs)"
| "map_child i f t = t"

fun update_at :: "(thing \<Rightarrow> thing) \<Rightarrow> path \<Rightarrow> thing \<Rightarrow> thing" where
  "update_at f [] t = f t"
| "update_at f (i # p) t = map_child i (\<lambda>c. update_at f p c) t"

definition markers_at :: "thing \<Rightarrow> path \<Rightarrow> marker list" where
  "markers_at t p =
     (case thing_at t p of
        None \<Rightarrow> []
      | Some x \<Rightarrow> (case item_attrs_of x of None \<Rightarrow> [] | Some a \<Rightarrow> markers a))"

text \<open>
  \<open>timeline.find_children(descended_from_type=otio.schema.Track)\<close>: every
  track below the root stack, a track before the tracks nested in it.
\<close>

fun track_paths :: "thing \<Rightarrow> path list"
  and track_paths_from :: "nat \<Rightarrow> thing list \<Rightarrow> path list"
  where
  "track_paths (Track a k cs) = track_paths_from 0 cs"
| "track_paths (Stack a cs) = track_paths_from 0 cs"
| "track_paths (Clip a) = []"
| "track_paths (Gap a) = []"
| "track_paths (Transition t) = []"
| "track_paths (Timeline t s) = []"
| "track_paths (SerializableCollection cs) = []"
| "track_paths_from i [] = []"
| "track_paths_from i (c # cs) =
     (if is_Track c then [[i]] else []) @ map ((#) i) (track_paths c)
       @ track_paths_from (Suc i) cs"

text \<open>
  The track mapping: tracks that have both a SlotID and a
  PhysicalTrackNumber, by that pair; a later track replaces an earlier one
  with the same pair.
\<close>

definition track_key :: "thing \<Rightarrow> (int \<times> int) option" where
  "track_key t =
     (case metadata_of t of
        None \<Rightarrow> None
      | Some m \<Rightarrow>
          (case md_SlotID m of
             None \<Rightarrow> None
           | Some slot_id \<Rightarrow>
               (case md_PhysicalTrackNumber m of
                  None \<Rightarrow> None
                | Some track_number \<Rightarrow> Some (slot_id, track_number))))"

definition build_tracks_map :: "thing \<Rightarrow> path list \<Rightarrow> (int \<times> int) \<rightharpoonup> path" where
  "build_tracks_map stack paths =
     foldl (\<lambda>tracks_map p.
              case thing_at stack p of
                None \<Rightarrow> tracks_map
              | Some track \<Rightarrow>
                  (case track_key track of
                     None \<Rightarrow> tracks_map
                   | Some k \<Rightarrow> tracks_map(k \<mapsto> p)))
           Map.empty paths"

text \<open>
  \<open>tracks_map.get((slot_id, track_number))\<close> for the attachment of a
  marker: a pair with a \<open>None\<close> in it is no key of the mapping.
\<close>

definition target_of :: "((int \<times> int) \<rightharpoonup> path) \<Rightarrow> marker \<Rightarrow> path option" where
  "target_of tracks_map mk =
     (case mk_metadata mk of
        None \<Rightarrow> None
      | Some m \<Rightarrow>
          (case md_AttachedSlotID m of
             None \<Rightarrow> None
           | Some slot_id \<Rightarrow>
               (case md_AttachedPhysicalTrackNumber m of
                  None \<Rightarrow> None
                | Some track_number \<Rightarrow> tracks_map (slot_id, track_number))))"

text \<open>
  \<open>_find_child_at_time\<close>.  The first argument bounds the depth of the
  recursion, as Python does.  \<open>parent[index - 1]\<close> of the first child is the
  last child; \<open>parent[index + 1]\<close> of the last child raises IndexError.  A
  position that is not in the tree stands for no object; the model raises
  AttributeError on it, as for the parent of a parentless object.
\<close>

fun find_child_at_time ::
  "nat \<Rightarrow> marker_lib \<Rightarrow> thing \<Rightarrow> path \<Rightarrow> rational_time \<Rightarrow> py_error + path option"
  where
  "find_child_at_time 0 lib stack target_track start = Inl RecursionError"
| "find_child_at_time (Suc depth) lib stack target_track start =
     (case mlib_child_at_time lib stack target_track start of
        Inl e \<Rightarrow> Inl e
      | Inr None \<Rightarrow> Inr None
      | Inr (Some target_item) \<Rightarrow>
          (case thing_at stack target_item of
             None \<Rightarrow> Inl AttributeError
           | Some item \<Rightarrow>
               if \<not> is_Transition item then Inr (Some target_item)
               else if target_item = [] then Inl AttributeError
               else
                 (let parent = butlast target_item;
                      position = last target_item;
                      siblings = (case thing_at stack parent of
                                    None \<Rightarrow> []
                                  | Some c \<Rightarrow> children c);
                      before = parent @ [if position = 0 then length siblings - 1
                                         else position - 1]
                  in case mlib_transformed_time lib stack target_track start parent of
                       Inl e \<Rightarrow> Inl e
                     | Inr start_local \<Rightarrow>
                         (case mlib_range_in_parent lib stack before of
                            Inl e \<Rightarrow> Inl e
                          | Inr before_range \<Rightarrow>
                              (case (if mlib_contains lib before_range start_local
                                     then Inr before
                                     else if Suc position < length siblings
                                     then Inr (parent @ [Suc position])
                                     else Inl IndexError) of
                                 Inl e \<Rightarrow> Inl e
                               | Inr chosen \<Rightarrow>
                                   (case thing_at stack chosen of
                                      None \<Rightarrow> Inl AttributeError
                                    | Some c \<Rightarrow>
                                        if is_Composition c then
                                          (case mlib_transformed_time lib stack parent start
                                                  chosen of
                                             Inl e \<Rightarrow> Inl e
                                           | Inr start_local' \<Rightarrow>
                                               find_child_at_time depth lib stack chosen
                                                 start_local')
                                        else Inr (Some chosen)))))))"

text \<open>\<open>hasattr(target_item, 'markers')\<close>: Items have markers, a Transition has none.\<close>

definition has_markers :: "thing \<Rightarrow> path \<Rightarrow> bool" where
  "has_markers stack p = (case thing_at stack p of None \<Rightarrow> False | Some t \<Rightarrow> is_Item t)"

definition remove_marker :: "path \<Rightarrow> marker \<Rightarrow> thing \<Rightarrow> thing" where
  "remove_marker p mk stack =
     update_at (map_item_attrs (\<lambda>a. a\<lparr>markers := remove1 mk (markers a)\<rparr>)) p stack"

definition append_marker :: "path \<Rightarrow> marker \<Rightarrow> thing \<Rightarrow> thing" where
  "append_marker p mk stack =
     update_at (map_item_attrs (\<lambda>a. a\<lparr>markers := markers a @ [mk]\<rparr>)) p stack"

definition marked_from :: "rational_time \<Rightarrow> marker \<Rightarrow> marker" where
  "marked_from start mk =
     mk\<lparr>mk_marked_range :=
          \<lparr>start_time = start, duration = duration (mk_marked_range mk)\<rparr>\<rparr>"

text \<open>
  The body of the loop over the markers of \<open>current_track\<close>: the marker is
  removed from the track, its new owner and range are determined, and it is
  appended to the new owner.  Without a target track the owner is
  \<open>timeline.tracks\<close> (position \<open>[]\<close>) and the range is transformed outside
  any \<open>try\<close>.  With a target track, the search for the item and the
  transformation are inside a \<open>try\<close> that catches
  CannotComputeAvailableRangeError only.
\<close>

definition attach_marker ::
  "nat \<Rightarrow> marker_lib \<Rightarrow> ((int \<times> int) \<rightharpoonup> path) \<Rightarrow> path \<Rightarrow> marker \<Rightarrow> thing \<Rightarrow> py_error + thing"
  where
  "attach_marker depth lib tracks_map current_track mk stack =
     (let start = start_time (mk_marked_range mk);
          removed = remove_marker current_track mk stack
      in case target_of tracks_map mk of
           None \<Rightarrow>
             (case mlib_transformed_time lib removed current_track start [] of
                Inl e \<Rightarrow> Inl e
              | Inr marked_start_local \<Rightarrow>
                  Inr (append_marker [] (marked_from marked_start_local mk) removed))
         | Some target_track \<Rightarrow>
             (case (case find_child_at_time depth lib removed target_track start of
                      Inl e \<Rightarrow> Inl e
                    | Inr found \<Rightarrow>
                        (let target_item =
                               (case found of
                                  None \<Rightarrow> target_track
                                | Some p \<Rightarrow> if has_markers removed p then p else target_track)
                         in case mlib_transformed_time lib removed current_track start
                                   target_item of
                              Inl e \<Rightarrow> Inl e
                            | Inr marked_start_local \<Rightarrow>
                                Inr (target_item, marked_from marked_start_local mk))) of
                Inl CannotComputeAvailableRangeError \<Rightarrow>
                  Inr (append_marker target_track mk removed)
              | Inl e \<Rightarrow> Inl e
              | Inr (target_item, moved) \<Rightarrow> Inr (append_marker target_item moved removed)))"

text \<open>The loop over \<open>list(current_track.markers)\<close>, and the loop over the tracks.\<close>

fun attach_each ::
  "nat \<Rightarrow> marker_lib \<Rightarrow> ((int \<times> int) \<rightharpoonup> path) \<Rightarrow> path \<Rightarrow> marker list \<Rightarrow> thing \<Rightarrow> py_error + thing"
  where
  "attach_each depth lib tracks_map current_track [] stack = Inr stack"
| "attach_each depth lib tracks_map current_track (mk # mks) stack =
     (case attach_marker depth lib tracks_map current_track mk stack of
        Inl e \<Rightarrow> Inl e
      | Inr stack' \<Rightarrow> attach_each depth lib tracks_map current_track mks stack')"

fun attach_tracks ::
  "nat \<Rightarrow> marker_lib \<Rightarrow> ((int \<times> int) \<rightharpoonup> path) \<Rightarrow> path list \<Rightarrow> thing \<Rightarrow> py_error + thing"
  where
  "attach_tracks depth lib tracks_map [] stack = Inr stack"
| "attach_tracks depth lib tracks_map (current_track # rest) stack =
     (case attach_each depth lib tracks_map current_track (markers_at stack current_track)
             stack of
        Inl e \<Rightarrow> Inl e
      | Inr stack' \<Rightarrow> attach_tracks depth lib tracks_map rest stack')"

text \<open>
  \<open>_attach_markers\<close>: every timeline of the collection (or the timeline
  itself) is processed; anything else holds no timeline and is returned as it
  is.
\<close>

fun attach_markers :: "nat \<Rightarrow> marker_lib \<Rightarrow> thing \<Rightarrow> py_error + thing"
  and attach_markers_list :: "nat \<Rightarrow> marker_lib \<Rightarrow> thing list \<Rightarrow> py_error + thing list"
  where
  "attach_markers depth lib (Timeline t stack) =
     (case attach_tracks depth lib (build_tracks_map stack (track_paths stack))
             (track_paths stack) stack of
        Inl e \<Rightarrow> Inl e
      | Inr stack' \<Rightarrow> Inr (Timeline t stack'))"
| "attach_markers depth lib (SerializableCollection cs) =
     (case attach_markers_list depth lib cs of
        Inl e \<Rightarrow> Inl e
      | Inr cs' \<Rightarrow> Inr (SerializableCollection cs'))"
| "attach_markers depth lib (Clip a) = Inr (Clip a)"
| "attach_markers depth lib (Gap a) = Inr (Gap a)"
| "attach_markers depth lib (Transition t) = Inr (Transition t)"
| "attach_markers depth lib (Track a k cs) = Inr (Track a k cs)"
| "attach_markers depth lib (Stack a cs) = Inr (Stack a cs)"
| "attach_markers_list depth lib [] = Inr []"
| "attach_markers_list depth lib (c # cs) =
     (case attach_markers depth lib c of
        Inl e \<Rightarrow> Inl e
      | Inr c' \<Rightarrow>
          (case attach_markers_list depth lib cs of
             Inl e \<Rightarrow> Inl e
           | Inr cs' \<Rightarrow> Inr (c' # cs')))"

text \<open>
  What one step of the loop does to the marker lists of the tree, when the
  marker \<open>mk\<close> of \<open>current_track\<close> ends as \<open>mk'\<close> on \<open>owner\<close>: it is taken
  from its track and is the last marker of its owner; no other marker list
  changes.
\<close>

definition moved_onto :: "thing \<Rightarrow> thing \<Rightarrow> path \<Rightarrow> marker \<Rightarrow> path \<Rightarrow> marker \<Rightarrow> bool" where
  "moved_onto stack' stack current_track mk owner mk' =
     (\<forall>q. markers_at stack' q =
            (if q = owner then
               (if owner = current_track then remove1 mk (markers_at stack owner)
                else markers_at stack owner) @ [mk']
             else if q = current_track then remove1 mk (markers_at stack q)
             else markers_at stack q))"


subsection \<open>Example: markers on an event track\<close>

text \<open>
  A library in which every child of a track lasts one unit of time and all
  items share one time space; and the same library for media without
  available range, where \<open>child_at_time\<close> raises.
\<close>

definition unit_lib :: marker_lib where
  "unit_lib =
     \<lparr> mlib_child_at_time =
         (\<lambda>stack track t.
            Inr (case thing_at stack track of
                   None \<Rightarrow> None
                 | Some c \<Rightarrow>
                     if 0 \<le> rt_value t \<and> nat \<lfloor>rt_value t\<rfloor> < length (children c)
                     then Some (track @ [nat \<lfloor>rt_value t\<rfloor>])
                     else None)),
       mlib_transformed_time = (\<lambda>stack from_item t to_item. Inr t),
       mlib_range_in_parent =
         (\<lambda>stack p. Inr \<lparr> start_time = \<lparr> rt_value = of_nat (last p), rt_rate = 24 \<rparr>,
                            duration = \<lparr> rt_value = 1, rt_rate = 24 \<rparr> \<rparr>),
       mlib_contains =
         (\<lambda>r t. rt_value (start_time r) \<le> rt_value t
                 \<and> rt_value t < rt_value (start_time r) + rt_value (duration r)) \<rparr>"

definition no_available_range_lib :: marker_lib where
  "no_available_range_lib =
     unit_lib \<lparr> mlib_child_at_time := (\<lambda>stack track t. Inl CannotComputeAvailableRangeError) \<rparr>"

definition marker_for :: "string \<Rightarrow> int \<Rightarrow> int \<Rightarrow> rat \<Rightarrow> marker" where
  "marker_for n slot_id track_number start =
     \<lparr> mk_name = n,
       mk_marked_range = \<lparr> start_time = \<lparr> rt_value = start, rt_rate = 24 \<rparr>,
                           duration = \<lparr> rt_value = 1, rt_rate = 24 \<rparr> \<rparr>,
       mk_metadata = Some (empty_metadata \<lparr> md_AttachedSlotID := Some slot_id,
                                             md_AttachedPhysicalTrackNumber := Some track_number \<rparr>) \<rparr>"

definition slot_track :: "string \<Rightarrow> int \<Rightarrow> marker list \<Rightarrow> thing list \<Rightarrow> thing" where
  "slot_track n slot_id ms cs =
     Track (new_item \<lparr> name := n,
                       metadata := Some (empty_metadata \<lparr> md_SlotID := Some slot_id,
                                                           md_PhysicalTrackNumber := Some 1 \<rparr>),
                       markers := ms \<rparr>)
           ''Video'' cs"

text \<open>
  A video track of two clips (slot 1) and the track of an event slot (slot 2)
  with three markers: one attached to slot 9, which does not exist; one
  attached to slot 1 at a time after the end of the video track; one
  attached to slot 1 at the time of the first clip.
\<close>

definition lost :: marker where
  "lost = marker_for ''lost'' 9 1 0"

definition late :: marker where
  "late = marker_for ''late'' 1 1 5"

definition hit :: marker where
  "hit = marker_for ''hit'' 1 1 0"

definition marked_stack :: thing where
  "marked_stack =
     Stack new_item
       [slot_track ''V1'' 1 [] [clip_named ''a'', clip_named ''b''],
        slot_track ''Markers'' 2 [lost, late, hit] []]"

definition attached_stack :: thing where
  "attached_stack =
     Stack (new_item \<lparr> markers := [lost] \<rparr>)
       [slot_track ''V1'' 1 [late]
          [Clip (new_item \<lparr> name := ''a'', markers := [hit] \<rparr>), clip_named ''b''],
        slot_track ''Markers'' 2 [] []]"

definition attached_stack_without_ranges :: thing where
  "attached_stack_without_ranges =
     Stack (new_item \<lparr> markers := [lost] \<rparr>)
       [slot_track ''V1'' 1 [late, hit] [clip_named ''a'', clip_named ''b''],
        slot_track ''Markers'' 2 [] []]"

section \<open>Theorems\<close>

subsection \<open>The reader, branch by branch\<close>

text \<open>One equation per class of item, read off the definition of \<open>transcribe\<close>.\<close>

declare transcribe.simps(2) [simp del]

lemma transcribe_ContentStorage:
  "transcribe (Suc depth) env cache (ContentStorage p mobs) parents edit_rate =
     (let metadata = initial_metadata env (ContentStorage p mobs);
          edit_rate = inherited_edit_rate (ContentStorage p mobs) edit_rate;
          below = (\<lambda>c x. transcribe depth env c x (parents @ [(ContentStorage p mobs)]) edit_rate)
      in case
        ((case transcribe_into below add_child (SerializableCollection []) cache mobs of
                Inl e \<Rightarrow> Inl e
              | Inr (result, cache') \<Rightarrow> Inr (ResThing result, metadata, cache')))
      of
        Inl e \<Rightarrow> Inl e
      | Inr (result, metadata', cache') \<Rightarrow>
          (case finish (ContentStorage p mobs) metadata' result of
             Inl e \<Rightarrow> Inl e
           | Inr finished \<Rightarrow> Inr (finished, cache_sees (ContentStorage p mobs) finished cache')))"
  by (simp only: transcribe.simps aaf.case)

lemma transcribe_SourceMob:
  "transcribe (Suc depth) env cache (SourceMob p mob_id) parents edit_rate =
     (let metadata = initial_metadata env (SourceMob p mob_id);
          edit_rate = inherited_edit_rate (SourceMob p mob_id) edit_rate;
          below = (\<lambda>c x. transcribe depth env c x (parents @ [(SourceMob p mob_id)]) edit_rate)
      in case
        (Inl (AAFAdapterError ''AAF parsing error: unexpected SourceMob''))
      of
        Inl e \<Rightarrow> Inl e
      | Inr (result, metadata', cache') \<Rightarrow>
          (case finish (SourceMob p mob_id) metadata' result of
             Inl e \<Rightarrow> Inl e
           | Inr finished \<Rightarrow> Inr (finished, cache_sees (SourceMob p mob_id) finished cache')))"
  by (simp only: transcribe.simps aaf.case)

lemma transcribe_MasterMob:
  "transcribe (Suc depth) env cache (MasterMob p mob_id slots) parents edit_rate =
     (let metadata = initial_metadata env (MasterMob p mob_id slots);
          edit_rate = inherited_edit_rate (MasterMob p mob_id slots) edit_rate;
          below = (\<lambda>c x. transcribe depth env c x (parents @ [(MasterMob p mob_id slots)]) edit_rate)
      in case
        ((case cache mob_id of
                Some result \<Rightarrow> Inr (ResThing result, metadata, cache)
              | None \<Rightarrow>
                  (case transcribe_master_mob env
                          (\<lambda>c x r. transcribe depth env c x (parents @ [(MasterMob p mob_id slots)]) r)
                          cache (MasterMob p mob_id slots) metadata of
                     Inl e \<Rightarrow> Inl e
                   | Inr (result, cache') \<Rightarrow>
                       Inr (ResThing result, metadata, cache'(mob_id \<mapsto> result)))))
      of
        Inl e \<Rightarrow> Inl e
      | Inr (result, metadata', cache') \<Rightarrow>
          (case finish (MasterMob p mob_id slots) metadata' result of
             Inl e \<Rightarrow> Inl e
           | Inr finished \<Rightarrow> Inr (finished, cache_sees (MasterMob p mob_id slots) finished cache')))"
  by (simp only: transcribe.simps aaf.case)

lemma transcribe_CompositionMob:
  "transcribe (Suc depth) env cache (CompositionMob p mob_id slots) parents edit_rate =
     (let metadata = initial_metadata env (CompositionMob p mob_id slots);
          edit_rate = inherited_edit_rate (CompositionMob p mob_id slots) edit_rate;
          below = (\<lambda>c x. transcribe depth env c x (parents @ [(CompositionMob p mob_id slots)]) edit_rate)
      in case
        ((case cache mob_id of
                Some result \<Rightarrow> Inr (ResThing result, metadata, cache)
              | None \<Rightarrow>
                  (case transcribe_into below add_child (Stack new_item []) cache slots of
                     Inl e \<Rightarrow> Inl e
                   | Inr (tracks, cache') \<Rightarrow>
                       (case get_mob_start_tc (CompositionMob p mob_id slots) of
                          Inl e \<Rightarrow> Inl e
                        | Inr timecode \<Rightarrow>
                            (let result =
                                   Timeline \<lparr> tl_name = [], tl_metadata = None,
                                              global_start_time = map_option start_time timecode \<rparr>
                                            tracks
                             in Inr (ResThing result, metadata, cache'(mob_id \<mapsto> result)))))))
      of
        Inl e \<Rightarrow> Inl e
      | Inr (result, metadata', cache') \<Rightarrow>
          (case finish (CompositionMob p mob_id slots) metadata' result of
             Inl e \<Rightarrow> Inl e
           | Inr finished \<Rightarrow> Inr (finished, cache_sees (CompositionMob p mob_id slots) finished cache')))"
  by (simp only: transcribe.simps aaf.case)

lemma transcribe_SourceClip:
  "transcribe (Suc depth) env cache (SourceClip p mob_ref slot_id start) parents edit_rate =
     (let metadata = initial_metadata env (SourceClip p mob_ref slot_id start);
          edit_rate = inherited_edit_rate (SourceClip p mob_ref slot_id start) edit_rate;
          below = (\<lambda>c x. transcribe depth env c x (parents @ [(SourceClip p mob_ref slot_id start)]) edit_rate)
      in case
        ((case TimeRange start (p_length p) edit_rate of
                Inl e \<Rightarrow> Inl e
              | Inr src_range \<Rightarrow>
                  (case TimeRange (Some 0) (p_length p) edit_rate of
                     Inl e \<Rightarrow> Inl e
                   | Inr gap_range \<Rightarrow>
                       (let mob = (case mob_ref of
                                     None \<Rightarrow> None
                                   | Some i \<Rightarrow> map_of (env_mobs env) i)
                        in case (case mob of
                                   None \<Rightarrow> Inr (None, cache)
                                 | Some m \<Rightarrow>
                                     if is_MasterMob m \<or> is_CompositionMob m then
                                       (case transcribe depth env cache m [] edit_rate of
                                          Inl e \<Rightarrow> Inl e
                                        | Inr (ResThing mtl, cache') \<Rightarrow> Inr (Some mtl, cache')
                                        | Inr (_, cache') \<Rightarrow> Inl AttributeError)
                                     else Inr (None, cache)) of
                             Inl e \<Rightarrow> Inl e
                           | Inr (mob_timeline, cache') \<Rightarrow>
                               (case source_clip_result env p slot_id mob mob_timeline
                                       src_range gap_range of
                                  Inl e \<Rightarrow> Inl e
                                | Inr result \<Rightarrow> Inr (ResThing result, metadata, cache'))))))
      of
        Inl e \<Rightarrow> Inl e
      | Inr (result, metadata', cache') \<Rightarrow>
          (case finish (SourceClip p mob_ref slot_id start) metadata' result of
             Inl e \<Rightarrow> Inl e
           | Inr finished \<Rightarrow> Inr (finished, cache_sees (SourceClip p mob_ref slot_id start) finished cache')))"
  by (simp only: transcribe.simps aaf.case)

lemma transcribe_AAFTransition:
  "transcribe (Suc depth) env cache (AAFTransition p op_group_item) parents edit_rate =
     (let metadata = initial_metadata env (AAFTransition p op_group_item);
          edit_rate = inherited_edit_rate (AAFTransition p op_group_item) edit_rate;
          below = (\<lambda>c x. transcribe depth env c x (parents @ [(AAFTransition p op_group_item)]) edit_rate)
      in case
        ((case (case op_group_item of
                      None \<Rightarrow> Inr cache
                    | Some g \<Rightarrow>
                        (case below cache g of
                           Inl e \<Rightarrow> Inl e
                         | Inr (op_group, cache') \<Rightarrow>
                             if has_effects_attribute op_group then Inr cache'
                             else Inl AttributeError)) of
                Inl e \<Rightarrow> Inl e
              | Inr cache' \<Rightarrow>
                  (case transition_result p op_group_item metadata edit_rate of
                     Inl e \<Rightarrow> Inl e
                   | Inr result \<Rightarrow> Inr (ResThing result, metadata, cache'))))
      of
        Inl e \<Rightarrow> Inl e
      | Inr (result, metadata', cache') \<Rightarrow>
          (case finish (AAFTransition p op_group_item) metadata' result of
             Inl e \<Rightarrow> Inl e
           | Inr finished \<Rightarrow> Inr (finished, cache_sees (AAFTransition p op_group_item) finished cache')))"
  by (simp only: transcribe.simps aaf.case)

lemma transcribe_Filler:
  "transcribe (Suc depth) env cache (Filler p) parents edit_rate =
     (let metadata = initial_metadata env (Filler p);
          edit_rate = inherited_edit_rate (Filler p) edit_rate;
          below = (\<lambda>c x. transcribe depth env c x (parents @ [(Filler p)]) edit_rate)
      in case
        ((case TimeRange (Some 0) (p_length p) edit_rate of
                Inl e \<Rightarrow> Inl e
              | Inr r \<Rightarrow>
                  Inr (ResThing (Gap (new_item \<lparr> source_range := Some r \<rparr>)), metadata, cache)))
      of
        Inl e \<Rightarrow> Inl e
      | Inr (result, metadata', cache') \<Rightarrow>
          (case finish (Filler p) metadata' result of
             Inl e \<Rightarrow> Inl e
           | Inr finished \<Rightarrow> Inr (finished, cache_sees (Filler p) finished cache')))"
  by (simp only: transcribe.simps aaf.case)

lemma transcribe_NestedScope:
  "transcribe (Suc depth) env cache (NestedScope p slots) parents edit_rate =
     (let metadata = initial_metadata env (NestedScope p slots);
          edit_rate = inherited_edit_rate (NestedScope p slots) edit_rate;
          below = (\<lambda>c x. transcribe depth env c x (parents @ [(NestedScope p slots)]) edit_rate)
      in case
        ((case transcribe_into below add_child (Stack new_item []) cache slots of
                Inl e \<Rightarrow> Inl e
              | Inr (result, cache') \<Rightarrow> Inr (ResThing result, metadata, cache')))
      of
        Inl e \<Rightarrow> Inl e
      | Inr (result, metadata', cache') \<Rightarrow>
          (case finish (NestedScope p slots) metadata' result of
             Inl e \<Rightarrow> Inl e
           | Inr finished \<Rightarrow> Inr (finished, cache_sees (NestedScope p slots) finished cache')))"
  by (simp only: transcribe.simps aaf.case)

lemma transcribe_Sequence:
  "transcribe (Suc depth) env cache (Sequence p components) parents edit_rate =
     (let metadata = initial_metadata env (Sequence p components);
          edit_rate = inherited_edit_rate (Sequence p components) edit_rate;
          below = (\<lambda>c x. transcribe depth env c x (parents @ [(Sequence p components)]) edit_rate)
      in case
        ((case sequence_metadata (Sequence p components) parents metadata of
                Inl e \<Rightarrow> Inl e
              | Inr metadata' \<Rightarrow>
                  (case transcribe_into below add_child (Track new_item ''Video'' []) cache
                          components of
                     Inl e \<Rightarrow> Inl e
                   | Inr (result, cache') \<Rightarrow> Inr (ResThing result, metadata', cache'))))
      of
        Inl e \<Rightarrow> Inl e
      | Inr (result, metadata', cache') \<Rightarrow>
          (case finish (Sequence p components) metadata' result of
             Inl e \<Rightarrow> Inl e
           | Inr finished \<Rightarrow> Inr (finished, cache_sees (Sequence p components) finished cache')))"
  by (simp only: transcribe.simps aaf.case)

lemma transcribe_OperationGroup:
  "transcribe (Suc depth) env cache (OperationGroup p g operation input_segments) parents edit_rate =
     (let metadata = initial_metadata env (OperationGroup p g operation input_segments);
          edit_rate = inherited_edit_rate (OperationGroup p g operation input_segments) edit_rate;
          below = (\<lambda>c x. transcribe depth env c x (parents @ [(OperationGroup p g operation input_segments)]) edit_rate)
      in case
        ((case transcribe_operation_group env below cache g operation input_segments
                     metadata edit_rate of
                Inl e \<Rightarrow> Inl e
              | Inr (result, cache') \<Rightarrow> Inr (ResThing result, metadata, cache')))
      of
        Inl e \<Rightarrow> Inl e
      | Inr (result, metadata', cache') \<Rightarrow>
          (case finish (OperationGroup p g operation input_segments) metadata' result of
             Inl e \<Rightarrow> Inl e
           | Inr finished \<Rightarrow> Inr (finished, cache_sees (OperationGroup p g operation input_segments) finished cache')))"
  by (simp only: transcribe.simps aaf.case)

lemma transcribe_TimelineMobSlot:
  "transcribe (Suc depth) env cache (TimelineMobSlot p segment) parents edit_rate =
     (let metadata = initial_metadata env (TimelineMobSlot p segment);
          edit_rate = inherited_edit_rate (TimelineMobSlot p segment) edit_rate;
          below = (\<lambda>c x. transcribe depth env c x (parents @ [(TimelineMobSlot p segment)]) edit_rate)
      in case
        ((case transcribe_into below add_child (Track new_item ''Video'' []) cache [segment] of
                Inl e \<Rightarrow> Inl e
              | Inr (result, cache') \<Rightarrow> Inr (ResThing result, metadata, cache')))
      of
        Inl e \<Rightarrow> Inl e
      | Inr (result, metadata', cache') \<Rightarrow>
          (case finish (TimelineMobSlot p segment) metadata' result of
             Inl e \<Rightarrow> Inl e
           | Inr finished \<Rightarrow> Inr (finished, cache_sees (TimelineMobSlot p segment) finished cache')))"
  by (simp only: transcribe.simps aaf.case)

lemma transcribe_EventMobSlot:
  "transcribe (Suc depth) env cache (EventMobSlot p segment) parents edit_rate =
     (let metadata = initial_metadata env (EventMobSlot p segment);
          edit_rate = inherited_edit_rate (EventMobSlot p segment) edit_rate;
          below = (\<lambda>c x. transcribe depth env c x (parents @ [(EventMobSlot p segment)]) edit_rate)
      in case
        ((case transcribe_into below add_child (Track new_item ''Video'' []) cache [segment] of
                Inl e \<Rightarrow> Inl e
              | Inr (result, cache') \<Rightarrow> Inr (ResThing result, metadata, cache')))
      of
        Inl e \<Rightarrow> Inl e
      | Inr (result, metadata', cache') \<Rightarrow>
          (case finish (EventMobSlot p segment) metadata' result of
             Inl e \<Rightarrow> Inl e
           | Inr finished \<Rightarrow> Inr (finished, cache_sees (EventMobSlot p segment) finished cache')))"
  by (simp only: transcribe.simps aaf.case)

lemma transcribe_StaticMobSlot:
  "transcribe (Suc depth) env cache (StaticMobSlot p segment) parents edit_rate =
     (let metadata = initial_metadata env (StaticMobSlot p segment);
          edit_rate = inherited_edit_rate (StaticMobSlot p segment) edit_rate;
          below = (\<lambda>c x. transcribe depth env c x (parents @ [(StaticMobSlot p segment)]) edit_rate)
      in case
        ((case transcribe_into below add_child (Track new_item ''Video'' []) cache [segment] of
                Inl e \<Rightarrow> Inl e
              | Inr (result, cache') \<Rightarrow> Inr (ResThing result, metadata, cache')))
      of
        Inl e \<Rightarrow> Inl e
      | Inr (result, metadata', cache') \<Rightarrow>
          (case finish (StaticMobSlot p segment) metadata' result of
             Inl e \<Rightarrow> Inl e
           | Inr finished \<Rightarrow> Inr (finished, cache_sees (StaticMobSlot p segment) finished cache')))"
  by (simp only: transcribe.simps aaf.case)

lemma transcribe_Timecode:
  "transcribe (Suc depth) env cache (Timecode p start) parents edit_rate =
     (let metadata = initial_metadata env (Timecode p start);
          edit_rate = inherited_edit_rate (Timecode p start) edit_rate;
          below = (\<lambda>c x. transcribe depth env c x (parents @ [(Timecode p start)]) edit_rate)
      in case
        (Inr (ResNone, metadata, cache))
      of
        Inl e \<Rightarrow> Inl e
      | Inr (result, metadata', cache') \<Rightarrow>
          (case finish (Timecode p start) metadata' result of
             Inl e \<Rightarrow> Inl e
           | Inr finished \<Rightarrow> Inr (finished, cache_sees (Timecode p start) finished cache')))"
  by (simp only: transcribe.simps aaf.case)

lemma transcribe_Pulldown:
  "transcribe (Suc depth) env cache (Pulldown p) parents edit_rate =
     (let metadata = initial_metadata env (Pulldown p);
          edit_rate = inherited_edit_rate (Pulldown p) edit_rate;
          below = (\<lambda>c x. transcribe depth env c x (parents @ [(Pulldown p)]) edit_rate)
      in case
        (Inr (ResNone, metadata, cache))
      of
        Inl e \<Rightarrow> Inl e
      | Inr (result, metadata', cache') \<Rightarrow>
          (case finish (Pulldown p) metadata' result of
             Inl e \<Rightarrow> Inl e
           | Inr finished \<Rightarrow> Inr (finished, cache_sees (Pulldown p) finished cache')))"
  by (simp only: transcribe.simps aaf.case)

lemma transcribe_EdgeCode:
  "transcribe (Suc depth) env cache (EdgeCode p) parents edit_rate =
     (let metadata = initial_metadata env (EdgeCode p);
          edit_rate = inherited_edit_rate (EdgeCode p) edit_rate;
          below = (\<lambda>c x. transcribe depth env c x (parents @ [(EdgeCode p)]) edit_rate)
      in case
        (Inr (ResNone, metadata, cache))
      of
        Inl e \<Rightarrow> Inl e
      | Inr (result, metadata', cache') \<Rightarrow>
          (case finish (EdgeCode p) metadata' result of
             Inl e \<Rightarrow> Inl e
           | Inr finished \<Rightarrow> Inr (finished, cache_sees (EdgeCode p) finished cache')))"
  by (simp only: transcribe.simps aaf.case)

lemma transcribe_ScopeReference:
  "transcribe (Suc depth) env cache (ScopeReference p) parents edit_rate =
     (let metadata = initial_metadata env (ScopeReference p);
          edit_rate = inherited_edit_rate (ScopeReference p) edit_rate;
          below = (\<lambda>c x. transcribe depth env c x (parents @ [(ScopeReference p)]) edit_rate)
      in case
        ((case TimeRange (Some 0) (p_length p) edit_rate of
                Inl e \<Rightarrow> Inl e
              | Inr r \<Rightarrow>
                  Inr (ResThing (Gap (new_item \<lparr> source_range := Some r \<rparr>)), metadata, cache)))
      of
        Inl e \<Rightarrow> Inl e
      | Inr (result, metadata', cache') \<Rightarrow>
          (case finish (ScopeReference p) metadata' result of
             Inl e \<Rightarrow> Inl e
           | Inr finished \<Rightarrow> Inr (finished, cache_sees (ScopeReference p) finished cache')))"
  by (simp only: transcribe.simps aaf.case)

lemma transcribe_DescriptiveMarker:
  "transcribe (Suc depth) env cache (DescriptiveMarker p d) parents edit_rate =
     (let metadata = initial_metadata env (DescriptiveMarker p d);
          edit_rate = inherited_edit_rate (DescriptiveMarker p d) edit_rate;
          below = (\<lambda>c x. transcribe depth env c x (parents @ [(DescriptiveMarker p d)]) edit_rate)
      in case
        ((case marker_result d parents metadata edit_rate of
                Inl e \<Rightarrow> Inl e
              | Inr (result, metadata') \<Rightarrow> Inr (result, metadata', cache)))
      of
        Inl e \<Rightarrow> Inl e
      | Inr (result, metadata', cache') \<Rightarrow>
          (case finish (DescriptiveMarker p d) metadata' result of
             Inl e \<Rightarrow> Inl e
           | Inr finished \<Rightarrow> Inr (finished, cache_sees (DescriptiveMarker p d) finished cache')))"
  by (simp only: transcribe.simps aaf.case)

lemma transcribe_Selector:
  "transcribe (Suc depth) env cache (Selector p selected alternates) parents edit_rate =
     (let metadata = initial_metadata env (Selector p selected alternates);
          edit_rate = inherited_edit_rate (Selector p selected alternates) edit_rate;
          below = (\<lambda>c x. transcribe depth env c x (parents @ [(Selector p selected alternates)]) edit_rate)
      in case
        (if is_Filler_or_ScopeReference selected then
               (case alternates of
                  None \<Rightarrow> Inl TypeError
                | Some alts \<Rightarrow>
                    if length alts \<noteq> 1 then
                      Inl (AAFAdapterError
                            (''AAF Selector parsing error: object has unexpected number of ''
                               @ ''alternates - '' @ str_int (int (length alts))))
                    else
                      (case below cache (alts ! 0) of
                         Inl e \<Rightarrow> Inl e
                       | Inr (result, cache') \<Rightarrow>
                           (case set_enabled False result of
                              Inl e \<Rightarrow> Inl e
                            | Inr disabled \<Rightarrow> Inr (disabled, metadata, cache'))))
             else
               (case below cache selected of
                  Inl e \<Rightarrow> Inl e
                | Inr (result, cache') \<Rightarrow>
                    if is_Gap_result result then
                      Inl (AAFAdapterError ''AAF Selector parsing error'')
                    else
                      (case alternates of
                         None \<Rightarrow> Inr (result, metadata, cache')
                       | Some alts \<Rightarrow>
                           (case transcribe_each below cache' alts of
                              Inl e \<Rightarrow> Inl e
                            | Inr (transcribed_alts, cache'') \<Rightarrow> Inr (result, metadata, cache'')))))
      of
        Inl e \<Rightarrow> Inl e
      | Inr (result, metadata', cache') \<Rightarrow>
          (case finish (Selector p selected alternates) metadata' result of
             Inl e \<Rightarrow> Inl e
           | Inr finished \<Rightarrow> Inr (finished, cache_sees (Selector p selected alternates) finished cache')))"
  by (simp only: transcribe.simps aaf.case)

lemma transcribe_Iterable:
  "transcribe (Suc depth) env cache (Iterable members) parents edit_rate =
     (let metadata = initial_metadata env (Iterable members);
          edit_rate = inherited_edit_rate (Iterable members) edit_rate;
          below = (\<lambda>c x. transcribe depth env c x (parents @ [(Iterable members)]) edit_rate)
      in case
        ((case transcribe_into below append_result (SerializableCollection []) cache members of
                Inl e \<Rightarrow> Inl e
              | Inr (result, cache') \<Rightarrow> Inr (ResThing result, metadata, cache')))
      of
        Inl e \<Rightarrow> Inl e
      | Inr (result, metadata', cache') \<Rightarrow>
          (case finish (Iterable members) metadata' result of
             Inl e \<Rightarrow> Inl e
           | Inr finished \<Rightarrow> Inr (finished, cache_sees (Iterable members) finished cache')))"
  by (simp only: transcribe.simps aaf.case)

lemma transcribe_Unknown:
  "transcribe (Suc depth) env cache Unknown parents edit_rate =
     (let metadata = initial_metadata env Unknown;
          edit_rate = inherited_edit_rate Unknown edit_rate;
          below = (\<lambda>c x. transcribe depth env c x (parents @ [Unknown]) edit_rate)
      in case
        (Inr (ResNone, metadata, cache))
      of
        Inl e \<Rightarrow> Inl e
      | Inr (result, metadata', cache') \<Rightarrow>
          (case finish Unknown metadata' result of
             Inl e \<Rightarrow> Inl e
           | Inr finished \<Rightarrow> Inr (finished, cache_sees Unknown finished cache')))"
  by (simp only: transcribe.simps aaf.case)

subsection \<open>Time warps\<close>

lemma linear_timewarp_two_points:
  assumes "get_parameter item ''PARAM_SPEED_OFFSET_MAP_U'' = Some m"
      and "get_PointList m = Some [p0, p1]"
      and "cp_time p1 \<noteq> cp_time p0"
  shows "\<exists>e. transcribe_linear_timewarp py_float item parameters = Inr e
            \<and> time_scalar e = Some ((cp_value p1 - cp_value p0) / (cp_time p1 - cp_time p0))"
  using assms
  by (simp add: transcribe_linear_timewarp_def Let_def freeze_if_zero_def set_time_scalar_def
      time_scalar_def new_LinearTimeWarp_def new_FreezeFrame_def)

lemma time_scalar_is_time_warp [simp]:
  "time_scalar (e\<lparr>eff_is_time_warp := b\<rparr>) = time_scalar e"
  by (simp add: time_scalar_def)

text \<open>
  C2.  The claim says that every time-warp OperationGroup with two control
  points on its speed-offset parameter gets the slope as time scalar.
  Evaluated on the source: \<open>_transcribe_operation_group\<close> computes the
  slope only for an operation named \<open>Motion Control\<close> whose group has a
  SpeedRatio parameter.  The speed ramp without a SpeedRatio parameter, and
  the speed ramp under an operation of another name, give a generic time
  effect, which has no time scalar.
\<close>

theorem two_control_points_without_slope:
  "map_sum (\<lambda>e. e) time_scalar
     (operation_effect (example_env []) speed_ramp_without_ratio (motion_control [])) = Inr None
   \<and> map_sum (\<lambda>e. e) time_scalar
       (operation_effect (example_env []) speed_ramp_example other_time_warp) = Inr None"
  by (simp add: operation_effect_def speed_ramp_without_ratio_def speed_ramp_example_def
      motion_control_def other_time_warp_def get_parameter_def transcribe_fancy_timewarp_def
      new_TimeEffect_def time_scalar_def)

text \<open>
  C2, amended.  For a time-warp OperationGroup whose operation is named
  \<open>Motion Control\<close> and that has a SpeedRatio parameter, when the
  speed-offset parameter carries exactly two control points (at different
  times), the effect derived by \<open>_transcribe_operation_group\<close> has the
  slope \<open>(value[1] - value[0]) / (time[1] - time[0])\<close> as time scalar,
  whatever the Parameters dictionary (and so the stored SpeedRatio) holds.  A
  time-warp OperationGroup whose operation has another name, or that has no
  SpeedRatio parameter, gets an effect without time scalar, whatever its
  control points.
\<close>

theorem motion_control_two_control_points_give_slope:
  "(op_IsTimeWarp operation \<and> op_Name operation = Some ''Motion Control''
      \<and> get_parameter item ''SpeedRatio'' \<noteq> None
      \<and> get_parameter item ''PARAM_SPEED_OFFSET_MAP_U'' = Some m
      \<and> get_PointList m = Some [p0, p1] \<and> cp_time p1 \<noteq> cp_time p0 \<longrightarrow>
      (\<exists>e. operation_effect env item operation = Inr e
          \<and> time_scalar e = Some ((cp_value p1 - cp_value p0) / (cp_time p1 - cp_time p0))))
   \<and> (op_IsTimeWarp operation
        \<and> (op_Name operation \<noteq> Some ''Motion Control''
             \<or> get_parameter item ''SpeedRatio'' = None) \<longrightarrow>
      (\<exists>e. operation_effect env item operation = Inr e \<and> time_scalar e = None))"
proof (intro conjI impI)
  assume a: "op_IsTimeWarp operation \<and> op_Name operation = Some ''Motion Control''
      \<and> get_parameter item ''SpeedRatio'' \<noteq> None
      \<and> get_parameter item ''PARAM_SPEED_OFFSET_MAP_U'' = Some m
      \<and> get_PointList m = Some [p0, p1] \<and> cp_time p1 \<noteq> cp_time p0"
  then obtain e where
    "transcribe_linear_timewarp (env_float env) item (map_of (op_Parameters operation)) = Inr e"
    and "time_scalar e = Some ((cp_value p1 - cp_value p0) / (cp_time p1 - cp_time p0))"
    using linear_timewarp_two_points [of item m p0 p1] by blast
  with a show "\<exists>e. operation_effect env item operation = Inr e
          \<and> time_scalar e = Some ((cp_value p1 - cp_value p0) / (cp_time p1 - cp_time p0))"
    by (auto simp: operation_effect_def)
next
  assume "op_IsTimeWarp operation
        \<and> (op_Name operation \<noteq> Some ''Motion Control''
             \<or> get_parameter item ''SpeedRatio'' = None)"
  then show "\<exists>e. operation_effect env item operation = Inr e \<and> time_scalar e = None"
    by (auto simp: operation_effect_def transcribe_fancy_timewarp_def new_TimeEffect_def
        time_scalar_def)
qed

text \<open>
  The speed ramp of the claim, with control points \<open>(0, 0)\<close> and
  \<open>(99/100, 1)\<close> and a stored SpeedRatio of 2: the scalar is
  \<open>1 / (99/100)\<close>.
\<close>

theorem motion_control_two_control_points_give_slope_witness:
  "\<exists>e. operation_effect (example_env []) speed_ramp_example
          (motion_control [(''SpeedRatio'', ''2'')]) = Inr e
      \<and> time_scalar e = Some (1 / (99 / 100))"
proof -
  have guard: "op_IsTimeWarp (motion_control [(''SpeedRatio'', ''2'')])
      \<and> op_Name (motion_control [(''SpeedRatio'', ''2'')]) = Some ''Motion Control''
      \<and> get_parameter speed_ramp_example ''SpeedRatio'' \<noteq> None
      \<and> get_parameter speed_ramp_example ''PARAM_SPEED_OFFSET_MAP_U''
          = Some (VaryingValue (Some [\<lparr>cp_time = 0, cp_value = 0\<rparr>,
                                      \<lparr>cp_time = 99 / 100, cp_value = 1\<rparr>]))
      \<and> get_PointList (VaryingValue (Some [\<lparr>cp_time = 0, cp_value = 0\<rparr>,
                                           \<lparr>cp_time = 99 / 100, cp_value = 1\<rparr>]))
          = Some [\<lparr>cp_time = 0, cp_value = 0\<rparr>, \<lparr>cp_time = 99 / 100, cp_value = 1\<rparr>]
      \<and> cp_time \<lparr>cp_time = 99 / 100, cp_value = 1\<rparr> \<noteq> cp_time \<lparr>cp_time = 0, cp_value = 0\<rparr>"
    by (simp add: motion_control_def get_parameter_def speed_ramp_example_def get_PointList_def)
  from motion_control_two_control_points_give_slope
         [where operation = "motion_control [(''SpeedRatio'', ''2'')]"
            and item = speed_ramp_example and env = "example_env []",
          THEN conjunct1, THEN mp, OF guard]
  show ?thesis
    by simp
qed





subsection \<open>Reading: evaluation and helper lemmas\<close>

lemmas reader_unfold =
  Let_def initial_metadata_def inherited_edit_rate_def get_name_def finish_def wrong_duration_def
  set_track_kind_def transition_result_def transition_point_list_def RationalTime_def TimeRange_def
  transcribe_operation_group_def operation_effect_def has_effects_attribute_def cache_sees_def
  or_empty_def new_item_def new_Effect_def empty_metadata_def add_child_def append_child_def
  set_enabled_def source_clip_result_def slot_id_of_def get_mob_start_tc_def
  resolve_single_slot_component_def resolve_slot_components_def physical_track_number_def
  transcribe_master_mob_def set_source_range_def transcribe_media_kind_def add_truthy_child_def
  is_truthy_def is_Gap_result_def

lemmas reader_branches =
  transcribe_ContentStorage transcribe_SourceMob transcribe_MasterMob transcribe_CompositionMob
  transcribe_SourceClip transcribe_AAFTransition transcribe_Filler transcribe_NestedScope
  transcribe_Sequence transcribe_OperationGroup transcribe_TimelineMobSlot transcribe_EventMobSlot
  transcribe_StaticMobSlot transcribe_Timecode transcribe_Pulldown transcribe_EdgeCode
  transcribe_ScopeReference transcribe_DescriptiveMarker transcribe_Selector transcribe_Iterable
  transcribe_Unknown

lemmas reader_examples =
  no_props_def component_props_def slot_props_def example_env_def dissolve_def
  muted_selector_without_alternates_def muted_selector_def self_reference_def shared_master_def
  two_references_def

lemma finish_Timeline:
  "finish item meta (ResThing (Timeline ta s))
     = Inr (ResThing (Timeline
              (ta \<lparr> tl_name := (if tl_name ta = [] then or_empty (md_Name meta) else tl_name ta),
                    tl_metadata := (case tl_metadata ta of None \<Rightarrow> Some meta | Some m \<Rightarrow> Some m) \<rparr>) s))"
  by (cases "tl_metadata ta") (simp_all add: finish_def Let_def wrong_duration_def set_track_kind_def split: option.splits)

lemma md_Name_initial: "md_Name (initial_metadata env item) = Some (get_name env item)"
  by (simp add: initial_metadata_def split: option.splits)

lemma cache_hit_CompositionMob:
  assumes "cache mob_id = Some (Timeline ta s)"
  shows "transcribe (Suc depth) env cache (CompositionMob p mob_id slots) parents edit_rate
       = Inr (ResThing (Timeline (filled_in env (CompositionMob p mob_id slots) ta) s),
              cache(mob_id \<mapsto> Timeline (filled_in env (CompositionMob p mob_id slots) ta) s))"
  using assms
  by (simp add: transcribe_CompositionMob Let_def finish_Timeline md_Name_initial or_empty_def
      cache_sees_def filled_in_def)

lemma cache_hit_MasterMob:
  assumes "cache mob_id = Some (Timeline ta s)"
  shows "transcribe (Suc depth) env cache (MasterMob p mob_id slots) parents edit_rate
       = Inr (ResThing (Timeline (filled_in env (MasterMob p mob_id slots) ta) s),
              cache(mob_id \<mapsto> Timeline (filled_in env (MasterMob p mob_id slots) ta) s))"
  using assms
  by (simp add: transcribe_MasterMob Let_def finish_Timeline md_Name_initial or_empty_def
      cache_sees_def filled_in_def)

lemma finish_ResThing:
  "finish item meta (ResThing t) = Inr r \<Longrightarrow> \<exists>t'. r = ResThing t'"
  by (auto simp: finish_def Let_def split: if_splits)

lemma cache_miss_CompositionMob:
  assumes "cache mob_id = None"
      and "transcribe (Suc depth) env cache (CompositionMob p mob_id slots) parents edit_rate
             = Inr (result, cache')"
  shows "\<exists>tracks cache1 node.
           transcribe_into
             (\<lambda>c x. transcribe depth env c x (parents @ [CompositionMob p mob_id slots])
                       (inherited_edit_rate (CompositionMob p mob_id slots) edit_rate))
             add_child (Stack new_item []) cache slots = Inr (tracks, cache1)
         \<and> result = ResThing node \<and> cache' = cache1(mob_id \<mapsto> node)"
  using assms
  by (auto simp: transcribe_CompositionMob Let_def cache_sees_def
      split: sum.splits dest!: finish_ResThing)

lemma cache_miss_MasterMob:
  assumes "cache mob_id = None"
      and "transcribe (Suc depth) env cache (MasterMob p mob_id slots) parents edit_rate
             = Inr (result, cache')"
  shows "\<exists>mob_timeline cache1 node.
           transcribe_master_mob env
             (\<lambda>c x r. transcribe depth env c x (parents @ [MasterMob p mob_id slots]) r)
             cache (MasterMob p mob_id slots) (initial_metadata env (MasterMob p mob_id slots))
             = Inr (mob_timeline, cache1)
         \<and> result = ResThing node \<and> cache' = cache1(mob_id \<mapsto> node)"
  using assms
  by (auto simp: transcribe_MasterMob Let_def cache_sees_def
      split: sum.splits dest!: finish_ResThing)

lemma self_reference_step:
  assumes mobs: "map_of (env_mobs E) ''mob-1'' = Some self_reference"
      and ih: "transcribe d E Map.empty self_reference [] (Some 24) = Inl RecursionError"
  shows "transcribe (Suc (Suc (Suc d))) E Map.empty self_reference parents edit_rate
           = Inl RecursionError"
proof -
  have comp: "is_CompositionMob self_reference"
    by (simp add: self_reference_def)
  show ?thesis
    apply (subst self_reference_def)
    apply (simp add: transcribe_CompositionMob transcribe_TimelineMobSlot
        transcribe_SourceClip Let_def inherited_edit_rate_def slot_props_def
        component_props_def no_props_def TimeRange_def RationalTime_def mobs comp ih)
    done
qed

lemma self_reference_never_returns:
  "transcribe depth (example_env [(''mob-1'', self_reference)]) Map.empty self_reference parents edit_rate
     = Inl RecursionError"
proof (induction depth arbitrary: parents edit_rate rule: less_induct)
  case (less depth)
  have mobs: "map_of (env_mobs (example_env [(''mob-1'', self_reference)])) ''mob-1'' = Some self_reference"
    by (simp add: example_env_def)
  consider "depth = 0" | "depth = Suc 0" | "depth = Suc (Suc 0)"
    | d where "depth = Suc (Suc (Suc d))"
    by (metis not0_implies_Suc)
  then show ?case
  proof cases
    case 1
    then show ?thesis by simp
  next
    case 2
    then show ?thesis
      by (simp add: self_reference_def transcribe_CompositionMob Let_def)
  next
    case 3
    then show ?thesis
      by (simp add: self_reference_def transcribe_CompositionMob transcribe_TimelineMobSlot Let_def)
  next
    case 4
    have "d < depth" using 4 by simp
    from self_reference_step [OF mobs less.IH [OF this]] 4
    show ?thesis by simp
  qed
qed





subsection \<open>Markers: evaluation and helper lemmas\<close>

lemmas marker_unfold =
  Let_def attach_marker_def target_of_def build_tracks_map_def track_key_def remove_marker_def
  append_marker_def marked_from_def has_markers_def markers_at_def

lemmas marker_examples =
  unit_lib_def no_available_range_lib_def marker_for_def slot_track_def lost_def late_def hit_def
  marked_stack_def attached_stack_def attached_stack_without_ranges_def clip_named_def
  new_item_def empty_metadata_def new_timeline_def

lemma children_map_item_attrs [simp]: "children (map_item_attrs f t) = children t"
  by (cases t) simp_all

lemma is_Item_map_item_attrs [simp]: "is_Item (map_item_attrs f t) = is_Item t"
  by (cases t) simp_all

lemma markers_map_item_attrs:
  "item_attrs_of (map_item_attrs f t) = map_option f (item_attrs_of t)"
  by (cases t) simp_all

lemma children_map_child:
  "children (map_child i f t) = (if i < length (children t) then (children t)[i := f (children t ! i)] else children t)"
  by (cases t) simp_all

lemma item_attrs_of_map_child [simp]: "item_attrs_of (map_child i f t) = item_attrs_of t"
  by (cases t) simp_all

lemma markers_at_update:
  "markers_at (update_at (map_item_attrs (\<lambda>a. a\<lparr>markers := h (markers a)\<rparr>)) p t) q
     = (if q = p \<and> has_markers t p then h (markers_at t p) else markers_at t q)"
proof (induction p arbitrary: t q)
  case Nil
  show ?case
    by (cases q; cases t) (simp_all add: markers_at_def has_markers_def)
next
  case (Cons i p)
  show ?case
  proof (cases q)
    case Nil
    then show ?thesis by (simp add: markers_at_def)
  next
    case (Cons j q')
    have step: "markers_at t (k # r) = (if k < length (children t) then markers_at (children t ! k) r else [])" for t k r
      by (simp add: markers_at_def)
    have hstep: "has_markers t (k # r) = (k < length (children t) \<and> has_markers (children t ! k) r)" for t k r
      by (simp add: has_markers_def)
    show ?thesis
      unfolding Cons
      by (simp add: step hstep children_map_child Cons.IH nth_list_update)
  qed
qed


lemma has_markers_update:
  "has_markers (update_at (map_item_attrs f) p t) q = has_markers t q"
proof (induction p arbitrary: t q)
  case Nil
  show ?case
    by (cases q) (simp_all add: has_markers_def)
next
  case (Cons i p)
  have hstep: "has_markers t (k # r) = (k < length (children t) \<and> has_markers (children t ! k) r)" for t k r
    by (simp add: has_markers_def)
  have is_Item_map_child: "is_Item (map_child i g t) = is_Item t" for g
    by (cases t) simp_all
  show ?case
  proof (cases q)
    case Nil
    then show ?thesis by (simp add: has_markers_def is_Item_map_child)
  next
    case (Cons j q')
    show ?thesis
      unfolding Cons
      by (simp add: hstep children_map_child Cons.IH nth_list_update)
  qed
qed

lemma markers_at_no_markers: "\<not> has_markers t p \<Longrightarrow> markers_at t p = []"
  by (cases "thing_at t p"; cases "the (thing_at t p)") (simp_all add: has_markers_def markers_at_def)

lemma markers_at_remove_marker:
  "markers_at (remove_marker p mk t) q
     = (if q = p then remove1 mk (markers_at t q) else markers_at t q)"
  unfolding remove_marker_def
  by (simp add: markers_at_update [where h = "remove1 mk"] markers_at_no_markers)

lemma moved_onto_append_remove:
  assumes "has_markers stack owner"
  shows "moved_onto (append_marker owner mk' (remove_marker current_track mk stack))
           stack current_track mk owner mk'"
proof -
  have "has_markers (remove_marker current_track mk stack) owner"
    using assms by (simp add: remove_marker_def has_markers_update)
  then show ?thesis
    unfolding moved_onto_def append_marker_def
    by (simp add: markers_at_update [where h = "\<lambda>ms. ms @ [mk']"] markers_at_remove_marker)
qed

subsection \<open>Simplifier: shapes of the result\<close>

lemma is_Track_map_item_attrs [simp]: "is_Track (map_item_attrs f t) = is_Track t"
  by (cases t) simp_all

lemma is_Stack_map_item_attrs [simp]: "is_Stack (map_item_attrs f t) = is_Stack t"
  by (cases t) simp_all

lemma ensure_stack_tracks_all_tracks: "list_all is_Track (ensure_stack_tracks cs)"
  by (induction cs) (simp_all add: ensure_stack_tracks_def wrap_in_track_def Let_def)

lemma ensure_stack_tracks_id: "list_all is_Track cs \<Longrightarrow> ensure_stack_tracks cs = cs"
  by (induction cs) (simp_all add: ensure_stack_tracks_def)

lemma trim_stack_tracks_all_tracks:
  "trim_stack_tracks L r cs = Inr cs' \<Longrightarrow> list_all is_Track cs'"
proof (induction cs arbitrary: cs')
  case Nil
  then show ?case by simp
next
  case (Cons c cs)
  then show ?case
    by (auto split: sum.splits thing.splits)
qed

lemma collapse_redundant_kind:
  assumes "collapse_redundant L thing = Inr result"
  shows "is_Stack result = is_Stack (children thing ! 0)"
    and "is_Track result = is_Track (children thing ! 0)"
  using assms
  by (auto simp: collapse_redundant_def Let_def split: option.splits sum.splits py_error.splits)

lemma finish_stack_tracks:
  assumes "finish_composition L parents (Stack a cs) = Inr (result, in_place)"
      and "list_all is_Track cs"
  shows "(\<exists>a' cs'. in_place = Stack a' cs' \<and> list_all is_Track cs')
       \<and> (is_Stack result \<longrightarrow> (\<exists>a' cs'. result = Stack a' cs' \<and> list_all is_Track cs'))"
proof (cases "is_redundant_container parents (Stack a cs)")
  case True
  then have len: "length cs = 1"
    by (auto simp: is_redundant_container_def split: if_splits)
  with assms(2) have "is_Track (cs ! 0)" by (cases cs) auto
  moreover from True assms(1) have c: "collapse_redundant L (Stack a cs) = Inr result" and ip: "in_place = Stack a cs"
    by (auto simp: finish_composition_def split: sum.splits)
  ultimately have "is_Track result"
    using collapse_redundant_kind(2) [OF c] by simp
  then have "\<not> is_Stack result" by (cases result) simp_all
  with ip assms(2) show ?thesis by simp
next
  case False
  with assms show ?thesis
    by (auto simp: finish_composition_def ensure_stack_tracks_all_tracks split: if_splits)
qed

lemma simplify_stack_tracks:
  assumes "simplify_stack L parents a cs = Inr (result, in_place)"
  shows "(\<exists>a' cs'. in_place = Stack a' cs' \<and> list_all is_Track cs')
       \<and> (is_Stack result \<longrightarrow> (\<exists>a' cs'. result = Stack a' cs' \<and> list_all is_Track cs'))"
proof -
  from assms obtain a' flat where
    loop: "stack_flatten_loop a (filter contains_something_valuable cs)
             (int (length (filter contains_something_valuable cs)) - 1) = Inr (a', flat)"
    by (auto simp: simplify_stack_def Let_def split: sum.splits)
  let ?tracks = "ensure_stack_tracks flat"
  have t: "list_all is_Track ?tracks"
    by (rule ensure_stack_tracks_all_tracks)
  consider
    (untrimmed) "finish_composition L parents (Stack a' ?tracks) = Inr (result, in_place)"
  | (trimmed) r trimmed where "trim_stack_tracks L r ?tracks = Inr trimmed"
      "finish_composition L parents
         (Stack (a'\<lparr>source_range := Some (TimeRange_duration (duration r))\<rparr>) trimmed)
       = Inr (result, in_place)"
    using assms loop
    by (auto simp: simplify_stack_def Let_def split: sum.splits option.splits if_splits)
  then show ?thesis
  proof cases
    case untrimmed
    from finish_stack_tracks [OF untrimmed t] show ?thesis .
  next
    case trimmed
    from finish_stack_tracks [OF trimmed(2) trim_stack_tracks_all_tracks [OF trimmed(1)]]
    show ?thesis .
  qed
qed

lemma simplify_timeline_tracks:
  assumes "simplify L (Timeline ta (Stack a cs)) = Inr result"
  shows "\<exists>ta' a' cs'. result = Timeline ta' (Stack a' cs') \<and> list_all is_Track cs'"
proof (cases "cs = []")
  case True
  with assms show ?thesis by (auto simp: simplify_def)
next
  case False
  with assms obtain cs1 r ip where
    st: "simplify_stack L [] a cs1 = Inr (r, ip)"
    and res: "result = (if is_Stack r then Timeline ta r else Timeline ta ip)"
    by (auto simp: simplify_def split: sum.splits if_splits)
  from simplify_stack_tracks [OF st] res show ?thesis
    by (cases "is_Stack r") auto
qed

lemmas simplify_unfold =
  simplify_def simplify_stack_def simplify_track_def stack_flatten_loop.simps
  track_flatten_loop.simps finish_composition_def is_redundant_container_def
  stack_item_can_be_flatten_def track_item_can_flatten_def ensure_stack_tracks_def
  wrap_in_track_def valuable_metadata_def has_effects_def has_transitions_def
  collapse_redundant_def new_item_def flattened_stack_def
  trim_to_own_range_def merge_into_single_child_def absorb_effects_def has_time_effect_def
  Let_def

lemmas example_defs =
  a_timeline_def a_track_def a_stack_def a_clip_def clip_named_def new_timeline_def
  blur_def new_Effect_def

text \<open>
  C5 (as amended).  Whenever simplifying a Timeline succeeds, the result is a
  Timeline whose root stack holds Tracks only: the top-level Track is kept, and
  a clip directly under the root stack is wrapped in a synthetic Track carrying
  its name.  \<open>Track[Stack[Track[Clip]]]\<close> under the root stack simplifies to
  \<open>Track[Clip]\<close>, and so does \<open>Track[Stack[Track[Track[Clip]]]]\<close>.
\<close>

theorem root_children_are_tracks:
  "(\<forall>L ta a cs result.
      simplify L (Timeline ta (Stack a cs)) = Inr result \<longrightarrow>
      (\<exists>ta' a' cs'. result = Timeline ta' (Stack a' cs') \<and> list_all is_Track cs'))
   \<and> (\<forall>L. simplify L (a_timeline [a_track [a_stack [a_track [a_clip]]]])
            = Inr (a_timeline [a_track [a_clip]]))
   \<and> (\<forall>L. simplify L (a_timeline [a_track [a_stack [a_track [a_track [a_clip]]]]])
            = Inr (a_timeline [a_track [a_clip]]))
   \<and> (\<forall>L. simplify L (a_timeline [clip_named ''A'', a_track [a_clip]])
            = Inr (a_timeline [Track (new_item \<lparr> name := ''A'' \<rparr>) ''Video'' [clip_named ''A''],
                               a_track [a_clip]]))"
proof (intro conjI allI impI)
  fix L ta a cs result
  assume "simplify L (Timeline ta (Stack a cs)) = Inr result"
  then show "\<exists>ta' a' cs'. result = Timeline ta' (Stack a' cs') \<and> list_all is_Track cs'"
    by (rule simplify_timeline_tracks)
next
  fix L
  show "simplify L (a_timeline [a_track [a_stack [a_track [a_clip]]]])
          = Inr (a_timeline [a_track [a_clip]])"
    by (simp add: example_defs simplify_unfold)
next
  fix L
  show "simplify L (a_timeline [a_track [a_stack [a_track [a_track [a_clip]]]]])
          = Inr (a_timeline [a_track [a_clip]])"
    by (simp add: example_defs simplify_unfold)
next
  fix L
  show "simplify L (a_timeline [clip_named ''A'', a_track [a_clip]])
          = Inr (a_timeline [Track (new_item \<lparr> name := ''A'' \<rparr>) ''Video'' [clip_named ''A''],
                             a_track [a_clip]])"
    by (simp add: example_defs simplify_unfold)
qed

theorem root_children_are_tracks_witness:
  "simplify keep_all_lib (Timeline new_timeline (Stack new_item [a_clip, a_stack [a_clip, a_clip]]))
     = Inr (a_timeline [a_track [a_clip], a_track [a_clip], a_track [a_clip]])
   \<and> (\<exists>ta' a' cs'.
         a_timeline [a_track [a_clip], a_track [a_clip], a_track [a_clip]]
           = Timeline ta' (Stack a' cs') \<and> list_all is_Track cs')"
proof -
  have run: "simplify keep_all_lib (Timeline new_timeline (Stack new_item [a_clip, a_stack [a_clip, a_clip]]))
     = Inr (a_timeline [a_track [a_clip], a_track [a_clip], a_track [a_clip]])"
    by (simp add: example_defs simplify_unfold)
  with root_children_are_tracks show ?thesis
    by blast
qed

text \<open>
  The claim as written expects \<open>Track[Stack[Track[Track[Clip]]]]\<close> to become
  \<open>Track[Track[Clip]]\<close>; the simplifier returns \<open>Track[Clip]\<close>.
\<close>

theorem nested_tracks_collapse_fully:
  "simplify keep_all_lib (a_timeline [a_track [a_stack [a_track [a_track [a_clip]]]]])
     \<noteq> Inr (a_timeline [a_track [a_track [a_clip]]])"
  by (simp add: example_defs simplify_unfold)


text \<open>
  C1.  The claim says that on a cache miss the result is inserted into the
  cache before the children of the mob are transcribed, which would guard
  against reference cycles.  In the source the insertion is the last statement
  of both mob branches, after the children.  On a composition mob whose slot
  holds a SourceClip that refers back to the composition itself, the cache is
  never written and the transcription ends with the recursion limit, whatever
  that limit is.
\<close>

theorem self_reference_exhausts_recursion:
  "transcribe 1000 (example_env [(''mob-1'', self_reference)]) Map.empty self_reference [] None
     = Inl RecursionError"
  by (rule self_reference_never_returns)

text \<open>
  C1, amended.  For every Master or Composition mob the cache is consulted
  first.  On a hit the cached timeline is returned, with the name and the
  metadata of the mob filled in where it has none, whatever the slots of the
  mob and the depth left: no child is transcribed.  On a miss that returns,
  the children have been transcribed first, from the cache that does not hold
  the mob, and the cache returned is the one the children left, with the mob
  ID mapped to the node returned.  Nothing guards against reference cycles:
  the self-referencing composition raises RecursionError at every depth.
\<close>

theorem mob_cached_after_children:
  "(cache mob_id = Some (Timeline ta s) \<longrightarrow>
      transcribe (Suc depth) env cache (CompositionMob p mob_id slots) parents edit_rate
        = Inr (ResThing (Timeline (filled_in env (CompositionMob p mob_id slots) ta) s),
               cache(mob_id \<mapsto> Timeline (filled_in env (CompositionMob p mob_id slots) ta) s))
    \<and> transcribe (Suc depth) env cache (MasterMob p mob_id slots) parents edit_rate
        = Inr (ResThing (Timeline (filled_in env (MasterMob p mob_id slots) ta) s),
               cache(mob_id \<mapsto> Timeline (filled_in env (MasterMob p mob_id slots) ta) s)))
   \<and> (cache mob_id = None
        \<and> transcribe (Suc depth) env cache (CompositionMob p mob_id slots) parents edit_rate
            = Inr (result, cache') \<longrightarrow>
      (\<exists>tracks cache1 node.
          transcribe_into
            (\<lambda>c x. transcribe depth env c x (parents @ [CompositionMob p mob_id slots])
                      (inherited_edit_rate (CompositionMob p mob_id slots) edit_rate))
            add_child (Stack new_item []) cache slots = Inr (tracks, cache1)
        \<and> result = ResThing node \<and> cache' = cache1(mob_id \<mapsto> node)))
   \<and> (cache mob_id = None
        \<and> transcribe (Suc depth) env cache (MasterMob p mob_id slots) parents edit_rate
            = Inr (result, cache') \<longrightarrow>
      (\<exists>mob_timeline cache1 node.
          transcribe_master_mob env
            (\<lambda>c x r. transcribe depth env c x (parents @ [MasterMob p mob_id slots]) r)
            cache (MasterMob p mob_id slots) (initial_metadata env (MasterMob p mob_id slots))
            = Inr (mob_timeline, cache1)
        \<and> result = ResThing node \<and> cache' = cache1(mob_id \<mapsto> node)))
   \<and> transcribe limit (example_env [(''mob-1'', self_reference)]) Map.empty self_reference
        callers rate = Inl RecursionError"
  using cache_hit_CompositionMob [of cache mob_id ta s depth env p slots parents edit_rate]
    cache_hit_MasterMob [of cache mob_id ta s depth env p slots parents edit_rate]
    cache_miss_CompositionMob [of cache mob_id depth env p slots parents edit_rate result cache']
    cache_miss_MasterMob [of cache mob_id depth env p slots parents edit_rate result cache']
    self_reference_never_returns [of limit callers rate]
  by blast

text \<open>
  The two references to one master mob: the composition is a miss and ends in
  the cache under its own ID, next to the master mob; read again with that
  cache, the composition is a hit, whatever depth is left.
\<close>

theorem mob_cached_after_children_witness:
  "\<exists>node cache'.
      transcribe (Suc (Suc (Suc (Suc (Suc 0))))) (example_env [(''mob-2'', shared_master)])
        Map.empty two_references [] None = Inr (ResThing node, cache')
    \<and> cache' ''mob-3'' = Some node \<and> cache' ''mob-2'' \<noteq> None
    \<and> (\<exists>ta s. node = Timeline ta s
          \<and> transcribe (Suc 0) (example_env [(''mob-2'', shared_master)]) cache' two_references
              [] None = Inr (ResThing node, cache'))"
proof -
  let ?env = "example_env [(''mob-2'', shared_master)]"
  let ?p = "no_props ''CompositionMob'' \<lparr> p_name := Some ''cut'' \<rparr>"
  let ?slots = "[TimelineMobSlot (slot_props 1)
                   (SourceClip (component_props ''SourceClip'' 24) (Some ''mob-2'') 1 (Some 0)),
                 TimelineMobSlot (slot_props 2)
                   (SourceClip (component_props ''SourceClip'' 24) (Some ''mob-2'') 1 (Some 0))]"
  have shape: "two_references = CompositionMob ?p ''mob-3'' ?slots"
    by (simp add: two_references_def)
  obtain ta s cache' where
    run: "transcribe (Suc (Suc (Suc (Suc (Suc 0))))) ?env Map.empty two_references [] None
            = Inr (ResThing (Timeline ta s), cache')"
    and master: "cache' ''mob-2'' \<noteq> None"
    and named: "tl_name ta \<noteq> []" "tl_metadata ta \<noteq> None"
    by (simp add: reader_branches reader_unfold reader_examples)
  have miss: "Map.empty ''mob-3'' = None
      \<and> transcribe (Suc (Suc (Suc (Suc (Suc 0))))) ?env Map.empty
            (CompositionMob ?p ''mob-3'' ?slots) [] None = Inr (ResThing (Timeline ta s), cache')"
    using run [unfolded shape] by simp
  from mob_cached_after_children
         [where cache = Map.empty and mob_id = "''mob-3''" and env = ?env and p = ?p
            and slots = ?slots and parents = "[]" and edit_rate = None
            and depth = "Suc (Suc (Suc (Suc 0)))" and result = "ResThing (Timeline ta s)"
            and cache' = cache', THEN conjunct2, THEN conjunct1, THEN mp, OF miss]
  obtain cache1 node where "ResThing (Timeline ta s) = ResThing node"
    and "cache' = cache1(''mob-3'' \<mapsto> node)"
    by blast
  then have cached: "cache' ''mob-3'' = Some (Timeline ta s)"
    by simp
  from named have filled: "filled_in ?env (CompositionMob ?p ''mob-3'' ?slots) ta = ta"
    by (auto simp: filled_in_def)
  from cached have same: "cache'(''mob-3'' \<mapsto> Timeline ta s) = cache'"
    by (rule map_upd_triv)
  from mob_cached_after_children
         [where cache = cache' and mob_id = "''mob-3''" and ta = ta and s = s and env = ?env
            and p = ?p and slots = ?slots and parents = "[]" and edit_rate = None
            and depth = 0, THEN conjunct1, THEN mp, OF cached, THEN conjunct1]
  have again:
    "transcribe (Suc 0) ?env cache' two_references [] None = Inr (ResThing (Timeline ta s), cache')"
    by (simp only: filled same shape)
  from run cached master again show ?thesis
    by blast
qed


subsection \<open>Simplifying flat timelines: helper lemmas\<close>

lemma simplify_children_leaves:
  "list_all is_leaf cs \<Longrightarrow> simplify_children L parents cs = Inr cs"
proof (induction cs)
  case Nil
  show ?case by simp
next
  case (Cons c cs)
  then have "simplify2 L parents c = Inr (c, c)"
    by (cases c) simp_all
  with Cons show ?case by simp
qed

lemma leaf_cannot_flatten: "is_leaf t \<Longrightarrow> \<not> track_item_can_flatten t"
  by (cases t) (simp_all add: track_item_can_flatten_def)

lemma track_flatten_loop_leaves:
  assumes "list_all is_leaf cs"
  shows "c < int (length cs) \<Longrightarrow> track_flatten_loop L a cs c = Inr (a, cs)"
proof (induction "nat (c + 1)" arbitrary: c)
  case 0
  then have "c < 0" by simp
  then show ?case by (simp add: track_flatten_loop.simps)
next
  case (Suc n)
  then have c: "0 \<le> c" "nat c < length cs" by simp_all
  with assms have "is_leaf (cs ! nat c)" by (simp add: list_all_length)
  then have no: "\<not> track_item_can_flatten (cs ! nat c)" by (rule leaf_cannot_flatten)
  have "track_flatten_loop L a cs (c - 1) = Inr (a, cs)"
    using Suc by (intro Suc(1)) simp_all
  with c no show ?case
    by (subst track_flatten_loop.simps) simp
qed

lemma flat_track_unchanged:
  assumes "flat_track t"
  shows "simplify2 L [KStack] t = Inr (t, t)"
proof -
  from assms obtain a k cs where t: "t = Track a k cs" and leaves: "list_all is_leaf cs"
    by (cases t) simp_all
  show ?thesis
  proof (cases "cs = []")
    case True
    with t show ?thesis by simp
  next
    case False
    have loop: "track_flatten_loop L a cs (int (length cs) - 1) = Inr (a, cs)"
      using track_flatten_loop_leaves [OF leaves] by simp
    have "\<not> is_Track (cs ! 0)"
      using leaves False by (cases cs; cases "hd cs") simp_all
    then have "\<not> is_redundant_container [KStack] (Track a k cs)"
      by (simp add: is_redundant_container_def)
    then have "finish_composition L [KStack] (Track a k cs) = Inr (Track a k cs, Track a k cs)"
      by (simp add: finish_composition_def)
    with False t loop show ?thesis
      by (simp add: simplify_children_leaves [OF leaves] simplify_track_def)
  qed
qed

lemma simplify_children_flat_tracks:
  "list_all flat_track ts \<Longrightarrow> simplify_children L [KStack] ts = Inr ts"
  by (induction ts) (simp_all add: flat_track_unchanged)

lemma flat_track_stays_in_stack: "flat_track t \<Longrightarrow> \<not> stack_item_can_be_flatten t"
proof -
  assume "flat_track t"
  then obtain a k cs where t: "t = Track a k cs" and leaves: "list_all is_leaf cs"
    by (cases t) simp_all
  have "\<not> is_Stack (cs ! 0)" if "length cs = 1"
    using leaves that by (cases cs; cases "hd cs") simp_all
  with t show ?thesis
    by (auto simp: stack_item_can_be_flatten_def Let_def)
qed

lemma stack_flatten_loop_flat_tracks:
  assumes "list_all flat_track ts"
  shows "c < int (length ts) \<Longrightarrow> stack_flatten_loop a ts c = Inr (a, ts)"
proof (induction "nat (c + 1)" arbitrary: c)
  case 0
  then have "c < 0" by simp
  then show ?case by (simp add: stack_flatten_loop.simps)
next
  case (Suc n)
  then have c: "0 \<le> c" "nat c < length ts" by simp_all
  with assms have "flat_track (ts ! nat c)" by (simp add: list_all_length)
  then have no: "\<not> stack_item_can_be_flatten (ts ! nat c)" by (rule flat_track_stays_in_stack)
  have "stack_flatten_loop a ts (c - 1) = Inr (a, ts)"
    using Suc by (intro Suc(1)) simp_all
  with c no show ?case
    by (subst stack_flatten_loop.simps) simp
qed

lemma flat_track_is_Track: "flat_track t \<Longrightarrow> is_Track t"
  by (cases t) simp_all

lemma flat_tracks_are_tracks: "list_all flat_track ts \<Longrightarrow> list_all is_Track ts"
  by (induction ts) (simp_all add: flat_track_is_Track)

lemma finish_flat_stack:
  assumes "list_all flat_track ts" and "source_range a = None"
  shows "\<exists>result. finish_composition L [] (Stack a ts) = Inr (result, Stack a ts)
           \<and> (is_Stack result \<longrightarrow> result = Stack a ts)"
proof (cases "is_redundant_container [] (Stack a ts)")
  case True
  then have "length ts = 1"
    by (auto simp: is_redundant_container_def split: if_splits)
  then obtain t where ts: "ts = [t]" by (cases ts) auto
  with assms(1) obtain ta k cs where t: "t = Track ta k cs" by (cases t) simp_all
  show ?thesis
    using True assms(2)
    by (simp add: finish_composition_def collapse_redundant_def ts t)
next
  case False
  then show ?thesis
    using flat_tracks_are_tracks [OF assms(1)]
    by (simp add: finish_composition_def ensure_stack_tracks_id)
qed

lemma simplify_flat_stack:
  assumes "list_all flat_track ts" and "source_range a = None"
  shows "\<exists>result. simplify2 L [] (Stack a ts)
                    = Inr (result, Stack a (filter contains_something_valuable ts))
           \<and> (is_Stack result \<longrightarrow> result = Stack a (filter contains_something_valuable ts))"
proof (cases "ts = []")
  case True
  then show ?thesis by simp
next
  case False
  let ?kept = "filter contains_something_valuable ts"
  have kept: "list_all flat_track ?kept"
    using assms(1) by (simp add: list_all_iff)
  have loop: "stack_flatten_loop a ?kept (int (length ?kept) - 1) = Inr (a, ?kept)"
    using stack_flatten_loop_flat_tracks [OF kept] by simp
  from finish_flat_stack [OF kept assms(2)] False loop assms(2) show ?thesis
    by (simp add: simplify_children_flat_tracks [OF assms(1)] simplify_stack_def
        ensure_stack_tracks_id [OF flat_tracks_are_tracks [OF kept]])
qed


lemma flat_timeline_idempotent:
  assumes "flat_timeline T"
  shows "simplify L T = Inr (without_worthless_tracks T)
         \<and> simplify L (without_worthless_tracks T) = Inr (without_worthless_tracks T)"
proof -
  from assms obtain ta a ts where T: "T = Timeline ta (Stack a ts)"
    and none: "source_range a = None" and flat: "list_all flat_track ts"
    by (cases T rule: flat_timeline.cases) simp_all
  let ?kept = "filter contains_something_valuable ts"
  have step: "simplify L (Timeline ta (Stack a us))
                = Inr (Timeline ta (Stack a (filter contains_something_valuable us)))"
    if "list_all flat_track us" for us
    using simplify_flat_stack [OF that none, of L]
    by (auto simp: simplify_def)
  have kept: "list_all flat_track ?kept"
    using flat by (simp add: list_all_iff)
  from step [OF flat] step [OF kept] T show ?thesis
    by simp
qed


subsection \<open>Simplifying plain timelines: helper lemmas\<close>

lemma flattened_tracks_append [simp]:
  "flattened_tracks (xs @ ys) = flattened_tracks xs @ flattened_tracks ys"
  by (simp add: flattened_tracks_def)

lemma flattened_tracks_none:
  "\<forall>d\<in>set ds. \<not> track_item_can_flatten d \<Longrightarrow> flattened_tracks ds = ds"
  by (induction ds) (simp_all add: flattened_tracks_def)

lemma flattened_stacks_append [simp]:
  "flattened_stacks (xs @ ys) = flattened_stacks xs @ flattened_stacks ys"
  by (simp add: flattened_stacks_def)

lemma flattened_stacks_none:
  "\<forall>d\<in>set ds. \<not> stack_item_can_be_flatten d \<Longrightarrow> flattened_stacks ds = ds"
  by (induction ds) (simp_all add: flattened_stacks_def)

lemma absorb_no_effects:
  "item_attrs_of x \<noteq> None \<Longrightarrow> absorb_effects x [] None = Inr x"
  by (cases x) (simp_all add: absorb_effects_def fix_time_effect_duration_def)

lemma track_flatten_loop_flattens:
  "(\<forall>r\<in>set rs. track_item_can_flatten r \<longrightarrow>
       (\<exists>ra k ds. r = Track ra k ds \<and> markers ra = [] \<and> enabled ra \<and> effects ra = []
          \<and> source_range ra = None
          \<and> (\<forall>d\<in>set ds. \<not> track_item_can_flatten d \<and> item_attrs_of d \<noteq> None)))
   \<Longrightarrow> c < int (length rs)
   \<Longrightarrow> track_flatten_loop L a rs c
         = Inr (a, flattened_tracks (take (nat (c + 1)) rs) @ drop (nat (c + 1)) rs)"
proof (induction L a rs c rule: track_flatten_loop.induct)
  case (1 L a cs c)
  show ?case
  proof (cases "c < 0")
    case True
    then show ?thesis
      by (subst track_flatten_loop.simps) (simp add: flattened_tracks_def)
  next
    case False
    with 1(4) have c: "0 \<le> c" "nat c < length cs" "\<not> length cs \<le> nat c" by simp_all
    have split: "take (nat (c + 1)) cs = take (nat c) cs @ [cs ! nat c]"
      using c by (simp add: nat_add_distrib take_Suc_conv_app_nth)
    have dropc: "drop (nat (c + 1)) cs = drop (Suc (nat c)) cs"
      using c by (simp add: nat_add_distrib)
    show ?thesis
    proof (cases "track_item_can_flatten (cs ! nat c)")
      case no: False
      have "track_flatten_loop L a cs (c - 1)
              = Inr (a, flattened_tracks (take (nat (c - 1 + 1)) cs) @ drop (nat (c - 1 + 1)) cs)"
        using 1(1) [OF False c(3) no 1(3)] 1(4) by simp
      moreover have "drop (nat c) cs = cs ! nat c # drop (Suc (nat c)) cs"
        using c by (simp add: Cons_nth_drop_Suc)
      ultimately show ?thesis
        using c no False
        by (subst track_flatten_loop.simps) (simp add: split dropc flattened_tracks_def)
    next
      case yes: True
      from 1(3) yes c obtain ra k ds where
        r: "cs ! nat c = Track ra k ds" and ra: "markers ra = []" "enabled ra" "effects ra = []"
          "source_range ra = None"
        and ds: "\<forall>d\<in>set ds. \<not> track_item_can_flatten d \<and> item_attrs_of d \<noteq> None"
        by (metis nth_mem)
      have trim: "trim_to_own_range L (cs ! nat c) = Inr (Track ra k ds)"
        by (simp add: trim_to_own_range_def r ra)
      have merge: "merge_into_single_child ra ds = Inr ds"
        using ds ra by (auto simp: merge_into_single_child_def absorb_no_effects split: list.splits)
      let ?nl = "take (nat c) cs @ ds @ drop (Suc (nat c)) cs"
      let ?a = "a\<lparr>markers := markers a @ markers ra, enabled := enabled a \<and> enabled ra\<rparr>"
      have a: "?a = a" using ra by simp
      have ok: "\<forall>r\<in>set ?nl. track_item_can_flatten r \<longrightarrow>
          (\<exists>ra k ds. r = Track ra k ds \<and> markers ra = [] \<and> enabled ra \<and> effects ra = []
             \<and> source_range ra = None
             \<and> (\<forall>d\<in>set ds. \<not> track_item_can_flatten d \<and> item_attrs_of d \<noteq> None))"
        using 1(3) ds by (auto dest: in_set_takeD in_set_dropD)
      have idx: "c + int (length ds) - 1 < int (length ?nl)"
        using c by simp
      have ih: "track_flatten_loop L ?a ?nl (c + int (length ds) - 1)
              = Inr (?a, flattened_tracks (take (nat (c + int (length ds) - 1 + 1)) ?nl)
                         @ drop (nat (c + int (length ds) - 1 + 1)) ?nl)"
        using 1(2) [OF False c(3) _ trim _ merge ok idx] yes by simp
      have n: "nat (c + int (length ds) - 1 + 1) = nat c + length ds"
        using c by (simp add: nat_add_distrib)
      have tk: "take (nat c + length ds) ?nl = take (nat c) cs @ ds"
        using c by simp
      have dr: "drop (nat c + length ds) ?nl = drop (Suc (nat c)) cs"
        using c by simp
      have fl: "flattened_tracks ds = ds"
        using ds by (simp add: flattened_tracks_none)
      have one: "flattened_tracks [cs ! nat c] = ds"
        using yes r by (simp add: flattened_tracks_def)
      have ih': "track_flatten_loop L a ?nl (c + int (length ds) - 1)
              = Inr (a, flattened_tracks (take (nat c) cs) @ ds @ drop (Suc (nat c)) cs)"
        using ih unfolding a n tk dr by (simp add: fl)
      show ?thesis
        using c yes trim merge ih'
        by (subst track_flatten_loop.simps)
           (simp add: r a one [unfolded r] split dropc del: take_append drop_append)
    qed
  qed
qed


lemma stack_flatten_loop_flattens:
  "(\<forall>r\<in>set rs. stack_item_can_be_flatten r \<longrightarrow>
       (\<exists>ra ds. flattened_stack r = Stack ra ds \<and> markers ra = [] \<and> enabled ra
          \<and> (\<forall>d\<in>set ds. \<not> stack_item_can_be_flatten d)))
   \<Longrightarrow> c < int (length rs)
   \<Longrightarrow> stack_flatten_loop a rs c
         = Inr (a, flattened_stacks (take (nat (c + 1)) rs) @ drop (nat (c + 1)) rs)"
proof (induction a rs c rule: stack_flatten_loop.induct)
  case (1 a cs c)
  show ?case
  proof (cases "c < 0")
    case True
    then show ?thesis
      by (subst stack_flatten_loop.simps) (simp add: flattened_stacks_def)
  next
    case False
    with 1(4) have c: "0 \<le> c" "nat c < length cs" "\<not> length cs \<le> nat c" by simp_all
    have split: "take (nat (c + 1)) cs = take (nat c) cs @ [cs ! nat c]"
      using c by (simp add: nat_add_distrib take_Suc_conv_app_nth)
    have dropc: "drop (nat (c + 1)) cs = drop (Suc (nat c)) cs"
      using c by (simp add: nat_add_distrib)
    show ?thesis
    proof (cases "stack_item_can_be_flatten (cs ! nat c)")
      case no: False
      have "stack_flatten_loop a cs (c - 1)
              = Inr (a, flattened_stacks (take (nat (c - 1 + 1)) cs) @ drop (nat (c - 1 + 1)) cs)"
        using 1(2) [OF False c(3) no 1(3)] 1(4) by simp
      moreover have "drop (nat c) cs = cs ! nat c # drop (Suc (nat c)) cs"
        using c by (simp add: Cons_nth_drop_Suc)
      ultimately show ?thesis
        using c no False
        by (subst stack_flatten_loop.simps) (simp add: split dropc flattened_stacks_def)
    next
      case yes: True
      from 1(3) yes c obtain ra ds where
        r: "flattened_stack (cs ! nat c) = Stack ra ds" and ra: "markers ra = []" "enabled ra"
        and ds: "\<forall>d\<in>set ds. \<not> stack_item_can_be_flatten d"
        by (metis nth_mem)
      let ?nl = "take (nat c) cs @ ds @ drop (Suc (nat c)) cs"
      let ?a = "a\<lparr>markers := markers a @ markers ra, enabled := enabled a \<and> enabled ra\<rparr>"
      have a: "?a = a" using ra by simp
      have ok: "\<forall>r\<in>set ?nl. stack_item_can_be_flatten r \<longrightarrow>
          (\<exists>ra ds. flattened_stack r = Stack ra ds \<and> markers ra = [] \<and> enabled ra
             \<and> (\<forall>d\<in>set ds. \<not> stack_item_can_be_flatten d))"
        using 1(3) ds by (auto dest: in_set_takeD in_set_dropD)
      have idx: "c + int (length ds) - 1 < int (length ?nl)"
        using c by simp
      have ih: "stack_flatten_loop ?a ?nl (c + int (length ds) - 1)
              = Inr (?a, flattened_stacks (take (nat (c + int (length ds) - 1 + 1)) ?nl)
                         @ drop (nat (c + int (length ds) - 1 + 1)) ?nl)"
        using 1(1) [OF False c(3) yes r ok idx] by simp
      have n: "nat (c + int (length ds) - 1 + 1) = nat c + length ds"
        using c by (simp add: nat_add_distrib)
      have tk: "take (nat c + length ds) ?nl = take (nat c) cs @ ds"
        using c by simp
      have dr: "drop (nat c + length ds) ?nl = drop (Suc (nat c)) cs"
        using c by simp
      have fl: "flattened_stacks ds = ds"
        using ds by (simp add: flattened_stacks_none)
      have one: "flattened_stacks [cs ! nat c] = ds"
        using yes r by (simp add: flattened_stacks_def)
      have ih': "stack_flatten_loop a ?nl (c + int (length ds) - 1)
              = Inr (a, flattened_stacks (take (nat c) cs) @ ds @ drop (Suc (nat c)) cs)"
        using ih unfolding a n tk dr by (simp add: fl)
      show ?thesis
        using c yes ih'
        by (subst stack_flatten_loop.simps)
           (simp add: r a one split dropc del: take_append drop_append)
    qed
  qed
qed

lemma track_flatten_all:
  assumes "\<forall>r\<in>set rs. track_item_can_flatten r \<longrightarrow>
       (\<exists>ra k ds. r = Track ra k ds \<and> markers ra = [] \<and> enabled ra \<and> effects ra = []
          \<and> source_range ra = None
          \<and> (\<forall>d\<in>set ds. \<not> track_item_can_flatten d \<and> item_attrs_of d \<noteq> None))"
  shows "track_flatten_loop L a rs (int (length rs) - 1) = Inr (a, flattened_tracks rs)"
  using track_flatten_loop_flattens [OF assms, of "int (length rs) - 1" L a] by simp

lemma stack_flatten_all:
  assumes "\<forall>r\<in>set rs. stack_item_can_be_flatten r \<longrightarrow>
       (\<exists>ra ds. flattened_stack r = Stack ra ds \<and> markers ra = [] \<and> enabled ra
          \<and> (\<forall>d\<in>set ds. \<not> stack_item_can_be_flatten d))"
  shows "stack_flatten_loop a rs (int (length rs) - 1) = Inr (a, flattened_stacks rs)"
  using stack_flatten_loop_flattens [OF assms, of "int (length rs) - 1" a] by simp

lemma plain_not_valuable:
  "plain a \<Longrightarrow> \<not> valuable_metadata (Track a k cs)"
  "plain a \<Longrightarrow> \<not> valuable_metadata (Stack a cs)"
  by (auto simp: plain_def valuable_metadata_def split: option.splits)

lemma plain_new_item: "plain (new_item\<lparr>name := n\<rparr>)"
  by (simp add: plain_def new_item_def)

lemma wrap_in_track_shape:
  "\<exists>k. wrap_in_track x = Track (new_item\<lparr>name := name_of x\<rparr>) k [x]"
  by (simp add: wrap_in_track_def Let_def)

lemma simplified_item: "simplified t \<Longrightarrow> item_attrs_of t \<noteq> None"
  by (cases t) simp_all

lemma simplified_no_transition: "simplified t \<Longrightarrow> \<not> is_Transition t"
  by (cases t) simp_all

lemma not_track_cannot_flatten: "\<not> is_Track t \<Longrightarrow> \<not> track_item_can_flatten t"
  by (simp add: track_item_can_flatten_def)

lemma plain_track_can_flatten:
  assumes "plain a" and "\<forall>c\<in>set cs. \<not> is_Transition c"
  shows "track_item_can_flatten (Track a k cs)"
  using assms plain_not_valuable(1) [OF assms(1), of k cs]
  by (auto simp: track_item_can_flatten_def has_effects_def has_transitions_def plain_def
      list_ex_iff)

lemma simplified_track_can_flatten:
  assumes "simplified t" and "is_Track t"
  shows "track_item_can_flatten t"
proof -
  from assms obtain a k cs where t: "t = Track a k cs" by (cases t) simp_all
  with assms(1) have "plain a" and "\<forall>c\<in>set cs. simplified c"
    by (simp_all add: list_all_iff)
  then show ?thesis
    unfolding t by (intro plain_track_can_flatten) (auto dest: simplified_no_transition)
qed

lemma simplified_stack_can_flatten:
  "simplified (Stack a cs) \<Longrightarrow> stack_item_can_be_flatten (Stack a cs)"
  using plain_not_valuable(2) [of a cs]
  by (simp add: stack_item_can_be_flatten_def has_effects_def plain_def)

lemma clip_or_gap_stays: "is_clip_or_gap t \<Longrightarrow> \<not> stack_item_can_be_flatten t"
  by (cases t) (simp_all add: stack_item_can_be_flatten_def)

lemma top_track_stays:
  assumes "simplified_top_track t"
  shows "\<not> stack_item_can_be_flatten t"
proof -
  from assms obtain a k cs where t: "t = Track a k cs" by (cases t) simp_all
  with assms show ?thesis
    by (auto simp: stack_item_can_be_flatten_def Let_def)
qed

lemma simplified_track_top: "simplified t \<Longrightarrow> is_Track t \<Longrightarrow> simplified_top_track t"
proof -
  assume a: "simplified t" "is_Track t"
  then obtain b k cs where t: "t = Track b k cs" by (cases t) simp_all
  have "\<not> is_Stack x" if "is_clip_or_gap x" for x
    using that by (cases x) simp_all
  with a show ?thesis
    unfolding t by auto
qed

lemma simplified_not_stack_stays:
  assumes "simplified t" and "\<not> is_Stack t"
  shows "\<not> stack_item_can_be_flatten t"
proof (cases "is_Track t")
  case True
  with assms show ?thesis by (simp add: simplified_track_top top_track_stays)
next
  case False
  with assms have "is_clip_or_gap t" by (cases t) simp_all
  then show ?thesis by (rule clip_or_gap_stays)
qed

lemma valuable_wrap:
  "is_clip_or_gap x \<Longrightarrow> contains_something_valuable (wrap_in_track x) = contains_something_valuable x"
  by (cases x) (simp_all add: wrap_in_track_def Let_def new_item_def valuable_metadata_def)

lemma simplified_wrap: "is_clip_or_gap x \<Longrightarrow> simplified (wrap_in_track x)"
proof -
  assume x: "is_clip_or_gap x"
  obtain k where w: "wrap_in_track x = Track (new_item\<lparr>name := name_of x\<rparr>) k [x]"
    using wrap_in_track_shape by blast
  have "simplified x" "\<not> is_Track x" using x by (cases x; simp)+
  then have "simplified (Track (new_item\<lparr>name := name_of x\<rparr>) k [x])"
    using x plain_new_item by (simp add: w)
  then show ?thesis
    by (simp only: w)
qed

lemma merge_plain_parent:
  assumes "plain a" and "item_attrs_of c \<noteq> None"
  shows "map_item_attrs
           (\<lambda>ra. ra\<lparr>enabled := (if \<not> enabled a then False else enabled ra),
                     markers := markers ra @ markers a,
                     effects := effects ra @ effects a\<rparr>) c = c"
  using assms by (cases c) (simp_all add: plain_def)

lemma collapse_plain:
  assumes "plain a" and "item_attrs_of c \<noteq> None"
  shows "collapse_redundant L (Track a k [c]) = Inr c"
    and "collapse_redundant L (Stack a [c]) = Inr c"
  using assms merge_plain_parent [OF assms]
  by (auto simp: collapse_redundant_def plain_def)

lemma unwrapped_not_track: "\<not> is_Track t \<Longrightarrow> unwrapped t = t"
  by (simp add: unwrapped_def)

lemma unwrapped_valuable:
  assumes "simplified t" and "is_Track t"
  shows "contains_something_valuable (unwrapped t) = contains_something_valuable t"
proof -
  from assms obtain a k cs where t: "t = Track a k cs" by (cases t) simp_all
  show ?thesis
  proof (cases "length cs = 1")
    case True
    then obtain x where cs: "cs = [x]" by (cases cs) auto
    with assms t have "plain a" by simp
    then show ?thesis
      using plain_not_valuable(1) [of a k cs]
      by (simp add: t cs unwrapped_def plain_def)
  next
    case False
    then show ?thesis by (simp add: t unwrapped_def)
  qed
qed

lemma unwrapped_stays:
  assumes "simplified t" and "is_Track t"
  shows "\<not> stack_item_can_be_flatten (unwrapped t)"
proof -
  from assms obtain a k cs where t: "t = Track a k cs" by (cases t) simp_all
  show ?thesis
  proof (cases "length cs = 1")
    case True
    with assms t have "is_clip_or_gap (cs ! 0)" by simp
    with True show ?thesis
      by (simp add: t unwrapped_def clip_or_gap_stays)
  next
    case False
    then show ?thesis
      by (simp add: t unwrapped_def stack_item_can_be_flatten_def)
  qed
qed

lemma wrap_unwrapped:
  assumes "simplified t" and "is_Track t"
  shows "(if is_Track (unwrapped t) then unwrapped t else wrap_in_track (unwrapped t)) = t"
proof -
  from assms obtain a k cs where t: "t = Track a k cs" by (cases t) simp_all
  show ?thesis
  proof (cases "length cs = 1")
    case True
    then obtain x where cs: "cs = [x]" by (cases cs) auto
    with assms t have x: "is_clip_or_gap x" and w: "wrap_in_track x = Track a k [x]"
      by simp_all
    then have "\<not> is_Track x" by (cases x) simp_all
    then show ?thesis
      by (simp add: t cs unwrapped_def w)
  next
    case False
    then show ?thesis by (simp add: t unwrapped_def)
  qed
qed

lemma simplify_children_unwrapped:
  assumes "\<And>c. c \<in> set cs \<Longrightarrow> simplified c \<Longrightarrow> \<exists>i. simplify2 L ps c = Inr (unwrapped c, i)"
    and "\<forall>c\<in>set cs. simplified c"
  shows "simplify_children L ps cs = Inr (map unwrapped cs)"
  using assms
proof (induction cs)
  case Nil
  show ?case by simp
next
  case (Cons c cs)
  from Cons.prems obtain i where "simplify2 L ps c = Inr (unwrapped c, i)"
    by (meson list.set_intros(1))
  moreover have "simplify_children L ps cs = Inr (map unwrapped cs)"
    using Cons by simp
  ultimately show ?case by simp
qed

lemma no_flattenable_tracks:
  assumes "\<forall>c\<in>set cs. \<not> is_Track c"
  shows "track_flatten_loop L a cs (int (length cs) - 1) = Inr (a, cs)"
proof -
  have none: "\<forall>c\<in>set cs. \<not> track_item_can_flatten c"
    using assms by (simp add: not_track_cannot_flatten)
  then have "track_flatten_loop L a cs (int (length cs) - 1) = Inr (a, flattened_tracks cs)"
    by (intro track_flatten_all) simp
  with none show ?thesis by (simp add: flattened_tracks_none)
qed

lemma no_flattenable_stacks:
  assumes "\<forall>c\<in>set cs. \<not> stack_item_can_be_flatten c"
  shows "stack_flatten_loop a cs (int (length cs) - 1) = Inr (a, cs)"
proof -
  have "stack_flatten_loop a cs (int (length cs) - 1) = Inr (a, flattened_stacks cs)"
    using assms by (intro stack_flatten_all) simp
  with assms show ?thesis by (simp add: flattened_stacks_none)
qed

lemma simplified_is_stable:
  "simplified t \<Longrightarrow> ps \<noteq> [] \<Longrightarrow> (is_Track t \<longrightarrow> ps \<noteq> [KStack])
     \<Longrightarrow> \<exists>i. simplify2 L ps t = Inr (unwrapped t, i)"
proof (induction t arbitrary: ps)
  case (Clip a)
  show ?case by (simp add: unwrapped_def)
next
  case (Gap a)
  show ?case by (simp add: unwrapped_def)
next
  case (Transition x)
  then show ?case by simp
next
  case (Timeline x s)
  then show ?case by simp
next
  case (SerializableCollection cs)
  then show ?case by simp
next
  case (Track a k cs)
  from Track.prems have a: "plain a" and cs: "\<forall>c\<in>set cs. simplified c \<and> \<not> is_Track c"
    and deep: "ps \<noteq> []" "ps \<noteq> [KStack]"
    by (simp_all add: list_all_iff)
  show ?case
  proof (cases "cs = []")
    case True
    then show ?thesis by (simp add: unwrapped_def)
  next
    case False
    have "simplify_children L (KTrack # ps) cs = Inr (map unwrapped cs)"
      using cs deep by (intro simplify_children_unwrapped Track.IH) simp_all
    moreover have "map unwrapped cs = cs"
      using cs by (simp add: map_idI unwrapped_not_track)
    ultimately have children: "simplify_children L (KTrack # ps) cs = Inr cs"
      by simp
    have loop: "track_flatten_loop L a cs (int (length cs) - 1) = Inr (a, cs)"
      using cs by (intro no_flattenable_tracks) simp
    show ?thesis
    proof (cases "length cs = 1")
      case True
      then obtain x where x: "cs = [x]" by (cases cs) auto
      with cs have "item_attrs_of x \<noteq> None" by (simp add: simplified_item)
      from collapse_plain(1) [OF a this]
      have "finish_composition L ps (Track a k cs) = Inr (x, Track a k cs)"
        using deep plain_not_valuable(1) [OF a]
        by (simp add: finish_composition_def is_redundant_container_def x)
      with False children loop show ?thesis
        by (simp add: simplify_track_def unwrapped_def x)
    next
      case ne: False
      then have "finish_composition L ps (Track a k cs) = Inr (Track a k cs, Track a k cs)"
        by (simp add: finish_composition_def is_redundant_container_def)
      with False children loop ne show ?thesis
        by (simp add: simplify_track_def unwrapped_def)
    qed
  qed
next
  case (Stack a ts)
  from Stack.prems have a: "plain a" and n: "length ts \<noteq> 1"
    and ts: "\<forall>t\<in>set ts. simplified t \<and> is_Track t \<and> contains_something_valuable t"
    and deep: "ps \<noteq> []"
    by (simp_all add: list_all_iff)
  show ?case
  proof (cases "ts = []")
    case True
    then show ?thesis by (simp add: unwrapped_def)
  next
    case False
    let ?us = "map unwrapped ts"
    have children: "simplify_children L (KStack # ps) ts = Inr ?us"
      using ts deep by (intro simplify_children_unwrapped Stack.IH) simp_all
    have kept: "filter contains_something_valuable ?us = ?us"
      using ts by (simp add: filter_map o_def unwrapped_valuable cong: filter_cong)
    have loop: "stack_flatten_loop a ?us (int (length ?us) - 1) = Inr (a, ?us)"
      using ts by (intro no_flattenable_stacks) (simp add: unwrapped_stays)
    have ensure: "ensure_stack_tracks ?us = ts"
      using ts by (simp add: ensure_stack_tracks_def wrap_unwrapped map_idI)
    have "finish_composition L ps (Stack a ts) = Inr (Stack a ts, Stack a ts)"
      using n deep by (simp add: finish_composition_def is_redundant_container_def)
    with False children kept loop ensure a show ?thesis
      by (simp add: simplify_stack_def unwrapped_def plain_def Let_def)
  qed
qed

lemma simplify_children_simplified:
  assumes "\<And>c. c \<in> set cs \<Longrightarrow> plain_tree c \<Longrightarrow> \<exists>r i. simplify2 L ps c = Inr (r, i) \<and> P r"
    and "\<forall>c\<in>set cs. plain_tree c"
  shows "\<exists>rs. simplify_children L ps cs = Inr rs \<and> (\<forall>r\<in>set rs. P r)"
  using assms
proof (induction cs)
  case Nil
  show ?case by simp
next
  case (Cons c cs)
  from Cons.prems obtain r i where "simplify2 L ps c = Inr (r, i)" "P r"
    by (meson list.set_intros(1))
  moreover obtain rs where "simplify_children L ps cs = Inr rs" "\<forall>r\<in>set rs. P r"
    using Cons by auto
  ultimately show ?case by simp
qed

text \<open>The children of a track after the loop, when all of them were simplified.\<close>

lemma flatten_simplified_tracks:
  assumes "\<forall>r\<in>set rs. simplified r"
  shows "track_flatten_loop L a rs (int (length rs) - 1) = Inr (a, flattened_tracks rs)"
    and "\<forall>c\<in>set (flattened_tracks rs). simplified c \<and> \<not> is_Track c"
proof -
  have shape: "\<exists>ra k ds. r = Track ra k ds \<and> markers ra = [] \<and> enabled ra \<and> effects ra = []
          \<and> source_range ra = None
          \<and> (\<forall>d\<in>set ds. \<not> track_item_can_flatten d \<and> item_attrs_of d \<noteq> None)"
    if "r \<in> set rs" "track_item_can_flatten r" for r
  proof -
    from that(2) obtain ra k ds where r: "r = Track ra k ds"
      using can_flatten_is_Track by blast
    with that(1) assms have "plain ra" "\<forall>d\<in>set ds. simplified d \<and> \<not> is_Track d"
      by (auto simp: list_all_iff)
    then show ?thesis
      using r by (auto simp: plain_def not_track_cannot_flatten dest: simplified_item)
  qed
  then show "track_flatten_loop L a rs (int (length rs) - 1) = Inr (a, flattened_tracks rs)"
    by (intro track_flatten_all) blast
  show "\<forall>c\<in>set (flattened_tracks rs). simplified c \<and> \<not> is_Track c"
  proof
    fix c
    assume "c \<in> set (flattened_tracks rs)"
    then obtain r where r: "r \<in> set rs"
      and c: "c \<in> set (if track_item_can_flatten r then children r else [r])"
      by (auto simp: flattened_tracks_def)
    show "simplified c \<and> \<not> is_Track c"
    proof (cases "track_item_can_flatten r")
      case True
      then obtain ra k ds where "r = Track ra k ds"
        using can_flatten_is_Track by blast
      with r c True assms show ?thesis
        by (auto simp: list_all_iff)
    next
      case False
      with r assms have "\<not> is_Track r"
        using simplified_track_can_flatten by blast
      with False r c assms show ?thesis by simp
    qed
  qed
qed

text \<open>The children of a stack after the loop, when all of them were simplified.\<close>

lemma flatten_simplified_stacks:
  assumes "\<forall>r\<in>set rs. simplified r \<and> contains_something_valuable r"
  shows "stack_flatten_loop a rs (int (length rs) - 1) = Inr (a, flattened_stacks rs)"
    and "\<forall>c\<in>set (flattened_stacks rs).
           simplified c \<and> \<not> is_Stack c \<and> contains_something_valuable c"
proof -
  have shape: "\<exists>ra ds. flattened_stack r = Stack ra ds \<and> markers ra = [] \<and> enabled ra
          \<and> (\<forall>d\<in>set ds. \<not> stack_item_can_be_flatten d)"
    if "r \<in> set rs" "stack_item_can_be_flatten r" for r
  proof -
    from that assms have "is_Stack r"
      using simplified_not_stack_stays by blast
    then obtain ra ds where r: "r = Stack ra ds" by (cases r) simp_all
    with that(1) assms have "plain ra" "\<forall>d\<in>set ds. simplified d \<and> is_Track d"
      by (auto simp: list_all_iff)
    moreover have "\<not> is_Stack d" if "is_Track d" for d
      using that by (cases d) simp_all
    ultimately have "\<forall>d\<in>set ds. \<not> stack_item_can_be_flatten d"
      using simplified_not_stack_stays by blast
    with \<open>plain ra\<close> show ?thesis
      using r by (simp add: plain_def flattened_stack_def)
  qed
  then show "stack_flatten_loop a rs (int (length rs) - 1) = Inr (a, flattened_stacks rs)"
    by (intro stack_flatten_all) blast
  show "\<forall>c\<in>set (flattened_stacks rs).
           simplified c \<and> \<not> is_Stack c \<and> contains_something_valuable c"
  proof
    fix c
    assume "c \<in> set (flattened_stacks rs)"
    then obtain r where r: "r \<in> set rs"
      and c: "c \<in> set (if stack_item_can_be_flatten r then children (flattened_stack r) else [r])"
      by (auto simp: flattened_stacks_def)
    show "simplified c \<and> \<not> is_Stack c \<and> contains_something_valuable c"
    proof (cases "stack_item_can_be_flatten r")
      case True
      with r assms have "is_Stack r"
        using simplified_not_stack_stays by blast
      then obtain ra ds where rr: "r = Stack ra ds" by (cases r) simp_all
      with r assms have "simplified (Stack ra ds)" by blast
      then have "\<forall>t\<in>set ds. simplified t \<and> is_Track t \<and> contains_something_valuable t"
        by (simp add: list_all_iff)
      moreover have "c \<in> set ds"
        using c True rr by (simp add: flattened_stack_def)
      ultimately have "simplified c" "is_Track c" "contains_something_valuable c"
        by blast+
      moreover from \<open>is_Track c\<close> have "\<not> is_Stack c" by (cases c) simp_all
      ultimately show ?thesis by simp
    next
      case False
      have "stack_item_can_be_flatten x" if "simplified x" "is_Stack x" for x
        using that by (cases x) (simp_all only: is_Stack.simps simplified_stack_can_flatten)
      with False r assms have "\<not> is_Stack r"
        by blast
      with False r c assms show ?thesis by simp
    qed
  qed
qed

lemma ensure_simplified:
  assumes "\<forall>c\<in>set fs. simplified c \<and> \<not> is_Stack c \<and> contains_something_valuable c"
  shows "\<forall>t\<in>set (ensure_stack_tracks fs).
           simplified t \<and> is_Track t \<and> contains_something_valuable t"
proof
  fix t
  assume "t \<in> set (ensure_stack_tracks fs)"
  then obtain c where c: "c \<in> set fs" and t: "t = (if is_Track c then c else wrap_in_track c)"
    by (auto simp: ensure_stack_tracks_def)
  show "simplified t \<and> is_Track t \<and> contains_something_valuable t"
  proof (cases "is_Track c")
    case True
    with c t assms show ?thesis by simp
  next
    case False
    from c assms have "simplified c" "\<not> is_Stack c" by simp_all
    with False have "is_clip_or_gap c" by (cases c) simp_all
    moreover have "is_Track (wrap_in_track c)"
      by (simp add: wrap_in_track_def Let_def)
    ultimately show ?thesis
      using False t c assms by (simp add: simplified_wrap valuable_wrap)
  qed
qed

lemma plain_tree_simplifies:
  "plain_tree t \<Longrightarrow> ps \<noteq> [] \<Longrightarrow> (is_Track t \<longrightarrow> ps \<noteq> [KStack])
     \<Longrightarrow> \<exists>r i. simplify2 L ps t = Inr (r, i) \<and> simplified r"
proof (induction t arbitrary: ps)
  case (Clip a)
  show ?case by simp
next
  case (Gap a)
  show ?case by simp
next
  case (Transition x)
  then show ?case by simp
next
  case (Timeline x s)
  then show ?case by simp
next
  case (SerializableCollection cs)
  then show ?case by simp
next
  case (Track a k cs)
  from Track.prems have a: "plain a" and cs: "\<forall>c\<in>set cs. plain_tree c"
    and deep: "ps \<noteq> []" "ps \<noteq> [KStack]"
    by (simp_all add: list_all_iff)
  show ?case
  proof (cases "cs = []")
    case True
    with a show ?thesis by simp
  next
    case False
    obtain rs where children: "simplify_children L (KTrack # ps) cs = Inr rs"
      and rs: "\<forall>r\<in>set rs. simplified r"
      using simplify_children_simplified [where P = simplified and cs = cs and ps = "KTrack # ps"
          and L = L] Track.IH cs deep
      by (metis list.distinct(1) list.inject)
    let ?fs = "flattened_tracks rs"
    note loop = flatten_simplified_tracks(1) [OF rs, of L a] flatten_simplified_tracks(2) [OF rs]
    show ?thesis
    proof (cases "length ?fs = 1")
      case True
      then obtain x where x: "?fs = [x]" by (cases ?fs) auto
      with loop(2) have sx: "simplified x" by simp
      then have "item_attrs_of x \<noteq> None" by (rule simplified_item)
      from collapse_plain(1) [OF a this]
      have "finish_composition L ps (Track a k ?fs) = Inr (x, Track a k ?fs)"
        using deep plain_not_valuable(1) [OF a]
        by (simp add: finish_composition_def is_redundant_container_def x)
      with False children loop(1) sx show ?thesis
        by (simp add: simplify_track_def)
    next
      case ne: False
      then have "finish_composition L ps (Track a k ?fs) = Inr (Track a k ?fs, Track a k ?fs)"
        by (simp add: finish_composition_def is_redundant_container_def)
      moreover have "simplified (Track a k ?fs)"
        using a loop(2) ne by (simp add: list_all_iff)
      ultimately show ?thesis
        using False children loop(1) by (simp add: simplify_track_def)
    qed
  qed
next
  case (Stack a cs)
  from Stack.prems have a: "plain a" and cs: "\<forall>c\<in>set cs. plain_tree c"
    and deep: "ps \<noteq> []"
    by (simp_all add: list_all_iff)
  show ?case
  proof (cases "cs = []")
    case True
    with a show ?thesis by simp
  next
    case False
    obtain rs where children: "simplify_children L (KStack # ps) cs = Inr rs"
      and rs: "\<forall>r\<in>set rs. simplified r"
      using simplify_children_simplified [where P = simplified and cs = cs and ps = "KStack # ps"
          and L = L] Stack.IH cs deep
      by (metis list.distinct(1) list.inject)
    let ?kept = "filter contains_something_valuable rs"
    have kept: "\<forall>r\<in>set ?kept. simplified r \<and> contains_something_valuable r"
      using rs by simp
    note loop = flatten_simplified_stacks(1) [OF kept, of a] flatten_simplified_stacks(2) [OF kept]
    let ?ts = "ensure_stack_tracks (flattened_stacks ?kept)"
    note ts = ensure_simplified [OF loop(2)]
    have run: "simplify2 L ps (Stack a cs) = finish_composition L ps (Stack a ?ts)"
      using False children loop(1) a by (simp add: simplify_stack_def plain_def Let_def)
    show ?thesis
    proof (cases "length ?ts = 1")
      case True
      then obtain x where x: "?ts = [x]" by (cases ?ts) auto
      with ts have sx: "simplified x" by simp
      then have "item_attrs_of x \<noteq> None" by (rule simplified_item)
      from collapse_plain(2) [OF a this]
      have "finish_composition L ps (Stack a ?ts) = Inr (x, Stack a ?ts)"
        using deep plain_not_valuable(2) [OF a]
        by (simp add: finish_composition_def is_redundant_container_def x)
      with run sx show ?thesis by simp
    next
      case ne: False
      then have "finish_composition L ps (Stack a ?ts) = Inr (Stack a ?ts, Stack a ?ts)"
        using deep by (simp add: finish_composition_def is_redundant_container_def)
      moreover have "simplified (Stack a ?ts)"
        using a ts ne by (simp add: list_all_iff)
      ultimately show ?thesis
        using run by simp
    qed
  qed
qed

lemma simplify_children_map:
  assumes "\<forall>c\<in>set cs. \<exists>i. simplify2 L ps c = Inr (f c, i)"
  shows "simplify_children L ps cs = Inr (map f cs)"
  using assms
proof (induction cs)
  case Nil
  show ?case by simp
next
  case (Cons c cs)
  then obtain i where "simplify2 L ps c = Inr (f c, i)" by auto
  moreover have "simplify_children L ps cs = Inr (map f cs)"
    using Cons by simp
  ultimately show ?case by simp
qed

lemma top_track_not_redundant:
  assumes "\<forall>c\<in>set cs. \<not> is_Track c"
  shows "finish_composition L [KStack] (Track a k cs) = Inr (Track a k cs, Track a k cs)"
proof -
  have "\<not> is_Track (cs ! 0)" if "length cs = 1"
    using assms that by (cases cs) auto
  then have "\<not> is_redundant_container [KStack] (Track a k cs)"
    by (auto simp: is_redundant_container_def)
  then show ?thesis
    by (simp add: finish_composition_def)
qed

lemma top_track_is_stable:
  assumes "simplified_top_track t"
  shows "\<exists>i. simplify2 L [KStack] t = Inr (t, i)"
proof -
  from assms obtain a k cs where t: "t = Track a k cs" by (cases t) simp_all
  with assms have cs: "\<forall>c\<in>set cs. simplified c \<and> \<not> is_Track c"
    by (simp add: list_all_iff)
  show ?thesis
  proof (cases "cs = []")
    case True
    then show ?thesis by (simp add: t)
  next
    case False
    have "\<forall>c\<in>set cs. \<exists>i. simplify2 L [KTrack, KStack] c = Inr (c, i)"
    proof
      fix c
      assume "c \<in> set cs"
      with cs have "simplified c" "\<not> is_Track c" by simp_all
      with simplified_is_stable [of c "[KTrack, KStack]" L]
      show "\<exists>i. simplify2 L [KTrack, KStack] c = Inr (c, i)"
        by (simp add: unwrapped_not_track)
    qed
    then have "simplify_children L [KTrack, KStack] cs = Inr (map (\<lambda>c. c) cs)"
      by (rule simplify_children_map)
    then have children: "simplify_children L [KTrack, KStack] cs = Inr cs"
      by simp
    have loop: "track_flatten_loop L a cs (int (length cs) - 1) = Inr (a, cs)"
      using cs by (intro no_flattenable_tracks) simp
    have "finish_composition L [KStack] (Track a k cs) = Inr (Track a k cs, Track a k cs)"
      using cs by (intro top_track_not_redundant) simp
    with False children loop show ?thesis
      by (simp add: t simplify_track_def)
  qed
qed

lemma finish_root_stack:
  assumes "\<forall>t\<in>set ts. is_Track t" and "source_range a = None"
  shows "\<exists>result. finish_composition L [] (Stack a ts) = Inr (result, Stack a ts)
           \<and> (is_Stack result \<longrightarrow> result = Stack a ts)"
proof (cases "is_redundant_container [] (Stack a ts)")
  case True
  then have "length ts = 1"
    by (auto simp: is_redundant_container_def split: if_splits)
  then obtain t where ts: "ts = [t]" by (cases ts) auto
  with assms(1) obtain ta k cs where t: "t = Track ta k cs" by (cases t) simp_all
  show ?thesis
    using True assms(2)
    by (simp add: finish_composition_def collapse_redundant_def ts t)
next
  case False
  have "list_all is_Track ts" using assms(1) by (simp add: list_all_iff)
  with False show ?thesis
    by (simp add: finish_composition_def ensure_stack_tracks_id)
qed

lemma simplified_root_is_stable:
  assumes "source_range a = None"
    and ts: "\<forall>t\<in>set ts. simplified_top_track t \<and> contains_something_valuable t"
  shows "\<exists>result. simplify2 L [] (Stack a ts) = Inr (result, Stack a ts)
           \<and> (is_Stack result \<longrightarrow> result = Stack a ts)"
proof (cases "ts = []")
  case True
  then show ?thesis by simp
next
  case False
  have tracks: "\<forall>t\<in>set ts. is_Track t"
  proof
    fix t assume "t \<in> set ts"
    with ts have "simplified_top_track t" by simp
    then show "is_Track t" by (cases t) simp_all
  qed
  have "simplify_children L [KStack] ts = Inr (map (\<lambda>t. t) ts)"
    using ts by (intro simplify_children_map) (simp add: top_track_is_stable)
  then have children: "simplify_children L [KStack] ts = Inr ts"
    by simp
  have kept: "filter contains_something_valuable ts = ts"
    using ts by simp
  have loop: "stack_flatten_loop a ts (int (length ts) - 1) = Inr (a, ts)"
    using ts by (intro no_flattenable_stacks) (simp add: top_track_stays)
  have ensure: "ensure_stack_tracks ts = ts"
    using tracks by (simp add: ensure_stack_tracks_id list_all_iff)
  from finish_root_stack [OF tracks assms(1), of L] False children kept loop ensure assms(1)
  show ?thesis
    by (simp add: simplify_stack_def Let_def)
qed

lemma plain_top_track_simplifies:
  assumes "plain_tree (Track a k cs)"
  shows "\<exists>fs i. simplify2 L [KStack] (Track a k cs) = Inr (Track a k fs, i)
           \<and> (\<forall>c\<in>set fs. simplified c \<and> \<not> is_Track c)"
proof (cases "cs = []")
  case True
  then show ?thesis by simp
next
  case False
  from assms have cs: "\<forall>c\<in>set cs. plain_tree c"
    by (simp add: list_all_iff)
  have "\<exists>rs. simplify_children L [KTrack, KStack] cs = Inr rs \<and> (\<forall>r\<in>set rs. simplified r)"
    using cs by (intro simplify_children_simplified plain_tree_simplifies) simp_all
  then obtain rs where children: "simplify_children L [KTrack, KStack] cs = Inr rs"
    and rs: "\<forall>r\<in>set rs. simplified r"
    by blast
  let ?fs = "flattened_tracks rs"
  note loop = flatten_simplified_tracks(1) [OF rs, of L a] flatten_simplified_tracks(2) [OF rs]
  have "finish_composition L [KStack] (Track a k ?fs) = Inr (Track a k ?fs, Track a k ?fs)"
    using loop(2) by (intro top_track_not_redundant) simp
  with False children loop show ?thesis
    by (simp add: simplify_track_def)
qed

text \<open>A child of the root stack after its own simplification.\<close>

lemma root_child_simplifies:
  assumes "plain_tree c"
  shows "\<exists>r i. simplify2 L [KStack] c = Inr (r, i)
           \<and> (simplified r
                \<or> (\<exists>b k fs. r = Track b k fs \<and> plain b
                      \<and> (\<forall>d\<in>set fs. simplified d \<and> \<not> is_Track d)))"
proof (cases "is_Track c")
  case True
  then obtain a k cs where c: "c = Track a k cs" by (cases c) simp_all
  with assms have "plain a" by simp
  with plain_top_track_simplifies [OF assms [unfolded c], of L] show ?thesis
    unfolding c by blast
next
  case False
  with plain_tree_simplifies [OF assms, of "[KStack]" L] show ?thesis
    by auto
qed

lemma track_over_stack_can_flatten:
  assumes "plain b" and "simplified (Stack sb ds)"
  shows "stack_item_can_be_flatten (Track b k [Stack sb ds])"
  using assms plain_not_valuable(1) [of b k "[Stack sb ds]"] plain_not_valuable(2) [of sb ds]
  by (simp add: stack_item_can_be_flatten_def has_effects_def plain_def Let_def)

lemma simplified_stack_children_stay:
  assumes "simplified (Stack sb ds)"
  shows "plain sb"
    and "\<forall>d\<in>set ds. simplified d \<and> is_Track d \<and> contains_something_valuable d"
    and "\<forall>d\<in>set ds. \<not> stack_item_can_be_flatten d"
proof -
  from assms show "plain sb" by simp
  from assms show ds: "\<forall>d\<in>set ds. simplified d \<and> is_Track d \<and> contains_something_valuable d"
    by (simp add: list_all_iff)
  show "\<forall>d\<in>set ds. \<not> stack_item_can_be_flatten d"
  proof
    fix d assume "d \<in> set ds"
    with ds have "simplified d" "is_Track d" by simp_all
    then show "\<not> stack_item_can_be_flatten d"
      by (simp add: simplified_track_top top_track_stays)
  qed
qed

lemma flatten_root_children:
  assumes rs: "\<forall>r\<in>set rs. contains_something_valuable r
                \<and> (simplified r
                     \<or> (\<exists>b k fs. r = Track b k fs \<and> plain b
                           \<and> (\<forall>d\<in>set fs. simplified d \<and> \<not> is_Track d)))"
  shows "stack_flatten_loop a rs (int (length rs) - 1) = Inr (a, flattened_stacks rs)"
    and "\<forall>c\<in>set (flattened_stacks rs).
           contains_something_valuable c \<and> (simplified_top_track c \<or> is_clip_or_gap c)"
proof -
  have shape: "\<exists>ra ds. flattened_stack r = Stack ra ds \<and> simplified (Stack ra ds)"
    if "r \<in> set rs" "stack_item_can_be_flatten r" for r
  proof -
    from stack_flatten_is_container [OF that(2)]
    consider (stack) sa ds where "r = Stack sa ds"
      | (track) b k sb ds where "r = Track b k [Stack sb ds]"
      by blast
    then show ?thesis
    proof cases
      case stack
      with that(1) rs have "simplified (Stack sa ds)" by auto
      with stack show ?thesis by (simp add: flattened_stack_def)
    next
      case track
      with that(1) rs have "simplified r \<or> simplified (Stack sb ds)" by auto
      moreover have "\<not> simplified r"
        unfolding track by simp
      ultimately show ?thesis
        using track by (simp add: flattened_stack_def)
    qed
  qed
  have "\<exists>ra ds. flattened_stack r = Stack ra ds \<and> markers ra = [] \<and> enabled ra
          \<and> (\<forall>d\<in>set ds. \<not> stack_item_can_be_flatten d)"
    if "r \<in> set rs" "stack_item_can_be_flatten r" for r
  proof -
    from shape [OF that] obtain ra ds where
      f: "flattened_stack r = Stack ra ds" and s: "simplified (Stack ra ds)"
      by blast
    from simplified_stack_children_stay(1,3) [OF s] f show ?thesis
      by (simp add: plain_def)
  qed
  then show "stack_flatten_loop a rs (int (length rs) - 1) = Inr (a, flattened_stacks rs)"
    by (intro stack_flatten_all) blast
  show "\<forall>c\<in>set (flattened_stacks rs).
           contains_something_valuable c \<and> (simplified_top_track c \<or> is_clip_or_gap c)"
  proof
    fix c
    assume "c \<in> set (flattened_stacks rs)"
    then obtain r where r: "r \<in> set rs"
      and c: "c \<in> set (if stack_item_can_be_flatten r then children (flattened_stack r) else [r])"
      by (auto simp: flattened_stacks_def)
    show "contains_something_valuable c \<and> (simplified_top_track c \<or> is_clip_or_gap c)"
    proof (cases "stack_item_can_be_flatten r")
      case True
      from shape [OF r True] obtain ra ds where
        f: "flattened_stack r = Stack ra ds" and s: "simplified (Stack ra ds)"
        by blast
      with c True have "c \<in> set ds" by simp
      with simplified_stack_children_stay(2) [OF s]
      have "simplified c" "is_Track c" "contains_something_valuable c" by simp_all
      then show ?thesis by (simp add: simplified_track_top)
    next
      case False
      with c have cr: "c = r" by simp
      from r rs have v: "contains_something_valuable r" by simp
      from r rs consider (s) "simplified r"
        | (t) b k fs where "r = Track b k fs" "plain b"
            "\<forall>d\<in>set fs. simplified d \<and> \<not> is_Track d"
        by blast
      then have "simplified_top_track r \<or> is_clip_or_gap r"
      proof cases
        case s
        show ?thesis
        proof (cases "is_Track r")
          case True
          with s show ?thesis by (simp add: simplified_track_top)
        next
          case nt: False
          have "\<not> is_Stack r"
          proof
            assume "is_Stack r"
            then obtain sa ds where "r = Stack sa ds" by (cases r) simp_all
            with s False simplified_stack_can_flatten show False by blast
          qed
          with nt s show ?thesis by (cases r) simp_all
        qed
      next
        case t
        have "\<not> (length fs = 1 \<and> is_Stack (fs ! 0))"
        proof
          assume a: "length fs = 1 \<and> is_Stack (fs ! 0)"
          then obtain x where fs: "fs = [x]" by (cases fs) auto
          with a obtain sb ds where x: "x = Stack sb ds" by (cases x) simp_all
          with t fs have "simplified (Stack sb ds)" by simp
          from track_over_stack_can_flatten [OF t(2) this, of k] t(1) fs x False
          show False by simp
        qed
        with t show ?thesis by (simp add: list_all_iff)
      qed
      with v cr show ?thesis by simp
    qed
  qed
qed

lemma ensure_top_tracks:
  assumes "\<forall>c\<in>set fs. contains_something_valuable c
             \<and> (simplified_top_track c \<or> is_clip_or_gap c)"
  shows "\<forall>t\<in>set (ensure_stack_tracks fs).
           simplified_top_track t \<and> contains_something_valuable t"
proof
  fix t
  assume "t \<in> set (ensure_stack_tracks fs)"
  then obtain c where c: "c \<in> set fs" and t: "t = (if is_Track c then c else wrap_in_track c)"
    by (auto simp: ensure_stack_tracks_def)
  show "simplified_top_track t \<and> contains_something_valuable t"
  proof (cases "is_Track c")
    case True
    then have "\<not> is_clip_or_gap c" by (cases c) simp_all
    with True c t assms show ?thesis by auto
  next
    case False
    have "\<not> simplified_top_track c"
      using False by (cases c) simp_all
    with c assms have cg: "is_clip_or_gap c" and v: "contains_something_valuable c" by auto
    have "is_Track (wrap_in_track c)"
      by (simp add: wrap_in_track_def Let_def)
    with simplified_wrap [OF cg] have "simplified_top_track (wrap_in_track c)"
      by (rule simplified_track_top)
    with False t v cg show ?thesis
      by (simp add: valuable_wrap)
  qed
qed

lemma plain_root_simplifies:
  assumes "plain_tree (Stack a cs)"
  shows "\<exists>ts result. simplify2 L [] (Stack a cs) = Inr (result, Stack a ts)
           \<and> (is_Stack result \<longrightarrow> result = Stack a ts)
           \<and> (\<forall>t\<in>set ts. simplified_top_track t \<and> contains_something_valuable t)"
proof (cases "cs = []")
  case True
  then show ?thesis by simp
next
  case False
  from assms have a: "plain a" and cs: "\<forall>c\<in>set cs. plain_tree c"
    by (simp_all add: list_all_iff)
  then have none: "source_range a = None" by (simp add: plain_def)
  let ?P = "\<lambda>r. simplified r
                \<or> (\<exists>b k fs. r = Track b k fs \<and> plain b
                      \<and> (\<forall>d\<in>set fs. simplified d \<and> \<not> is_Track d))"
  have "\<exists>rs. simplify_children L [KStack] cs = Inr rs \<and> (\<forall>r\<in>set rs. ?P r)"
    using cs by (intro simplify_children_simplified root_child_simplifies) simp_all
  then obtain rs where children: "simplify_children L [KStack] cs = Inr rs"
    and rs: "\<forall>r\<in>set rs. ?P r"
    by blast
  let ?kept = "filter contains_something_valuable rs"
  have kept: "\<forall>r\<in>set ?kept. contains_something_valuable r \<and> ?P r"
    using rs by simp
  note loop = flatten_root_children(1) [OF kept, of a] flatten_root_children(2) [OF kept]
  let ?ts = "ensure_stack_tracks (flattened_stacks ?kept)"
  note ts = ensure_top_tracks [OF loop(2)]
  have tracks: "\<forall>t\<in>set ?ts. is_Track t"
  proof
    fix t assume "t \<in> set ?ts"
    with ts have "simplified_top_track t" by simp
    then show "is_Track t" by (cases t) simp_all
  qed
  have run: "simplify2 L [] (Stack a cs) = finish_composition L [] (Stack a ?ts)"
    using False children loop(1) none by (simp add: simplify_stack_def Let_def)
  from finish_root_stack [OF tracks none, of L] run ts show ?thesis
    by auto
qed

lemma plain_timeline_idempotent:
  assumes "plain_timeline T"
  shows "\<exists>T'. simplify L T = Inr T' \<and> simplify L T' = Inr T'"
proof -
  from assms obtain ta a cs where T: "T = Timeline ta (Stack a cs)"
    and plain: "plain_tree (Stack a cs)"
    by (cases T rule: plain_timeline.cases) simp_all
  then have none: "source_range a = None" by (simp add: plain_def)
  from plain_root_simplifies [OF plain, of L] obtain ts result where
    first: "simplify2 L [] (Stack a cs) = Inr (result, Stack a ts)"
    and res: "is_Stack result \<longrightarrow> result = Stack a ts"
    and ts: "\<forall>t\<in>set ts. simplified_top_track t \<and> contains_something_valuable t"
    by blast
  from simplified_root_is_stable [OF none ts, of L] obtain result' where
    second: "simplify2 L [] (Stack a ts) = Inr (result', Stack a ts)"
    and res': "is_Stack result' \<longrightarrow> result' = Stack a ts"
    by blast
  have "simplify L T = Inr (Timeline ta (Stack a ts))"
    using first res by (auto simp: simplify_def T)
  moreover have "simplify L (Timeline ta (Stack a ts)) = Inr (Timeline ta (Stack a ts))"
    using second res' by (auto simp: simplify_def)
  ultimately show ?thesis by blast
qed


text \<open>
  C7.  The claim says that a Selector whose selected child is a Filler (or a
  ScopeReference) and whose alternates list is absent fails with
  AAFAdapterError.  Evaluated on the source: the message of that error is
  built first, with \<open>len(alternates)\<close>, and on an absent list this
  raises TypeError; AAFAdapterError is never constructed.
\<close>

theorem absent_alternates_raise_TypeError:
  "transcribe (Suc (Suc 0)) (example_env []) Map.empty muted_selector_without_alternates []
     (Some 24) = Inl TypeError"
  by (simp add: muted_selector_without_alternates_def transcribe_Selector Let_def)

subsection \<open>Precheck validator\<close>

lemma supported_child_checks:
  "supported child \<Longrightarrow> \<exists>checks. child_checks py_str edit_rate child = Inr checks"
  by (auto simp: supported_def child_checks_def is_considered_gap_def Let_def
      split: schema.splits option.splits if_splits)

lemma extend_checks_supported:
  assumes "list_all supported descendants"
  shows "\<exists>result. extend_checks py_str edit_rate acc descendants = Inr result
           \<and> concat (map c_errors result)
              = concat (map c_errors acc) @ concat (map (child_violations py_str edit_rate) descendants)"
  using assms
proof (induction descendants arbitrary: acc)
  case Nil
  then show ?case by simp
next
  case (Cons child rest)
  from Cons.prems have "supported child" and rest: "list_all supported rest" by simp_all
  then obtain checks where c: "child_checks py_str edit_rate child = Inr checks"
    using supported_child_checks by blast
  from Cons.IH [OF rest, of "acc @ checks"] c show ?case
    by (auto simp: child_violations_def)
qed

lemma split_any_no_sep:
  "\<forall>c \<in> set s. c \<notin> set seps \<Longrightarrow> split_any seps s = [s]"
  by (induction s) auto

lemma split_any_append_sep:
  assumes "\<forall>c \<in> set s. c \<notin> set seps" and "x \<in> set seps"
  shows "split_any seps (s @ x # rest) = s # split_any seps rest"
  using assms
proof (induction s)
  case Nil
  then show ?case by simp
next
  case (Cons a s)
  then show ?case by (auto split: list.splits)
qed

lemma split_join_lines:
  assumes "list_all one_line es" and "es \<noteq> []"
  shows "split_any [CHR 0x0A] (join [CHR 0x0A] es) = es"
  using assms
proof (induction es)
  case Nil
  then show ?case by simp
next
  case (Cons x xs)
  from Cons.prems have x: "\<forall>c \<in> set x. c \<notin> set [CHR 0x0A]"
    by (auto simp: one_line_def)
  show ?case
  proof (cases xs)
    case Nil
    with x show ?thesis by (simp add: split_any_no_sep)
  next
    case (Cons y ys)
    with Cons.IH Cons.prems have "split_any [CHR 0x0A] (join [CHR 0x0A] xs) = xs"
      by simp
    with Cons x show ?thesis
      using split_any_append_sep [of x "[CHR 0x0A]" "CHR 0x0A" "join [CHR 0x0A] xs"]
      by simp
  qed
qed

lemma message_lines_join:
  assumes "list_all one_line es" and "es \<noteq> []"
  shows "message_lines (CHR 0x0A # join [CHR 0x0A] es) = es"
proof -
  have "split_any [CHR 0x0A] (CHR 0x0A # join [CHR 0x0A] es) = [] # es"
    using split_join_lines [OF assms] by simp
  moreover have "filter (\<lambda>l. l \<noteq> []) es = es"
    using assms(1) by (induction es) (auto simp: one_line_def)
  ultimately show ?thesis by (simp add: message_lines_def)
qed

lemma unsupported_child_checks:
  "\<not> supported child \<Longrightarrow> child_checks py_str edit_rate child = Inl NotSupportedError"
  by (simp add: supported_def child_checks_def)

lemma extend_checks_unsupported:
  assumes "\<not> list_all supported descendants"
  shows "extend_checks py_str edit_rate acc descendants = Inl NotSupportedError"
  using assms
proof (induction descendants arbitrary: acc)
  case Nil
  then show ?case by simp
next
  case (Cons child rest)
  show ?case
  proof (cases "supported child")
    case True
    then obtain checks where "child_checks py_str edit_rate child = Inr checks"
      using supported_child_checks by blast
    moreover from True Cons.prems have "\<not> list_all supported rest" by simp
    ultimately show ?thesis
      using Cons.IH by simp
  next
    case False
    then show ?thesis
      by (simp add: unsupported_child_checks)
  qed
qed

lemma supported_validation:
  assumes "list_all supported descendants"
  shows "(all_violations py_str timeline descendants = [] \<longrightarrow>
            validate_metadata py_str timeline descendants = Inr ())
       \<and> (all_violations py_str timeline descendants \<noteq> [] \<longrightarrow>
            validate_metadata py_str timeline descendants
              = Inl (AAFValidationError
                      ([CHR 0x0A] @ join [CHR 0x0A] (all_violations py_str timeline descendants)))
            \<and> (list_all one_line (all_violations py_str timeline descendants) \<longrightarrow>
                 message_lines ([CHR 0x0A] @ join [CHR 0x0A] (all_violations py_str timeline descendants))
                   = all_violations py_str timeline descendants))"
proof -
  let ?c0 = "check timeline ''duration().rate''"
  from extend_checks_supported [OF assms, of py_str "c_value ?c0" "[?c0]"]
  obtain result where
    run: "extend_checks py_str (c_value ?c0) [?c0] descendants = Inr result"
    and errs: "concat (map c_errors result) = all_violations py_str timeline descendants"
    by (auto simp: all_violations_def)
  have ex: "list_ex (\<lambda>c. c_errors c \<noteq> []) result \<longleftrightarrow> concat (map c_errors result) \<noteq> []"
    by (induction result) auto
  from run errs ex show ?thesis
    by (auto simp: validate_metadata_def Let_def message_lines_join)
qed

text \<open>
  C8.  The claim says that the validator collects every violation without
  short-circuiting, and that a timeline without defect raises nothing.
  Evaluated on the source: \<open>_is_considered_gap\<close> raises NotSupportedError
  for a clip whose media reference is a generator of a kind other than Slug,
  and the error leaves the loop of \<open>validate_metadata\<close>.  With such a clip
  after the children of the timeline with four defects, the four violations
  are not reported; with such a clip in a timeline without defect, the
  validator still raises.
\<close>

theorem unsupported_generator_stops_validation:
  "validate_metadata show_pyval timeline_24 (four_defects @ [generator_clip])
     = Inl NotSupportedError
   \<and> all_violations show_pyval timeline_24 [video_track, good_gap, generator_clip] = []
   \<and> validate_metadata show_pyval timeline_24 [video_track, good_gap, generator_clip]
       = Inl NotSupportedError"
proof -
  have a: "validate_metadata show_pyval timeline_24 (four_defects @ [generator_clip])
     = Inl NotSupportedError"
    by code_simp
  have b: "all_violations show_pyval timeline_24 [video_track, good_gap, generator_clip] = []"
    by code_simp
  have c: "validate_metadata show_pyval timeline_24 [video_track, good_gap, generator_clip]
       = Inl NotSupportedError"
    by code_simp
  from a b c show ?thesis by simp
qed

text \<open>
  C8, amended.  When no child is a clip with a generator of a kind other than
  Slug, the validator returns normally exactly when no check of the timeline
  or of any child has an error; otherwise it raises one AAFValidationError
  whose message is a newline followed by all errors of all checks, in order,
  joined by newlines: when each error is a single non-empty line, the
  non-empty lines of the message are exactly the violations.  When some child
  is a clip with a generator of a kind other than Slug, the validator raises
  NotSupportedError and reports no violation.
\<close>

theorem validation_collects_all_or_rejects_generator:
  "(list_all supported descendants \<longrightarrow>
      (all_violations py_str timeline descendants = [] \<longrightarrow>
         validate_metadata py_str timeline descendants = Inr ())
      \<and> (all_violations py_str timeline descendants \<noteq> [] \<longrightarrow>
           validate_metadata py_str timeline descendants
             = Inl (AAFValidationError
                     ([CHR 0x0A] @ join [CHR 0x0A] (all_violations py_str timeline descendants)))
           \<and> (list_all one_line (all_violations py_str timeline descendants) \<longrightarrow>
                message_lines ([CHR 0x0A] @ join [CHR 0x0A] (all_violations py_str timeline descendants))
                  = all_violations py_str timeline descendants)))
   \<and> (\<not> list_all supported descendants \<longrightarrow>
        validate_metadata py_str timeline descendants = Inl NotSupportedError)"
proof (intro conjI impI)
  assume "\<not> list_all supported descendants"
  then show "validate_metadata py_str timeline descendants = Inl NotSupportedError"
    by (simp add: validate_metadata_def Let_def extend_checks_unsupported)
qed (use supported_validation [of descendants py_str timeline] in \<open>simp_all\<close>)

text \<open>
  The timeline with four defects raises one error of four distinct lines; a
  timeline without defect raises nothing; the timeline with four defects and
  the generator clip raises NotSupportedError.
\<close>

theorem validation_collects_all_or_rejects_generator_witness:
  "(\<exists>msg. validate_metadata show_pyval timeline_24 four_defects = Inl (AAFValidationError msg)
         \<and> length (message_lines msg) = 4 \<and> distinct (message_lines msg))
   \<and> validate_metadata show_pyval timeline_24 [video_track, good_gap] = Inr ()
   \<and> validate_metadata show_pyval timeline_24 (four_defects @ [generator_clip])
       = Inl NotSupportedError"
proof -
  have sup4: "list_all supported four_defects"
    by (simp add: four_defects_def supported_def is_considered_gap_def video_track_def
        clip_without_range_def good_gap_def clip_at_30_def transition_without_cutpoint_def)
  have sup2: "list_all supported [video_track, good_gap]"
    by (simp add: supported_def is_considered_gap_def video_track_def good_gap_def)
  have unsup: "\<not> list_all supported (four_defects @ [generator_clip])"
    by (simp add: supported_def is_considered_gap_def generator_clip_def)
  have len: "length (all_violations show_pyval timeline_24 four_defects) = 4"
    by code_simp
  have dist: "distinct (all_violations show_pyval timeline_24 four_defects)"
    by code_simp
  have lines: "list_all one_line (all_violations show_pyval timeline_24 four_defects)"
    by code_simp
  have none: "all_violations show_pyval timeline_24 [video_track, good_gap] = []"
    by code_simp
  from len have ne: "all_violations show_pyval timeline_24 four_defects \<noteq> []"
    by auto
  from validation_collects_all_or_rejects_generator
         [of four_defects show_pyval timeline_24, THEN conjunct1, THEN mp, OF sup4]
       ne lines len dist
  have a: "\<exists>msg. validate_metadata show_pyval timeline_24 four_defects = Inl (AAFValidationError msg)
         \<and> length (message_lines msg) = 4 \<and> distinct (message_lines msg)"
    by simp
  from validation_collects_all_or_rejects_generator
         [of "[video_track, good_gap]" show_pyval timeline_24, THEN conjunct1, THEN mp, OF sup2]
       none
  have b: "validate_metadata show_pyval timeline_24 [video_track, good_gap] = Inr ()"
    by simp
  from validation_collects_all_or_rejects_generator
         [of "four_defects @ [generator_clip]" show_pyval timeline_24, THEN conjunct2, THEN mp,
          OF unsup]
  have c: "validate_metadata show_pyval timeline_24 (four_defects @ [generator_clip])
       = Inl NotSupportedError" .
  from a b c show ?thesis by blast
qed

text \<open>
  C9.  The claim says that the post-read extension point invokes the callback
  registered under the post-read hook name and is a no-op exactly when nothing
  is registered under that name.  Evaluated on the source: with a callback
  registered under the post-read name only, the extension point returns the
  timeline unchanged and the (always failing) callback is never invoked; with a
  callback registered under the post-write name only, that callback runs on
  read.
\<close>

theorem post_read_hook_dispatches_on_post_write_name:
  "run_post_read_transcribe_hook only_post_read_registered (7::nat) ''a.aaf'' 0 Map.empty = Inr 7
   \<and> run_post_read_transcribe_hook only_post_write_registered (7::nat) ''a.aaf'' 0 Map.empty = Inr 8"
  by (simp add: run_post_read_transcribe_hook_def only_post_read_registered_def
      only_post_write_registered_def HOOK_POST_READ_TRANSCRIBE_def HOOK_POST_WRITE_TRANSCRIBE_def)





text \<open>
  C6.  The claim says that a marker whose target track cannot be found, whose
  resolved item cannot carry markers, or whose coordinate transform fails, is
  left on the originating track.  Evaluated on the source, with the three
  markers of the event track \<open>Markers\<close>: the marker attached to a slot
  that does not exist ends on the root stack of the timeline; the marker that
  resolves to no item ends on the target track \<open>V1\<close>; with media
  without available range, both markers attached to \<open>V1\<close> end on
  \<open>V1\<close>; the originating track keeps none of them.
\<close>

theorem markers_leave_the_originating_track:
  "attach_markers (Suc (Suc 0)) unit_lib (Timeline new_timeline marked_stack)
     = Inr (Timeline new_timeline attached_stack)
   \<and> markers_at attached_stack [] = [lost]
   \<and> markers_at attached_stack [0] = [late]
   \<and> markers_at attached_stack [1] = []
   \<and> attach_markers (Suc (Suc 0)) no_available_range_lib (Timeline new_timeline marked_stack)
       = Inr (Timeline new_timeline attached_stack_without_ranges)
   \<and> markers_at attached_stack_without_ranges [0] = [late, hit]
   \<and> markers_at attached_stack_without_ranges [1] = []"
  by (simp add: marker_unfold marker_examples)

text \<open>
  C6, amended.  One step of the loop over the markers of a track, for a root
  stack and target tracks that are items of the tree.  A marker whose target
  track cannot be found is moved to the root stack of the timeline, with its
  range transformed into the space of the stack.  With a target track: when
  the search of the target item raises CannotComputeAvailableRangeError, the
  marker is moved to the target track unchanged, and any other error of the
  search is propagated; when the search returns, the new owner is the item
  found if it can carry markers and the target track if nothing was found or
  the item found cannot carry markers, and the marker is moved to that owner
  with its range transformed into the space of the owner; when this
  transformation raises CannotComputeAvailableRangeError, the marker is moved
  to the target track unchanged, and any other error of the transformation is
  propagated.  Whenever the marker is moved, it is the last marker of its new
  owner, it is no longer on the originating track unless that is the owner,
  and no other marker list changes.
\<close>

theorem marker_goes_to_item_target_track_or_stack:
  assumes "has_markers stack []"
      and "case target_of tracks_map mk of None \<Rightarrow> True | Some p \<Rightarrow> has_markers stack p"
  shows
    "(target_of tracks_map mk = None
        \<and> mlib_transformed_time lib (remove_marker current_track mk stack) current_track
             (start_time (mk_marked_range mk)) [] = Inr t \<longrightarrow>
        (\<exists>stack'. attach_marker depth lib tracks_map current_track mk stack = Inr stack'
           \<and> moved_onto stack' stack current_track mk [] (marked_from t mk)))
     \<and> (target_of tracks_map mk = Some target_track
          \<and> find_child_at_time depth lib (remove_marker current_track mk stack) target_track
               (start_time (mk_marked_range mk)) = Inl e \<longrightarrow>
        (if e = CannotComputeAvailableRangeError then
           (\<exists>stack'. attach_marker depth lib tracks_map current_track mk stack = Inr stack'
              \<and> moved_onto stack' stack current_track mk target_track mk)
         else attach_marker depth lib tracks_map current_track mk stack = Inl e))
     \<and> (target_of tracks_map mk = Some target_track
          \<and> find_child_at_time depth lib (remove_marker current_track mk stack) target_track
               (start_time (mk_marked_range mk)) = Inr found
          \<and> owner = (case found of
                       None \<Rightarrow> target_track
                     | Some p \<Rightarrow>
                         if has_markers (remove_marker current_track mk stack) p then p
                         else target_track) \<longrightarrow>
        (case mlib_transformed_time lib (remove_marker current_track mk stack) current_track
                (start_time (mk_marked_range mk)) owner of
           Inl e' \<Rightarrow>
             if e' = CannotComputeAvailableRangeError then
               (\<exists>stack'. attach_marker depth lib tracks_map current_track mk stack = Inr stack'
                  \<and> moved_onto stack' stack current_track mk target_track mk)
             else attach_marker depth lib tracks_map current_track mk stack = Inl e'
         | Inr t' \<Rightarrow>
             (\<exists>stack'. attach_marker depth lib tracks_map current_track mk stack = Inr stack'
                \<and> moved_onto stack' stack current_track mk owner (marked_from t' mk))))"
proof (intro conjI impI)
  assume "target_of tracks_map mk = None
        \<and> mlib_transformed_time lib (remove_marker current_track mk stack) current_track
             (start_time (mk_marked_range mk)) [] = Inr t"
  then show "\<exists>stack'. attach_marker depth lib tracks_map current_track mk stack = Inr stack'
           \<and> moved_onto stack' stack current_track mk [] (marked_from t mk)"
    using moved_onto_append_remove [OF assms(1)]
    by (simp add: attach_marker_def Let_def)
next
  assume a: "target_of tracks_map mk = Some target_track
          \<and> find_child_at_time depth lib (remove_marker current_track mk stack) target_track
               (start_time (mk_marked_range mk)) = Inl e"
  then have "has_markers stack target_track"
    using assms(2) by simp
  from moved_onto_append_remove [OF this] a
  show "if e = CannotComputeAvailableRangeError then
           (\<exists>stack'. attach_marker depth lib tracks_map current_track mk stack = Inr stack'
              \<and> moved_onto stack' stack current_track mk target_track mk)
         else attach_marker depth lib tracks_map current_track mk stack = Inl e"
    by (cases e) (simp_all add: attach_marker_def Let_def)
next
  assume a: "target_of tracks_map mk = Some target_track
          \<and> find_child_at_time depth lib (remove_marker current_track mk stack) target_track
               (start_time (mk_marked_range mk)) = Inr found
          \<and> owner = (case found of
                       None \<Rightarrow> target_track
                     | Some p \<Rightarrow>
                         if has_markers (remove_marker current_track mk stack) p then p
                         else target_track)"
  then have target: "has_markers stack target_track"
    using assms(2) by simp
  have "has_markers (remove_marker current_track mk stack) p = has_markers stack p" for p
    by (simp add: remove_marker_def has_markers_update)
  with a target have owner: "has_markers stack owner"
    by (cases found) auto
  from a have run:
    "attach_marker depth lib tracks_map current_track mk stack
       = (case mlib_transformed_time lib (remove_marker current_track mk stack) current_track
                 (start_time (mk_marked_range mk)) owner of
            Inl e' \<Rightarrow>
              if e' = CannotComputeAvailableRangeError
              then Inr (append_marker target_track mk (remove_marker current_track mk stack))
              else Inl e'
          | Inr t' \<Rightarrow>
              Inr (append_marker owner (marked_from t' mk)
                     (remove_marker current_track mk stack)))"
    by (cases found)
       (auto simp: attach_marker_def Let_def split: sum.splits py_error.splits)
  show "case mlib_transformed_time lib (remove_marker current_track mk stack) current_track
                (start_time (mk_marked_range mk)) owner of
           Inl e' \<Rightarrow>
             if e' = CannotComputeAvailableRangeError then
               (\<exists>stack'. attach_marker depth lib tracks_map current_track mk stack = Inr stack'
                  \<and> moved_onto stack' stack current_track mk target_track mk)
             else attach_marker depth lib tracks_map current_track mk stack = Inl e'
         | Inr t' \<Rightarrow>
             (\<exists>stack'. attach_marker depth lib tracks_map current_track mk stack = Inr stack'
                \<and> moved_onto stack' stack current_track mk owner (marked_from t' mk))"
    using moved_onto_append_remove [OF target] moved_onto_append_remove [OF owner]
    by (simp add: run split: sum.splits)
qed

text \<open>
  On the example: the marker of the missing slot goes to the root stack, the
  late marker to the target track, and the third marker to the first clip of
  the target track.
\<close>

theorem marker_goes_to_item_target_track_or_stack_witness:
  "(\<exists>stack'. attach_marker (Suc 0) unit_lib
                 (build_tracks_map marked_stack (track_paths marked_stack)) [1] lost marked_stack
                 = Inr stack'
        \<and> markers_at stack' [] = [lost] \<and> markers_at stack' [1] = [late, hit])
   \<and> (\<exists>stack'. attach_marker (Suc 0) unit_lib
                 (build_tracks_map marked_stack (track_paths marked_stack)) [1] late marked_stack
                 = Inr stack'
        \<and> markers_at stack' [0] = [late] \<and> markers_at stack' [1] = [lost, hit])
   \<and> (\<exists>stack'. attach_marker (Suc 0) unit_lib
                 (build_tracks_map marked_stack (track_paths marked_stack)) [1] hit marked_stack
                 = Inr stack'
        \<and> markers_at stack' [0, 0] = [hit] \<and> markers_at stack' [0] = []
        \<and> markers_at stack' [1] = [lost, late])"
proof -
  let ?tracks_map = "build_tracks_map marked_stack (track_paths marked_stack)"
  have stack: "has_markers marked_stack []"
    by (simp add: has_markers_def marked_stack_def)
  have no_target: "target_of ?tracks_map lost = None"
    by (simp add: marker_unfold marker_examples)
  have target: "target_of ?tracks_map late = Some [0]" "target_of ?tracks_map hit = Some [0]"
    by (simp_all add: marker_unfold marker_examples)
  have target_ok: "has_markers marked_stack [0]"
    by (simp add: has_markers_def marked_stack_def slot_track_def)
  have here: "markers_at marked_stack [] = []" "markers_at marked_stack [0] = []"
    "markers_at marked_stack [Suc 0] = [lost, late, hit]" "markers_at marked_stack [0, 0] = []"
    by (simp_all add: marker_unfold marker_examples)
  have same: "marked_from (start_time (mk_marked_range mk)) mk = mk" for mk
    by (simp add: marked_from_def)
  have transformed: "mlib_transformed_time unit_lib s p t q = Inr t" for s p t q
    by (simp add: unit_lib_def)
  have lost_ok: "case target_of ?tracks_map lost of None \<Rightarrow> True
                 | Some p \<Rightarrow> has_markers marked_stack p"
    using no_target by simp
  have late_ok: "case target_of ?tracks_map late of None \<Rightarrow> True
                 | Some p \<Rightarrow> has_markers marked_stack p"
    using target target_ok by simp
  have hit_ok: "case target_of ?tracks_map hit of None \<Rightarrow> True
                 | Some p \<Rightarrow> has_markers marked_stack p"
    using target target_ok by simp
  have to_stack:
    "target_of ?tracks_map lost = None
     \<and> mlib_transformed_time unit_lib (remove_marker [1] lost marked_stack) [1]
          (start_time (mk_marked_range lost)) [] = Inr (start_time (mk_marked_range lost))"
    using no_target transformed by simp
  have unresolved:
    "target_of ?tracks_map late = Some [0]
     \<and> find_child_at_time (Suc 0) unit_lib (remove_marker [1] late marked_stack) [0]
          (start_time (mk_marked_range late)) = Inr None
     \<and> [0] = (case None of
                None \<Rightarrow> [0]
              | Some p \<Rightarrow> if has_markers (remove_marker [1] late marked_stack) p then p else [0])"
    using target by (simp add: marker_unfold marker_examples)
  have resolved:
    "target_of ?tracks_map hit = Some [0]
     \<and> find_child_at_time (Suc 0) unit_lib (remove_marker [1] hit marked_stack) [0]
          (start_time (mk_marked_range hit)) = Inr (Some [0, 0])
     \<and> [0, 0] = (case Some [0, 0] of
                   None \<Rightarrow> [0]
                 | Some p \<Rightarrow> if has_markers (remove_marker [1] hit marked_stack) p then p else [0])"
    using target by (simp add: marker_unfold marker_examples)
  from marker_goes_to_item_target_track_or_stack
         [where stack = marked_stack and tracks_map = ?tracks_map and mk = lost
            and lib = unit_lib and current_track = "[1]" and depth = "Suc 0",
          OF stack lost_ok, THEN conjunct1, THEN mp, OF to_stack]
  obtain stack1 where
    "attach_marker (Suc 0) unit_lib ?tracks_map [1] lost marked_stack = Inr stack1"
    and "moved_onto stack1 marked_stack [1] lost [] lost"
    by (auto simp: same)
  then have first: "\<exists>stack'. attach_marker (Suc 0) unit_lib ?tracks_map [1] lost marked_stack
                 = Inr stack'
        \<and> markers_at stack' [] = [lost] \<and> markers_at stack' [1] = [late, hit]"
    by (simp add: moved_onto_def here lost_def late_def hit_def marker_for_def)
  from marker_goes_to_item_target_track_or_stack
         [where stack = marked_stack and tracks_map = ?tracks_map and mk = late
            and lib = unit_lib and current_track = "[1]" and depth = "Suc 0"
            and target_track = "[0]" and found = None and owner = "[0]",
          OF stack late_ok, THEN conjunct2, THEN conjunct2, THEN mp, OF unresolved]
  obtain stack2 where
    "attach_marker (Suc 0) unit_lib ?tracks_map [1] late marked_stack = Inr stack2"
    and "moved_onto stack2 marked_stack [1] late [0] late"
    by (auto simp: transformed same)
  then have second: "\<exists>stack'. attach_marker (Suc 0) unit_lib ?tracks_map [1] late marked_stack
                 = Inr stack'
        \<and> markers_at stack' [0] = [late] \<and> markers_at stack' [1] = [lost, hit]"
    by (simp add: moved_onto_def here lost_def late_def hit_def marker_for_def)
  from marker_goes_to_item_target_track_or_stack
         [where stack = marked_stack and tracks_map = ?tracks_map and mk = hit
            and lib = unit_lib and current_track = "[1]" and depth = "Suc 0"
            and target_track = "[0]" and found = "Some [0, 0]" and owner = "[0, 0]",
          OF stack hit_ok, THEN conjunct2, THEN conjunct2, THEN mp, OF resolved]
  obtain stack3 where
    "attach_marker (Suc 0) unit_lib ?tracks_map [1] hit marked_stack = Inr stack3"
    and "moved_onto stack3 marked_stack [1] hit [0, 0] hit"
    by (auto simp: transformed same)
  then have third: "\<exists>stack'. attach_marker (Suc 0) unit_lib ?tracks_map [1] hit marked_stack
                 = Inr stack'
        \<and> markers_at stack' [0, 0] = [hit] \<and> markers_at stack' [0] = []
        \<and> markers_at stack' [1] = [lost, late]"
    by (simp add: moved_onto_def here lost_def late_def hit_def marker_for_def)
  from first second third show ?thesis
    by blast
qed

text \<open>
  C4.  The claim says that simplifying twice equals simplifying once, for
  every tree.  Evaluated on the source: a track holding a clip and a nested
  stack, one layer of which is a stack with an effect over a single clip.  The
  first pass turns the stack with the effect into a synthetic track with the
  effect; the second pass moves the effect from that track to the clip.
\<close>

theorem simplify_is_not_idempotent:
  "simplify keep_all_lib effect_on_stack = Inr effect_on_track
   \<and> simplify keep_all_lib effect_on_track = Inr effect_on_clip
   \<and> effect_on_track \<noteq> effect_on_clip"
  by (simp add: effect_on_stack_def effect_on_track_def effect_on_clip_def example_defs
      simplify_unfold keep_all_lib_def)


text \<open>
  C4, amended.  The simplifier is idempotent on flat timelines and on plain
  timelines, whatever the library does.  On a flat timeline (the root stack
  has no source range and holds only tracks of clips, gaps and transitions)
  it returns the timeline without the tracks that contain nothing valuable,
  and simplifying that result returns it unchanged.  On a plain timeline
  (every track and stack, at any depth, is enabled, has no effect, marker,
  source range or valuable metadata, and holds only clips, gaps, tracks and
  stacks) it returns a timeline that a second pass returns unchanged.
\<close>

theorem simplify_idempotent_on_flat_and_plain_timelines:
  "(flat_timeline T \<longrightarrow>
      simplify L T = Inr (without_worthless_tracks T)
      \<and> simplify L (without_worthless_tracks T) = Inr (without_worthless_tracks T))
   \<and> (plain_timeline T \<longrightarrow> (\<exists>T'. simplify L T = Inr T' \<and> simplify L T' = Inr T'))"
  using flat_timeline_idempotent [of T L] plain_timeline_idempotent [of T L]
  by blast

text \<open>
  A flat timeline of three tracks: the track holding only a gap is dropped,
  the empty track with an effect is kept.  And the timeline of the
  counterexample without its effect, which is plain: the nested stacks are
  flattened into synthetic tracks by the first pass, and the second pass
  changes nothing.
\<close>

theorem simplify_idempotent_on_flat_and_plain_timelines_witness:
  "flat_timeline flat_example
   \<and> simplify keep_all_lib flat_example
       = Inr (a_timeline [a_track [clip_named ''a'', Gap new_item, clip_named ''b''],
                          Track (new_item \<lparr> effects := [blur] \<rparr>) ''Video'' []])
   \<and> simplify keep_all_lib
        (a_timeline [a_track [clip_named ''a'', Gap new_item, clip_named ''b''],
                     Track (new_item \<lparr> effects := [blur] \<rparr>) ''Video'' []])
       = Inr (a_timeline [a_track [clip_named ''a'', Gap new_item, clip_named ''b''],
                          Track (new_item \<lparr> effects := [blur] \<rparr>) ''Video'' []])
   \<and> plain_timeline plain_example
   \<and> simplify keep_all_lib plain_example = Inr plain_example_simplified
   \<and> simplify keep_all_lib plain_example_simplified = Inr plain_example_simplified"
proof -
  have flat: "flat_timeline flat_example"
    by (simp add: flat_example_def example_defs gap_track_def new_item_def)
  have less: "without_worthless_tracks flat_example
      = a_timeline [a_track [clip_named ''a'', Gap new_item, clip_named ''b''],
                    Track (new_item \<lparr> effects := [blur] \<rparr>) ''Video'' []]"
    by (simp add: flat_example_def example_defs gap_track_def valuable_metadata_def new_item_def)
  have plain: "plain_timeline plain_example"
    by (simp add: plain_example_def example_defs a_stack_def plain_def new_item_def)
  have first: "simplify keep_all_lib plain_example = Inr plain_example_simplified"
    by (simp add: plain_example_def plain_example_simplified_def example_defs simplify_unfold
        keep_all_lib_def)
  from simplify_idempotent_on_flat_and_plain_timelines
         [of plain_example keep_all_lib, THEN conjunct2, THEN mp, OF plain]
  have second: "simplify keep_all_lib plain_example_simplified = Inr plain_example_simplified"
    by (auto simp: first)
  from simplify_idempotent_on_flat_and_plain_timelines
         [of flat_example keep_all_lib, THEN conjunct1, THEN mp, OF flat]
  have "simplify keep_all_lib flat_example = Inr (without_worthless_tracks flat_example)
      \<and> simplify keep_all_lib (without_worthless_tracks flat_example)
          = Inr (without_worthless_tracks flat_example)" .
  with flat plain first second show ?thesis
    by (simp only: less) 
qed

end
